theory Spec2Isabelle
  imports Main "HOL-Library.Word" "HOL-Library.Multiset" "HOL-Library.List_Lexorder"
    "HOL-Library.Char_ord"
begin

section \<open>Errors\<close>

text \<open>
  Go errors are values. The constructors below keep the data each message is formatted
  from; \<open>PathError\<close> is \<^verbatim>\<open>&fs.PathError{Op, Path, Err}\<close>, which unwraps to its
  \<open>Err\<close>, and \<open>errorsIsNotExist\<close> is \<^verbatim>\<open>errors.Is(err, fs.ErrNotExist)\<close>.
  \<open>FileVersion\<close> is the Go integer type with its three named values; any other
  value is \<open>FileVersionOther\<close>.
\<close>

datatype FileVersion =
    FileVersionV1Beta1
  | FileVersionV1
  | FileVersionV2
  | FileVersionOther int

datatype error =
    ErrNotExist
  | PathError string string error
  | SysError string
  | ErrorMsg string
  | Panic string
  | VerificationFailed string string string
  | ErrNoTargetProtoFiles
  | SysNoTargetModules string "string list"
  | SysUnknownFileVersion FileVersion
  | LockFileVersionMismatch FileVersion
  | DifferentRefs string string
  | SysBufYAMLNotV1 string
  | SysModuleConfigCount nat
  | SysErrorGettingV2BufYAML error
  | SysExpectedV2BufYAML FileVersion
  | SysNoModuleConfigForBucketID string
  | ModuleSpecifiedWithPath string
  | ModuleSpecifiedWithExcludePath string
  | SysNonLocalModule string
  | RequireModuleFullNameOnUpload string
  | MultipleRegistries "string list"
  | ExpectedCommits nat nat
  | SysExpectedLocalModule
  | SysModuleNoFullName string
  | SysLocalDepNotScheduled string
  | SysNoCommitIDForRemoteDep string
  | SysNotSelfContained
  | NoInputFiles
  | InvalidSourceButNoErrors
  | NoErrorButErrorsReported
  | ExpectedFileDescriptorsLength nat nat
  | ExpectedFileDescriptorName string string
  | RootRelFilePathLength nat nat
  | NoNameOnFileDescriptor
  | DuplicateFileDescriptor string
  | NoFileDescriptorForRootRelFilePath string
  | NilFileDescriptorError
  | NilFileDescriptorProto
  | SysWrap error

fun errorsIsNotExist :: "error \<Rightarrow> bool" where
  "errorsIsNotExist ErrNotExist = True"
| "errorsIsNotExist (PathError opn p e) = errorsIsNotExist e"
| "errorsIsNotExist (SysWrap e) = errorsIsNotExist e"
| "errorsIsNotExist (SysErrorGettingV2BufYAML e) = errorsIsNotExist e"
| "errorsIsNotExist e = False"

section \<open>ModuleReadBucket (bufmodule/module\_read\_bucket.go)\<close>

subsection \<open>Data\<close>

datatype FileType = FileTypeProto | FileTypeDoc | FileTypeLicense

record objectInfo =
  oiPath :: string
  oiExternalPath :: string

text \<open>The part of a Module the bucket reads: \<^verbatim>\<open>module.IsTargetModule()\<close> is read at
  every call (the builder may still change it), so it is a field of the module value the
  bucket holds at the time of the call.\<close>

record module =
  moduleOpaqueID :: string
  IsTargetModule :: bool

record fileInfo =
  fiObjectInfo :: objectInfo
  fiModule :: module
  fiFileType :: FileType
  fiIsTargetFile :: bool

text \<open>
  Modelled from the spec: \<^verbatim>\<open>storage.ReadBucket\<close> (private/pkg/storage is not among the
  sources). Section 4.2: Get(path), Stat(path), Walk(prefix, fn); Get and Stat fail with a
  not-exist condition when the path is absent. \<open>sbWalk prefix\<close> is the sequence Walk
  visits: each entry is an object passed to the callback, or the I/O error Walk stops at.
\<close>

record 'c storageReadBucket =
  sbStat :: "string \<Rightarrow> error + objectInfo"
  sbGet :: "string \<Rightarrow> error + 'c"
  sbWalk :: "string \<Rightarrow> (error + objectInfo) list"

fun storageWalk ::
  "(error + objectInfo) list \<Rightarrow> (objectInfo \<Rightarrow> 's \<Rightarrow> error + 's) \<Rightarrow> 's \<Rightarrow> error + 's" where
  "storageWalk [] f s = Inr s"
| "storageWalk (Inl e # es) f s = Inl e"
| "storageWalk (Inr oi # es) f s =
     (case f oi s of Inl e \<Rightarrow> Inl e | Inr s' \<Rightarrow> storageWalk es f s')"

record 'c moduleReadBucket =
  delegate :: "'c storageReadBucket"
  mrbModule :: module
  targetPathMap :: "string set"
  targetExcludePathMap :: "string set"

text \<open>\<^verbatim>\<open>newModuleReadBucket\<close>: the delegate is restricted to module files by
  \<^verbatim>\<open>storage.MapReadBucket\<close> with the proto/license/doc matcher (the parameter
  \<open>mapModuleFiles\<close>), and the two path slices become sets (\<^verbatim>\<open>slicesextended.ToMap\<close>).\<close>

definition newModuleReadBucket ::
  "('c storageReadBucket \<Rightarrow> 'c storageReadBucket) \<Rightarrow> 'c storageReadBucket \<Rightarrow> module \<Rightarrow>
   string list \<Rightarrow> string list \<Rightarrow> 'c moduleReadBucket" where
  "newModuleReadBucket mapModuleFiles d m targetPaths targetExcludePaths =
     \<lparr> delegate = mapModuleFiles d, mrbModule = m,
       targetPathMap = set targetPaths, targetExcludePathMap = set targetExcludePaths \<rparr>"

text \<open>
  Modelled from the spec: \<^verbatim>\<open>normalpath.MapHasEqualOrContainingPath(m, path, Relative)\<close>
  (private/pkg/normalpath is not among the sources): some key of the map equals the path or
  contains it. The relation \<^verbatim>\<open>normalpath.EqualsOrContainsPath(key, path, Relative)\<close>
  itself is the parameter \<open>eqOrContains\<close>.
\<close>

definition MapHasEqualOrContainingPath ::
  "(string \<Rightarrow> string \<Rightarrow> bool) \<Rightarrow> string set \<Rightarrow> string \<Rightarrow> bool" where
  "MapHasEqualOrContainingPath eqOrContains m path = (\<exists>k\<in>m. eqOrContains k path)"

subsection \<open>moduleReadBucket\<close>

definition getIsTargetedFileForPath ::
  "(string \<Rightarrow> string \<Rightarrow> bool) \<Rightarrow> 'c moduleReadBucket \<Rightarrow> string \<Rightarrow> bool" where
  "getIsTargetedFileForPath eqOrContains f path =
     (if \<not> IsTargetModule (mrbModule f) then False
      else if targetPathMap f = {} \<and> targetExcludePathMap f = {} then True
      else if targetPathMap f = {} \<and> targetExcludePathMap f \<noteq> {} then
        \<not> MapHasEqualOrContainingPath eqOrContains (targetExcludePathMap f) path
      else if targetPathMap f \<noteq> {} \<and> targetExcludePathMap f = {} then
        MapHasEqualOrContainingPath eqOrContains (targetPathMap f) path
      else
        MapHasEqualOrContainingPath eqOrContains (targetPathMap f) path \<and>
        \<not> MapHasEqualOrContainingPath eqOrContains (targetExcludePathMap f) path)"

text \<open>\<^verbatim>\<open>classifyPathFileType\<close> is not among the sources: it is the parameter
  \<open>classify\<close>, which may fail (a system error, by the constructor's matching).\<close>

definition newFileInfo ::
  "(string \<Rightarrow> error + FileType) \<Rightarrow> (string \<Rightarrow> string \<Rightarrow> bool) \<Rightarrow> 'c moduleReadBucket \<Rightarrow>
   objectInfo \<Rightarrow> error + fileInfo" where
  "newFileInfo classify eqOrContains b oi =
     (case classify (oiPath oi) of
        Inl e \<Rightarrow> Inl e
      | Inr ft \<Rightarrow>
          Inr \<lparr> fiObjectInfo = oi, fiModule = mrbModule b, fiFileType = ft,
                fiIsTargetFile = getIsTargetedFileForPath eqOrContains b (oiPath oi) \<rparr>)"

record walkFileInfosOptions =
  onlyTargetFiles :: bool

definition newWalkFileInfosOptions :: walkFileInfosOptions where
  "newWalkFileInfosOptions = \<lparr> onlyTargetFiles = False \<rparr>"

definition WalkFileInfosWithOnlyTargetFiles :: "walkFileInfosOptions \<Rightarrow> walkFileInfosOptions" where
  "WalkFileInfosWithOnlyTargetFiles w = w\<lparr> onlyTargetFiles := True \<rparr>"

subsection \<open>The ModuleReadBucket interface: the plain and the filtered bucket\<close>

text \<open>The sealed interface as a sum: a \<open>moduleReadBucket\<close>, or a
  \<open>filteredModuleReadBucket\<close> over any ModuleReadBucket with its \<open>fileTypeMap\<close>.\<close>

datatype 'c ModuleReadBucket =
    Plain "'c moduleReadBucket"
  | Filtered "'c ModuleReadBucket" "FileType set"

definition newFilteredModuleReadBucket ::
  "'c ModuleReadBucket \<Rightarrow> FileType list \<Rightarrow> 'c ModuleReadBucket" where
  "newFilteredModuleReadBucket d fileTypes = Filtered d (set fileTypes)"

fun StatFileInfo ::
  "(string \<Rightarrow> error + FileType) \<Rightarrow> (string \<Rightarrow> string \<Rightarrow> bool) \<Rightarrow> 'c ModuleReadBucket \<Rightarrow>
   string \<Rightarrow> error + fileInfo" where
  "StatFileInfo classify eqc (Plain f) path =
     (case sbStat (delegate f) path of
        Inl e \<Rightarrow> Inl e
      | Inr oi \<Rightarrow> newFileInfo classify eqc f oi)"
| "StatFileInfo classify eqc (Filtered d fileTypeMap) path =
     (case StatFileInfo classify eqc d path of
        Inl e \<Rightarrow> Inl e
      | Inr fi \<Rightarrow>
          if fiFileType fi \<notin> fileTypeMap then Inl (PathError ''stat'' path ErrNotExist)
          else Inr fi)"

fun GetFile ::
  "(string \<Rightarrow> error + FileType) \<Rightarrow> (string \<Rightarrow> string \<Rightarrow> bool) \<Rightarrow> 'c ModuleReadBucket \<Rightarrow>
   string \<Rightarrow> error + (fileInfo \<times> 'c)" where
  "GetFile classify eqc (Plain f) path =
     (case StatFileInfo classify eqc (Plain f) path of
        Inl e \<Rightarrow> Inl e
      | Inr fi \<Rightarrow>
          (case sbGet (delegate f) path of
             Inl e \<Rightarrow> Inl e
           | Inr roc \<Rightarrow> Inr (fi, roc)))"
| "GetFile classify eqc (Filtered d fileTypeMap) path =
     (case StatFileInfo classify eqc (Filtered d fileTypeMap) path of
        Inl e \<Rightarrow> Inl e
      | Inr fi \<Rightarrow> GetFile classify eqc d path)"

text \<open>The callback \<open>fn\<close> of \<^verbatim>\<open>WalkFileInfos\<close> threads the caller's state \<open>'s\<close> (the
  closure's captured variables) and may fail, which stops the walk.\<close>

fun WalkFileInfos ::
  "(string \<Rightarrow> error + FileType) \<Rightarrow> (string \<Rightarrow> string \<Rightarrow> bool) \<Rightarrow> 'c ModuleReadBucket \<Rightarrow>
   (fileInfo \<Rightarrow> 's \<Rightarrow> error + 's) \<Rightarrow> (walkFileInfosOptions \<Rightarrow> walkFileInfosOptions) list \<Rightarrow>
   's \<Rightarrow> error + 's" where
  "WalkFileInfos classify eqc (Plain f) fn options s =
     (let opts = fold (\<lambda>option w. option w) options newWalkFileInfosOptions
      in storageWalk (sbWalk (delegate f) '''')
           (\<lambda>oi s. case newFileInfo classify eqc f oi of
                      Inl e \<Rightarrow> Inl e
                    | Inr fi \<Rightarrow>
                        if onlyTargetFiles opts \<and> \<not> fiIsTargetFile fi then Inr s
                        else fn fi s) s)"
| "WalkFileInfos classify eqc (Filtered d fileTypeMap) fn options s =
     WalkFileInfos classify eqc d
       (\<lambda>fi s. if fiFileType fi \<notin> fileTypeMap then Inr s else fn fi s) options s"

subsection \<open>A concrete bucket\<close>

text \<open>A small module used to evaluate the definitions: the files \<open>a/x.proto\<close>,
  \<open>a/b/y.proto\<close> and \<open>LICENSE\<close>; a path relation that takes \<open>k\<close> to contain \<open>p\<close>
  when \<open>p\<close> starts with \<open>k/\<close>; a classifier by file name.\<close>

definition exEqualsOrContainsPath :: "string \<Rightarrow> string \<Rightarrow> bool" where
  "exEqualsOrContainsPath k p = (k = ''.'' \<or> k = p \<or> take (length k + 1) p = k @ ''/'')"

definition exClassify :: "string \<Rightarrow> error + FileType" where
  "exClassify p =
     (if p = ''LICENSE'' then Inr FileTypeLicense
      else if p = ''buf.md'' then Inr FileTypeDoc
      else Inr FileTypeProto)"

definition exObject :: "string \<Rightarrow> objectInfo" where
  "exObject p = \<lparr> oiPath = p, oiExternalPath = p \<rparr>"

definition exStorage :: "string storageReadBucket" where
  "exStorage =
     \<lparr> sbStat = (\<lambda>p. if p \<in> set [''a/x.proto'', ''a/b/y.proto'', ''LICENSE'']
                       then Inr (exObject p) else Inl (PathError ''stat'' p ErrNotExist)),
       sbGet = (\<lambda>p. if p \<in> set [''a/x.proto'', ''a/b/y.proto'', ''LICENSE'']
                      then Inr ''data'' else Inl (PathError ''get'' p ErrNotExist)),
       sbWalk = (\<lambda>prefix. [Inr (exObject ''LICENSE''), Inr (exObject ''a/b/y.proto''),
                            Inr (exObject ''a/x.proto'')]) \<rparr>"

definition exModule :: "bool \<Rightarrow> module" where
  "exModule t = \<lparr> moduleOpaqueID = ''buf.build/acme/m'', IsTargetModule = t \<rparr>"

definition exBucket :: "bool \<Rightarrow> string list \<Rightarrow> string list \<Rightarrow> string moduleReadBucket" where
  "exBucket t targetPaths targetExcludePaths =
     newModuleReadBucket (\<lambda>b. b) exStorage (exModule t) targetPaths targetExcludePaths"

definition exFileInfo :: "bool \<Rightarrow> string \<Rightarrow> FileType \<Rightarrow> bool \<Rightarrow> fileInfo" where
  "exFileInfo t p ft isTarget =
     \<lparr> fiObjectInfo = exObject p, fiModule = exModule t, fiFileType = ft,
       fiIsTargetFile = isTarget \<rparr>"

section \<open>Workspace resolution (bufworkspace: workspace\_provider.go, module\_targeting.go)\<close>

subsection \<open>Data\<close>

text \<open>A \<^verbatim>\<open>for _, x := range xs\<close> loop whose body may return an error: the body
  threads the loop's variables as a state and the first error ends the loop.\<close>

fun forEachE :: "('a \<Rightarrow> 's \<Rightarrow> error + 's) \<Rightarrow> 'a list \<Rightarrow> 's \<Rightarrow> error + 's" where
  "forEachE f [] s = Inr s"
| "forEachE f (x # xs) s = (case f x s of Inl e \<Rightarrow> Inl e | Inr s' \<Rightarrow> forEachE f xs s')"

text \<open>\<^verbatim>\<open>slicesext.MapError\<close>: maps in order and returns the first error.\<close>

fun MapError :: "('a \<Rightarrow> error + 'b) \<Rightarrow> 'a list \<Rightarrow> error + 'b list" where
  "MapError f [] = Inr []"
| "MapError f (x # xs) =
     (case f x of
        Inl e \<Rightarrow> Inl e
      | Inr y \<Rightarrow> (case MapError f xs of Inl e \<Rightarrow> Inl e | Inr ys \<Rightarrow> Inr (y # ys)))"

record ModuleFullName =
  Registry :: string
  Owner :: string
  Name :: string

text \<open>LintConfig and BreakingConfig are opaque value objects; a name stands for each.\<close>

type_synonym LintConfig = string
type_synonym BreakingConfig = string

record moduleConfig =
  mcDirPath :: string
  mcModuleFullName :: "ModuleFullName option"
  mcRootToExcludes :: "(string \<times> string list) list"
  mcLintConfig :: LintConfig
  mcBreakingConfig :: BreakingConfig

record 'ref bufYAMLFile =
  byFileVersion :: FileVersion
  byModuleConfigs :: "moduleConfig list"
  byConfiguredDepModuleRefs :: "'ref list"

record 'key bufLockFile =
  blFileVersion :: FileVersion
  blDepModuleKeys :: "'key list"

record workspaceBucketConfig =
  targetSubDirPath :: string
  targetPaths :: "string list"
  targetExcludePaths :: "string list"
  protoFileTargetPath :: string
  includePackageFiles :: bool

record moduleTargeting =
  isTargetModule :: bool
  moduleTargetPaths :: "string list"
  moduleTargetExcludePaths :: "string list"
  moduleProtoFileTargetPath :: string
  mtIncludePackageFiles :: bool

text \<open>The calls made on the ModuleSetBuilder, in order. The arguments of AddLocalModule
  are the bucket, the directory, the target flag and the values of its options: module
  name, target paths, target exclude paths, proto file target path, include-package-files
  and the v1 buf.yaml and buf.lock object data (absent in the v2 path).\<close>

datatype ('b, 'key, 'od) builderCall =
    AddRemoteModule 'key bool
  | AddLocalModule 'b string bool "ModuleFullName option" "string list" "string list"
      string bool "'od option" "'od option"

record moduleSetModule =
  BucketID :: string
  OpaqueID :: string

record ('ms, 'ref) workspace =
  wsModuleSet :: 'ms
  opaqueIDToLintConfig :: "string \<rightharpoonup> LintConfig"
  opaqueIDToBreakingConfig :: "string \<rightharpoonup> BreakingConfig"
  wsConfiguredDepModuleRefs :: "'ref list"
  wsIsV2 :: bool

text \<open>
  What the workspace provider calls outside the two source files: reading buf.yaml and
  buf.lock and their object data from the bucket (bufconfig), the storage mappers, the
  normalpath relations, \<^verbatim>\<open>applyRootsToTargetPath\<close>, the ModuleSetBuilder's Build and
  the ModuleSet's Modules, the two String methods of a ModuleRef, and the default configs.
  They are the fields of an environment; each fallible call returns \<open>error + _\<close>.
\<close>

record ('b, 'ref, 'key, 'od, 'ms) wsEnv =
  GetBufYAMLFileForPrefix :: "'b \<Rightarrow> string \<Rightarrow> error + 'ref bufYAMLFile"
  GetBufLockFileForPrefix :: "'b \<Rightarrow> string \<Rightarrow> error + 'key bufLockFile"
  GetBufYAMLV1Beta1OrV1ObjectDataForPrefix :: "'b \<Rightarrow> string \<Rightarrow> error + 'od"
  GetBufLockV1Beta1OrV1ObjectDataForPrefix :: "'b \<Rightarrow> string \<Rightarrow> error + 'od"
  MapOnPrefix :: "'b \<Rightarrow> string \<Rightarrow> 'b"
  MultiRootBucket :: "'b \<Rightarrow> (string \<times> string list) list \<Rightarrow> 'b"
  EqualsOrContainsPath :: "string \<Rightarrow> string \<Rightarrow> bool"
  ContainsPath :: "string \<Rightarrow> string \<Rightarrow> bool"
  Rel :: "string \<Rightarrow> string \<Rightarrow> error + string"
  applyRootsToTargetPath :: "string list \<Rightarrow> string \<Rightarrow> error + string"
  Build :: "('b, 'key, 'od) builderCall list \<Rightarrow> error + 'ms"
  Modules :: "'ms \<Rightarrow> moduleSetModule list"
  refModuleFullNameString :: "'ref \<Rightarrow> string"
  refString :: "'ref \<Rightarrow> string"
  DefaultModuleConfig :: moduleConfig
  DefaultLintConfig :: LintConfig
  DefaultBreakingConfig :: BreakingConfig

subsection \<open>newModuleTargeting\<close>

text \<open>The loop over \<open>config.targetPaths\<close>: its variables are \<open>isTargetModule\<close> and
  \<open>moduleTargetPaths\<close>.\<close>

definition targetPathStep ::
  "('b, 'ref, 'key, 'od, 'ms) wsEnv \<Rightarrow> string \<Rightarrow> string \<Rightarrow> bool \<times> string list \<Rightarrow>
   error + (bool \<times> string list)" where
  "targetPathStep env moduleDirPath targetPath st =
     (if targetPath = moduleDirPath then Inl (ModuleSpecifiedWithPath targetPath)
      else if ContainsPath env moduleDirPath targetPath then
        (case Rel env moduleDirPath targetPath of
           Inl e \<Rightarrow> Inl e
         | Inr moduleTargetPath \<Rightarrow> Inr (True, snd st @ [moduleTargetPath]))
      else Inr st)"

text \<open>The loop over \<open>config.targetExcludePaths\<close>: its variable is
  \<open>moduleTargetExcludePaths\<close>.\<close>

definition targetExcludePathStep ::
  "('b, 'ref, 'key, 'od, 'ms) wsEnv \<Rightarrow> string \<Rightarrow> string \<Rightarrow> string list \<Rightarrow> error + string list" where
  "targetExcludePathStep env moduleDirPath targetExcludePath st =
     (if targetExcludePath = moduleDirPath then
        Inl (ModuleSpecifiedWithExcludePath targetExcludePath)
      else if ContainsPath env moduleDirPath targetExcludePath then
        (case Rel env moduleDirPath targetExcludePath of
           Inl e \<Rightarrow> Inl e
         | Inr moduleTargetExcludePath \<Rightarrow> Inr (st @ [moduleTargetExcludePath]))
      else Inr st)"

definition newModuleTargeting ::
  "('b, 'ref, 'key, 'od, 'ms) wsEnv \<Rightarrow> string \<Rightarrow> string list \<Rightarrow> workspaceBucketConfig \<Rightarrow>
   bool \<Rightarrow> error + moduleTargeting" where
  "newModuleTargeting env moduleDirPath roots config isTentativelyTargetModule =
     (if \<not> isTentativelyTargetModule then
        Inr \<lparr> isTargetModule = False, moduleTargetPaths = [], moduleTargetExcludePaths = [],
              moduleProtoFileTargetPath = [], mtIncludePackageFiles = False \<rparr>
      else
        case forEachE (targetPathStep env moduleDirPath) (targetPaths config)
               (targetPaths config = [] \<and> protoFileTargetPath config = [], []) of
          Inl e \<Rightarrow> Inl e
        | Inr (isTarget1, paths1) \<Rightarrow>
        case forEachE (targetExcludePathStep env moduleDirPath) (targetExcludePaths config) [] of
          Inl e \<Rightarrow> Inl e
        | Inr excludes1 \<Rightarrow>
        case MapError (applyRootsToTargetPath env roots) paths1 of
          Inl e \<Rightarrow> Inl e
        | Inr paths2 \<Rightarrow>
        case MapError (applyRootsToTargetPath env roots) excludes1 of
          Inl e \<Rightarrow> Inl e
        | Inr excludes2 \<Rightarrow>
        if protoFileTargetPath config \<noteq> [] \<and>
           ContainsPath env moduleDirPath (protoFileTargetPath config) then
          (case Rel env moduleDirPath (protoFileTargetPath config) of
             Inl e \<Rightarrow> Inl e
           | Inr p1 \<Rightarrow>
             (case applyRootsToTargetPath env roots p1 of
                Inl e \<Rightarrow> Inl e
              | Inr p2 \<Rightarrow>
                  Inr \<lparr> isTargetModule = True, moduleTargetPaths = paths2,
                        moduleTargetExcludePaths = excludes2, moduleProtoFileTargetPath = p2,
                        mtIncludePackageFiles = includePackageFiles config \<rparr>))
        else
          Inr \<lparr> isTargetModule = isTarget1, moduleTargetPaths = paths2,
                moduleTargetExcludePaths = excludes2, moduleProtoFileTargetPath = [],
                mtIncludePackageFiles = False \<rparr>)"

subsection \<open>The helpers of the workspace provider\<close>

text \<open>\<^verbatim>\<open>getMappedModuleBucketAndModuleTargeting\<close>: the bucket is mapped on the module
  directory and split by roots and excludes (\<open>MultiRootBucket\<close> stands for the
  MultiReadBucket of the root buckets, the doc bucket and the license bucket); the roots
  passed on are the keys of \<open>rootToExcludes\<close>.\<close>

definition getMappedModuleBucketAndModuleTargeting ::
  "('b, 'ref, 'key, 'od, 'ms) wsEnv \<Rightarrow> 'b \<Rightarrow> workspaceBucketConfig \<Rightarrow> string \<Rightarrow>
   moduleConfig \<Rightarrow> bool \<Rightarrow> error + ('b \<times> moduleTargeting)" where
  "getMappedModuleBucketAndModuleTargeting env bucket config moduleDirPath mc isTarget =
     (let moduleBucket = MapOnPrefix env bucket moduleDirPath;
          rootToExcludes = mcRootToExcludes mc;
          mappedModuleBucket = MultiRootBucket env moduleBucket rootToExcludes
      in case newModuleTargeting env moduleDirPath (map fst rootToExcludes) config isTarget of
           Inl e \<Rightarrow> Inl e
         | Inr mt \<Rightarrow> Inr (mappedModuleBucket, mt))"

definition v1ConfigOfBufYAMLFile ::
  "string \<Rightarrow> 'ref bufYAMLFile \<Rightarrow> error + (moduleConfig \<times> 'ref list)" where
  "v1ConfigOfBufYAMLFile moduleDirPath y =
     (if byFileVersion y \<noteq> FileVersionV1Beta1 \<and> byFileVersion y \<noteq> FileVersionV1 then
        Inl (SysBufYAMLNotV1 moduleDirPath)
      else
        case byModuleConfigs y of
          [mc] \<Rightarrow> Inr (mc, byConfiguredDepModuleRefs y)
        | mcs \<Rightarrow> Inl (SysModuleConfigCount (length mcs)))"

definition getModuleConfigAndConfiguredDepModuleRefsV1Beta1OrV1 ::
  "('b, 'ref, 'key, 'od, 'ms) wsEnv \<Rightarrow> 'b \<Rightarrow> string \<Rightarrow> 'ref bufYAMLFile option \<Rightarrow>
   error + (moduleConfig \<times> 'ref list)" where
  "getModuleConfigAndConfiguredDepModuleRefsV1Beta1OrV1 env bucket moduleDirPath override =
     (case override of
        Some y \<Rightarrow> v1ConfigOfBufYAMLFile moduleDirPath y
      | None \<Rightarrow>
          (case GetBufYAMLFileForPrefix env bucket moduleDirPath of
             Inl err \<Rightarrow>
               if errorsIsNotExist err then Inr (DefaultModuleConfig env, []) else Inl err
           | Inr y \<Rightarrow> v1ConfigOfBufYAMLFile moduleDirPath y))"

text \<open>The loop of \<^verbatim>\<open>getWorkspaceForBucketModuleSet\<close> over the modules of the set.\<close>

definition moduleSetStep ::
  "('b, 'ref, 'key, 'od, 'ms) wsEnv \<Rightarrow> (string \<rightharpoonup> moduleConfig) \<Rightarrow> moduleSetModule \<Rightarrow>
   (string \<rightharpoonup> LintConfig) \<times> (string \<rightharpoonup> BreakingConfig) \<Rightarrow>
   error + ((string \<rightharpoonup> LintConfig) \<times> (string \<rightharpoonup> BreakingConfig))" where
  "moduleSetStep env bucketIDToModuleConfig m st =
     (if BucketID m \<noteq> [] then
        (case bucketIDToModuleConfig (BucketID m) of
           None \<Rightarrow> Inl (SysNoModuleConfigForBucketID (BucketID m))
         | Some mc \<Rightarrow>
             Inr ((fst st)(OpaqueID m \<mapsto> mcLintConfig mc),
                  (snd st)(OpaqueID m \<mapsto> mcBreakingConfig mc)))
      else
        Inr ((fst st)(OpaqueID m \<mapsto> DefaultLintConfig env),
             (snd st)(OpaqueID m \<mapsto> DefaultBreakingConfig env)))"

definition getWorkspaceForBucketModuleSet ::
  "('b, 'ref, 'key, 'od, 'ms) wsEnv \<Rightarrow> 'ms \<Rightarrow> (string \<rightharpoonup> moduleConfig) \<Rightarrow> 'ref list \<Rightarrow>
   bool \<Rightarrow> error + ('ms, 'ref) workspace" where
  "getWorkspaceForBucketModuleSet env moduleSet bucketIDToModuleConfig refs isV2 =
     (case forEachE (moduleSetStep env bucketIDToModuleConfig) (Modules env moduleSet)
             (Map.empty, Map.empty) of
        Inl e \<Rightarrow> Inl e
      | Inr (lint, breaking) \<Rightarrow>
          Inr \<lparr> wsModuleSet = moduleSet, opaqueIDToLintConfig = lint,
                opaqueIDToBreakingConfig = breaking, wsConfiguredDepModuleRefs = refs,
                wsIsV2 = isV2 \<rparr>)"

subsection \<open>getWorkspaceForBucketAndModuleDirPathsV1Beta1OrV1\<close>

text \<open>The variables the loop over \<open>moduleDirPaths\<close> updates: the builder's calls, the
  three maps and lists, and the two flags.\<close>

record ('b, 'ref, 'key, 'od) loopState =
  builder :: "('b, 'key, 'od) builderCall list"
  bucketIDToModuleConfig :: "string \<rightharpoonup> moduleConfig"
  moduleFullNameStringToConfiguredDepModuleRefString :: "string \<rightharpoonup> string"
  allConfiguredDepModuleRefs :: "'ref list"
  hadIsTentativelyTargetModule :: bool
  hadIsTargetModule :: bool

definition initLoopState :: "('b, 'ref, 'key, 'od) loopState" where
  "initLoopState =
     \<lparr> builder = [], bucketIDToModuleConfig = Map.empty,
       moduleFullNameStringToConfiguredDepModuleRefString = Map.empty,
       allConfiguredDepModuleRefs = [],
       hadIsTentativelyTargetModule = False, hadIsTargetModule = False \<rparr>"

text \<open>The body of the inner loop over \<open>configuredDepModuleRefs\<close>.\<close>

definition configuredDepModuleRefStep ::
  "('b, 'ref, 'key, 'od, 'ms) wsEnv \<Rightarrow> 'ref \<Rightarrow> ('b, 'ref, 'key, 'od) loopState \<Rightarrow>
   error + ('b, 'ref, 'key, 'od) loopState" where
  "configuredDepModuleRefStep env configuredDepModuleRef st =
     (let moduleFullNameString = refModuleFullNameString env configuredDepModuleRef;
          configuredDepModuleRefString = refString env configuredDepModuleRef
      in case moduleFullNameStringToConfiguredDepModuleRefString st moduleFullNameString of
           None \<Rightarrow>
             Inr (st\<lparr> allConfiguredDepModuleRefs :=
                          allConfiguredDepModuleRefs st @ [configuredDepModuleRef],
                      moduleFullNameStringToConfiguredDepModuleRefString :=
                          (moduleFullNameStringToConfiguredDepModuleRefString st)
                            (moduleFullNameString \<mapsto> configuredDepModuleRefString) \<rparr>)
         | Some existingConfiguredDepModuleRefString \<Rightarrow>
             if configuredDepModuleRefString \<noteq> existingConfiguredDepModuleRefString then
               Inl (DifferentRefs configuredDepModuleRefString
                      existingConfiguredDepModuleRefString)
             else Inr st)"

text \<open>The switch on the buf.lock file's version in the v1 path. The FileVersionV2 case
  returns nothing: its \<^verbatim>\<open>return nil, errors.New("got a v2 buf.lock file for a v1 buf.yaml")\<close>
  is commented out in the source.\<close>

definition v1BufLockFileVersionSwitch :: "FileVersion \<Rightarrow> error option" where
  "v1BufLockFileVersionSwitch fileVersion =
     (case fileVersion of
        FileVersionV1Beta1 \<Rightarrow> None
      | FileVersionV1 \<Rightarrow> None
      | FileVersionV2 \<Rightarrow> None
      | FileVersionOther n \<Rightarrow> Some (SysUnknownFileVersion fileVersion))"

definition isTargetFunc ::
  "('b, 'ref, 'key, 'od, 'ms) wsEnv \<Rightarrow> workspaceBucketConfig \<Rightarrow> string \<Rightarrow> bool" where
  "isTargetFunc env config moduleDirPath =
     EqualsOrContainsPath env (targetSubDirPath config) moduleDirPath"

text \<open>Reading the module's buf.lock in the v1 path: a missing file is skipped, any other
  read error is returned, and the dependency keys of a lock file that passes the version
  switch are added to the builder as remote, non-target modules.\<close>

definition v1ReadBufLockFile ::
  "('b, 'ref, 'key, 'od, 'ms) wsEnv \<Rightarrow> 'b \<Rightarrow> string \<Rightarrow> ('b, 'ref, 'key, 'od) loopState \<Rightarrow>
   error + ('b, 'ref, 'key, 'od) loopState" where
  "v1ReadBufLockFile env bucket moduleDirPath st =
     (case GetBufLockFileForPrefix env bucket moduleDirPath of
        Inl err \<Rightarrow> if \<not> errorsIsNotExist err then Inl err else Inr st
      | Inr bufLockFile \<Rightarrow>
          (case v1BufLockFileVersionSwitch (blFileVersion bufLockFile) of
             Some e \<Rightarrow> Inl e
           | None \<Rightarrow>
               Inr (st\<lparr> builder := builder st @
                      map (\<lambda>depModuleKey. AddRemoteModule depModuleKey False)
                        (blDepModuleKeys bufLockFile) \<rparr>)))"

text \<open>The body of the loop over \<open>moduleDirPaths\<close>.\<close>

definition v1ModuleDirStep ::
  "('b, 'ref, 'key, 'od, 'ms) wsEnv \<Rightarrow> 'b \<Rightarrow> workspaceBucketConfig \<Rightarrow> 'ref bufYAMLFile option \<Rightarrow>
   string \<Rightarrow> ('b, 'ref, 'key, 'od) loopState \<Rightarrow> error + ('b, 'ref, 'key, 'od) loopState" where
  "v1ModuleDirStep env bucket config overrideBufYAMLFile moduleDirPath st =
     (case getModuleConfigAndConfiguredDepModuleRefsV1Beta1OrV1 env bucket moduleDirPath
             overrideBufYAMLFile of
        Inl e \<Rightarrow> Inl e
      | Inr (mc, configuredDepModuleRefs) \<Rightarrow>
      case forEachE (configuredDepModuleRefStep env) configuredDepModuleRefs st of
        Inl e \<Rightarrow> Inl e
      | Inr st1 \<Rightarrow>
      let st2 = st1\<lparr> bucketIDToModuleConfig := (bucketIDToModuleConfig st1)(moduleDirPath \<mapsto> mc) \<rparr>
      in
      case v1ReadBufLockFile env bucket moduleDirPath st2 of
        Inl e \<Rightarrow> Inl e
      | Inr st3 \<Rightarrow>
      let isTentativelyTargetModule = isTargetFunc env config moduleDirPath;
          st4 = (if isTentativelyTargetModule
                 then st3\<lparr> hadIsTentativelyTargetModule := True \<rparr> else st3)
      in
      case getMappedModuleBucketAndModuleTargeting env bucket config moduleDirPath mc
             isTentativelyTargetModule of
        Inl e \<Rightarrow> Inl e
      | Inr (mappedModuleBucket, mt) \<Rightarrow>
      let st5 = (if isTargetModule mt then st4\<lparr> hadIsTargetModule := True \<rparr> else st4)
      in
      case GetBufYAMLV1Beta1OrV1ObjectDataForPrefix env bucket moduleDirPath of
        Inl e \<Rightarrow> Inl e
      | Inr v1BufYAMLObjectData \<Rightarrow>
      case GetBufLockV1Beta1OrV1ObjectDataForPrefix env bucket moduleDirPath of
        Inl e \<Rightarrow> Inl e
      | Inr v1BufLockObjectData \<Rightarrow>
        Inr (st5\<lparr> builder := builder st5 @
               [AddLocalModule mappedModuleBucket moduleDirPath (isTargetModule mt)
                  (mcModuleFullName mc) (moduleTargetPaths mt) (moduleTargetExcludePaths mt)
                  (moduleProtoFileTargetPath mt) (mtIncludePackageFiles mt)
                  (Some v1BufYAMLObjectData) (Some v1BufLockObjectData)] \<rparr>))"

text \<open>After the loop: the two no-target checks, Build, and the workspace.\<close>

definition finishWorkspace ::
  "('b, 'ref, 'key, 'od, 'ms) wsEnv \<Rightarrow> workspaceBucketConfig \<Rightarrow> string list \<Rightarrow> 'ref list \<Rightarrow>
   bool \<Rightarrow> ('b, 'ref, 'key, 'od) loopState \<Rightarrow> error + ('ms, 'ref) workspace" where
  "finishWorkspace env config moduleDirPaths refs isV2 st =
     (if \<not> hadIsTentativelyTargetModule st then
        Inl (SysNoTargetModules (targetSubDirPath config) moduleDirPaths)
      else if \<not> hadIsTargetModule st then Inl ErrNoTargetProtoFiles
      else
        case Build env (builder st) of
          Inl e \<Rightarrow> Inl e
        | Inr moduleSet \<Rightarrow>
            getWorkspaceForBucketModuleSet env moduleSet (bucketIDToModuleConfig st) refs isV2)"

definition getWorkspaceForBucketAndModuleDirPathsV1Beta1OrV1 ::
  "('b, 'ref, 'key, 'od, 'ms) wsEnv \<Rightarrow> 'b \<Rightarrow> workspaceBucketConfig \<Rightarrow> string list \<Rightarrow>
   'ref bufYAMLFile option \<Rightarrow> error + ('ms, 'ref) workspace" where
  "getWorkspaceForBucketAndModuleDirPathsV1Beta1OrV1 env bucket config moduleDirPaths
     overrideBufYAMLFile =
     (case forEachE (v1ModuleDirStep env bucket config overrideBufYAMLFile) moduleDirPaths
             initLoopState of
        Inl e \<Rightarrow> Inl e
      | Inr st \<Rightarrow>
          finishWorkspace env config moduleDirPaths (allConfiguredDepModuleRefs st) False st)"

subsection \<open>getWorkspaceForBucketBufYAMLV2\<close>

definition v2BufLockFileVersionSwitch :: "FileVersion \<Rightarrow> error option" where
  "v2BufLockFileVersionSwitch fileVersion =
     (case fileVersion of
        FileVersionV1Beta1 \<Rightarrow> Some (LockFileVersionMismatch fileVersion)
      | FileVersionV1 \<Rightarrow> Some (LockFileVersionMismatch fileVersion)
      | FileVersionV2 \<Rightarrow> None
      | FileVersionOther n \<Rightarrow> Some (SysUnknownFileVersion fileVersion))"

text \<open>The body of the loop over \<open>bufYAMLFile.ModuleConfigs()\<close>; the list
  \<open>moduleDirPaths\<close> it appends to is \<open>map mcDirPath\<close> of the configs visited.\<close>

definition v2ModuleConfigStep ::
  "('b, 'ref, 'key, 'od, 'ms) wsEnv \<Rightarrow> 'b \<Rightarrow> workspaceBucketConfig \<Rightarrow> moduleConfig \<Rightarrow>
   ('b, 'ref, 'key, 'od) loopState \<Rightarrow> error + ('b, 'ref, 'key, 'od) loopState" where
  "v2ModuleConfigStep env bucket config mc st =
     (let moduleDirPath = mcDirPath mc;
          st1 = st\<lparr> bucketIDToModuleConfig := (bucketIDToModuleConfig st)(moduleDirPath \<mapsto> mc) \<rparr>;
          isTentativelyTargetModule = isTargetFunc env config moduleDirPath;
          st2 = (if isTentativelyTargetModule
                 then st1\<lparr> hadIsTentativelyTargetModule := True \<rparr> else st1)
      in
      case getMappedModuleBucketAndModuleTargeting env bucket config moduleDirPath mc
             isTentativelyTargetModule of
        Inl e \<Rightarrow> Inl e
      | Inr (mappedModuleBucket, mt) \<Rightarrow>
          Inr ((if isTargetModule mt then st2\<lparr> hadIsTargetModule := True \<rparr> else st2)
                 \<lparr> builder := builder st2 @
                     [AddLocalModule mappedModuleBucket moduleDirPath (isTargetModule mt)
                        (mcModuleFullName mc) (moduleTargetPaths mt)
                        (moduleTargetExcludePaths mt) (moduleProtoFileTargetPath mt)
                        (mtIncludePackageFiles mt) None None] \<rparr>))"

text \<open>The buf.yaml of the v2 path: the override, or the file at the root, which must be
  of version v2.\<close>

definition v2BufYAMLFile ::
  "('b, 'ref, 'key, 'od, 'ms) wsEnv \<Rightarrow> 'b \<Rightarrow> 'ref bufYAMLFile option \<Rightarrow> error + 'ref bufYAMLFile" where
  "v2BufYAMLFile env bucket overrideBufYAMLFile =
     (case overrideBufYAMLFile of
        Some y \<Rightarrow> Inr y
      | None \<Rightarrow>
          (case GetBufYAMLFileForPrefix env bucket ''.'' of
             Inl err \<Rightarrow> Inl (SysErrorGettingV2BufYAML err)
           | Inr y \<Rightarrow>
               if byFileVersion y \<noteq> FileVersionV2
               then Inl (SysExpectedV2BufYAML (byFileVersion y)) else Inr y))"

text \<open>Reading the workspace's buf.lock in the v2 path, before the loop.\<close>

definition v2ReadBufLockFile ::
  "('b, 'ref, 'key, 'od, 'ms) wsEnv \<Rightarrow> 'b \<Rightarrow> error + ('b, 'ref, 'key, 'od) loopState" where
  "v2ReadBufLockFile env bucket =
     (case GetBufLockFileForPrefix env bucket ''.'' of
        Inl err \<Rightarrow> if \<not> errorsIsNotExist err then Inl err else Inr initLoopState
      | Inr bufLockFile \<Rightarrow>
          (case v2BufLockFileVersionSwitch (blFileVersion bufLockFile) of
             Some e \<Rightarrow> Inl e
           | None \<Rightarrow>
               Inr (initLoopState\<lparr> builder :=
                      map (\<lambda>depModuleKey. AddRemoteModule depModuleKey False)
                        (blDepModuleKeys bufLockFile) \<rparr>)))"

definition getWorkspaceForBucketBufYAMLV2 ::
  "('b, 'ref, 'key, 'od, 'ms) wsEnv \<Rightarrow> 'b \<Rightarrow> workspaceBucketConfig \<Rightarrow> string \<Rightarrow>
   'ref bufYAMLFile option \<Rightarrow> error + ('ms, 'ref) workspace" where
  "getWorkspaceForBucketBufYAMLV2 env bucket0 config dirPath overrideBufYAMLFile =
     (let bucket = MapOnPrefix env bucket0 dirPath in
      case v2BufYAMLFile env bucket overrideBufYAMLFile of
        Inl e \<Rightarrow> Inl e
      | Inr bufYAMLFile \<Rightarrow>
      case v2ReadBufLockFile env bucket of
        Inl e \<Rightarrow> Inl e
      | Inr st0 \<Rightarrow>
      case forEachE (v2ModuleConfigStep env bucket config) (byModuleConfigs bufYAMLFile) st0 of
        Inl e \<Rightarrow> Inl e
      | Inr st \<Rightarrow>
          finishWorkspace env config (map mcDirPath (byModuleConfigs bufYAMLFile))
            (byConfiguredDepModuleRefs bufYAMLFile) True st)"

subsection \<open>Derived notions used to state the properties\<close>



text \<open>The configured dependency refs read for a module directory of the v1 path (none
  when reading the config fails), and over all directories in order.\<close>

definition v1ConfiguredDepModuleRefs ::
  "('b, 'ref, 'key, 'od, 'ms) wsEnv \<Rightarrow> 'b \<Rightarrow> 'ref bufYAMLFile option \<Rightarrow> string \<Rightarrow> 'ref list" where
  "v1ConfiguredDepModuleRefs env bucket overrideBufYAMLFile moduleDirPath =
     (case getModuleConfigAndConfiguredDepModuleRefsV1Beta1OrV1 env bucket moduleDirPath
             overrideBufYAMLFile of
        Inl e \<Rightarrow> []
      | Inr (mc, refs) \<Rightarrow> refs)"

text \<open>Two refs conflict when they name the same module with different ref strings.\<close>

definition refsConflict :: "('b, 'ref, 'key, 'od, 'ms) wsEnv \<Rightarrow> 'ref \<Rightarrow> 'ref \<Rightarrow> bool" where
  "refsConflict env r1 r2 =
     (refModuleFullNameString env r1 = refModuleFullNameString env r2 \<and>
      refString env r1 \<noteq> refString env r2)"

text \<open>The invariant of the dedup loop: the refs kept so far have pairwise different
  module names, and the map from module name to ref string records exactly them.\<close>

definition refsInv ::
  "('b, 'ref, 'key, 'od, 'ms) wsEnv \<Rightarrow> ('b, 'ref, 'key, 'od) loopState \<Rightarrow> bool" where
  "refsInv env st =
     (distinct (map (refModuleFullNameString env) (allConfiguredDepModuleRefs st)) \<and>
      (\<forall>n s. moduleFullNameStringToConfiguredDepModuleRefString st n = Some s \<longleftrightarrow>
         (\<exists>a\<in>set (allConfiguredDepModuleRefs st).
            refModuleFullNameString env a = n \<and> refString env a = s)))"

subsection \<open>A concrete workspace environment\<close>

text \<open>An environment used to evaluate the definitions: buckets, keys and object data are
  strings, a ModuleRef is a pair of module name and ref, the buf.yaml and buf.lock reads
  are given per directory, \<open>Rel\<close> strips the directory prefix, and Build returns one
  module per builder call.\<close>

definition exContainsPath :: "string \<Rightarrow> string \<Rightarrow> bool" where
  "exContainsPath d p = (d \<noteq> p \<and> exEqualsOrContainsPath d p)"

definition exRel :: "string \<Rightarrow> string \<Rightarrow> error + string" where
  "exRel d p = Inr (if d = ''.'' then p else drop (length d + 1) p)"

definition exBuild :: "(string, string, string) builderCall list \<Rightarrow> error + moduleSetModule list" where
  "exBuild calls =
     Inr (map (\<lambda>c. case c of
                      AddRemoteModule k t \<Rightarrow> \<lparr> BucketID = [], OpaqueID = k \<rparr>
                    | AddLocalModule b d t n tp te pf ip y l \<Rightarrow> \<lparr> BucketID = d, OpaqueID = d \<rparr>)
            calls)"

definition exModuleConfig :: "string \<Rightarrow> moduleConfig" where
  "exModuleConfig d =
     \<lparr> mcDirPath = d, mcModuleFullName = None, mcRootToExcludes = [(''.'', [])],
       mcLintConfig = ''lint'', mcBreakingConfig = ''breaking'' \<rparr>"

definition exWsEnv ::
  "(string \<Rightarrow> error + (string \<times> string) bufYAMLFile) \<Rightarrow> (string \<Rightarrow> error + string bufLockFile) \<Rightarrow>
   (string, string \<times> string, string, string, moduleSetModule list) wsEnv" where
  "exWsEnv yamls locks =
     \<lparr> GetBufYAMLFileForPrefix = (\<lambda>b d. yamls d),
       GetBufLockFileForPrefix = (\<lambda>b d. locks d),
       GetBufYAMLV1Beta1OrV1ObjectDataForPrefix = (\<lambda>b d. Inr ''buf.yaml''),
       GetBufLockV1Beta1OrV1ObjectDataForPrefix = (\<lambda>b d. Inr ''buf.lock''),
       MapOnPrefix = (\<lambda>b d. b),
       MultiRootBucket = (\<lambda>b r. b),
       EqualsOrContainsPath = exEqualsOrContainsPath,
       ContainsPath = exContainsPath,
       Rel = exRel,
       applyRootsToTargetPath = (\<lambda>roots p. Inr p),
       Build = exBuild,
       Modules = (\<lambda>ms. ms),
       refModuleFullNameString = fst,
       refString = (\<lambda>r. fst r @ '':'' @ snd r),
       DefaultModuleConfig = exModuleConfig ''.'',
       DefaultLintConfig = ''default-lint'',
       DefaultBreakingConfig = ''default-breaking'' \<rparr>"

definition exConfig :: "string \<Rightarrow> string list \<Rightarrow> workspaceBucketConfig" where
  "exConfig sub tps =
     \<lparr> targetSubDirPath = sub, targetPaths = tps, targetExcludePaths = [],
       protoFileTargetPath = [], includePackageFiles = False \<rparr>"

definition exBufYAMLFile ::
  "FileVersion \<Rightarrow> string list \<Rightarrow> (string \<times> string) list \<Rightarrow> (string \<times> string) bufYAMLFile" where
  "exBufYAMLFile v dirs refs =
     \<lparr> byFileVersion = v, byModuleConfigs = map exModuleConfig dirs,
       byConfiguredDepModuleRefs = refs \<rparr>"

definition exBufLockFile :: "FileVersion \<Rightarrow> string list \<Rightarrow> string bufLockFile" where
  "exBufLockFile v keys = \<lparr> blFileVersion = v, blDepModuleKeys = keys \<rparr>"

text \<open>Two module directories \<open>a\<close> and \<open>b\<close>, each with a v1 buf.yaml that declares one
  dependency on \<open>buf.build/acme/dep\<close>, at the refs given.\<close>

definition exYamls :: "string \<Rightarrow> string \<Rightarrow> string \<Rightarrow> error + (string \<times> string) bufYAMLFile" where
  "exYamls refA refB d =
     (if d = ''a'' then Inr (exBufYAMLFile FileVersionV1 [''a''] [(''buf.build/acme/dep'', refA)])
      else if d = ''b'' then
        Inr (exBufYAMLFile FileVersionV1 [''b''] [(''buf.build/acme/dep'', refB)])
      else Inl ErrNotExist)"




section \<open>ModuleData (bufmodule/module\_data.go)\<close>

subsection \<open>Once-memoised functions\<close>

text \<open>
  Modelled from the spec: \<^verbatim>\<open>syncext.OnceValue\<close> and \<^verbatim>\<open>syncext.OnceValues\<close>
  (private/pkg/syncext is not among the sources). Sections 4.3, 5 and 9: a lazily computed,
  once-memoised getter is a cell that goes from unresolved to resolved or failed; the
  first caller performs the computation, and every later caller gets the cached result or
  error without the work being issued again. The cell lives in the state \<open>'s\<close> of its
  owner (read by \<open>getCell\<close>, written by \<open>setCell\<close>); the computation \<open>f\<close> may change
  that state.
\<close>

datatype 'a onceCell = NotRun | Done 'a

definition OnceValue ::
  "('s \<Rightarrow> 'a onceCell) \<Rightarrow> ('a onceCell \<Rightarrow> 's \<Rightarrow> 's) \<Rightarrow> ('s \<Rightarrow> 'a \<times> 's) \<Rightarrow> 's \<Rightarrow> 'a \<times> 's" where
  "OnceValue getCell setCell f s =
     (case getCell s of
        Done v \<Rightarrow> (v, s)
      | NotRun \<Rightarrow> (case f s of (v, s') \<Rightarrow> (v, setCell (Done v) s')))"

subsection \<open>moduleData\<close>

text \<open>
  What \<open>newModuleData\<close> is given. The two lazily-loaded functions \<open>getBucket\<close> and
  \<open>getDeclaredDepModuleKeys\<close> act on a world \<open>'w\<close> (a registry, a cache) and may fail.
  A bucket value \<open>'b\<close> is the content it serves. The ModuleKey contributes its string and
  its digest (resolved once and stable, so a fixed result). \<^verbatim>\<open>getB5Digest\<close>,
  \<^verbatim>\<open>DigestEqual\<close>, \<^verbatim>\<open>Digest.String\<close> and the storage matcher for module files, which
  \<^verbatim>\<open>getSyncOnceValuesGetBucketWithStorageMatcherApplied\<close> applies to the bucket, are not
  among the sources: they are parameters.
\<close>

record ('w, 'b, 'k, 'd) moduleDataArgs =
  moduleKeyString :: string
  moduleKeyDigest :: "error + 'd"
  argGetBucket :: "'w \<Rightarrow> (error + 'b) \<times> 'w"
  argGetDeclaredDepModuleKeys :: "'w \<Rightarrow> (error + 'k list) \<times> 'w"
  storageMatcher :: "'b \<Rightarrow> 'b"
  getB5Digest :: "'b \<Rightarrow> 'k list \<Rightarrow> error + 'd"
  DigestEqual :: "'d \<Rightarrow> 'd \<Rightarrow> bool"
  DigestString :: "'d \<Rightarrow> string"

text \<open>The struct: its three memoised functions are the arguments together with one cell
  each; the world is part of the state the calls run in.\<close>

record ('w, 'b, 'k, 'd) moduleData =
  mdArgs :: "('w, 'b, 'k, 'd) moduleDataArgs"
  mdWorld :: 'w
  getBucketCell :: "(error + 'b) onceCell"
  getDeclaredDepModuleKeysCell :: "(error + 'k list) onceCell"
  checkDigestCell :: "error option onceCell"

definition mdGetBucket ::
  "('w, 'b, 'k, 'd) moduleData \<Rightarrow> (error + 'b) \<times> ('w, 'b, 'k, 'd) moduleData" where
  "mdGetBucket =
     OnceValue getBucketCell (\<lambda>c m. m\<lparr> getBucketCell := c \<rparr>)
       (\<lambda>m. case argGetBucket (mdArgs m) (mdWorld m) of
               (r, w') \<Rightarrow>
                 ((case r of Inl e \<Rightarrow> Inl e | Inr b \<Rightarrow> Inr (storageMatcher (mdArgs m) b)),
                  m\<lparr> mdWorld := w' \<rparr>))"

definition mdGetDeclaredDepModuleKeys ::
  "('w, 'b, 'k, 'd) moduleData \<Rightarrow> (error + 'k list) \<times> ('w, 'b, 'k, 'd) moduleData" where
  "mdGetDeclaredDepModuleKeys =
     OnceValue getDeclaredDepModuleKeysCell (\<lambda>c m. m\<lparr> getDeclaredDepModuleKeysCell := c \<rparr>)
       (\<lambda>m. case argGetDeclaredDepModuleKeys (mdArgs m) (mdWorld m) of
               (r, w') \<Rightarrow> (r, m\<lparr> mdWorld := w' \<rparr>))"

text \<open>The function given to \<^verbatim>\<open>syncext.OnceValue\<close> for \<open>checkDigest\<close>: \<open>None\<close> is the
  nil error.\<close>

definition checkDigestBody ::
  "('w, 'b, 'k, 'd) moduleData \<Rightarrow> error option \<times> ('w, 'b, 'k, 'd) moduleData" where
  "checkDigestBody m =
     (case mdGetBucket m of
        (Inl err, m1) \<Rightarrow> (Some err, m1)
      | (Inr bucket, m1) \<Rightarrow>
     (case mdGetDeclaredDepModuleKeys m1 of
        (Inl err, m2) \<Rightarrow> (Some err, m2)
      | (Inr declaredDepModuleKeys, m2) \<Rightarrow>
     (case moduleKeyDigest (mdArgs m2) of
        Inl err \<Rightarrow> (Some err, m2)
      | Inr expectedDigest \<Rightarrow>
     (case getB5Digest (mdArgs m2) bucket declaredDepModuleKeys of
        Inl err \<Rightarrow> (Some err, m2)
      | Inr actualDigest \<Rightarrow>
          if \<not> DigestEqual (mdArgs m2) expectedDigest actualDigest then
            (Some (VerificationFailed (moduleKeyString (mdArgs m2))
                     (DigestString (mdArgs m2) expectedDigest)
                     (DigestString (mdArgs m2) actualDigest)), m2)
          else (None, m2)))))"

definition checkDigest ::
  "('w, 'b, 'k, 'd) moduleData \<Rightarrow> error option \<times> ('w, 'b, 'k, 'd) moduleData" where
  "checkDigest = OnceValue checkDigestCell (\<lambda>c m. m\<lparr> checkDigestCell := c \<rparr>) checkDigestBody"

definition newModuleData ::
  "('w, 'b, 'k, 'd) moduleDataArgs \<Rightarrow> 'w \<Rightarrow> ('w, 'b, 'k, 'd) moduleData" where
  "newModuleData args w =
     \<lparr> mdArgs = args, mdWorld = w, getBucketCell = NotRun,
       getDeclaredDepModuleKeysCell = NotRun, checkDigestCell = NotRun \<rparr>"

definition Bucket ::
  "('w, 'b, 'k, 'd) moduleData \<Rightarrow> (error + 'b) \<times> ('w, 'b, 'k, 'd) moduleData" where
  "Bucket m =
     (case checkDigest m of
        (Some err, m1) \<Rightarrow> (Inl err, m1)
      | (None, m1) \<Rightarrow> mdGetBucket m1)"

definition DeclaredDepModuleKeys ::
  "('w, 'b, 'k, 'd) moduleData \<Rightarrow> (error + 'k list) \<times> ('w, 'b, 'k, 'd) moduleData" where
  "DeclaredDepModuleKeys m =
     (case checkDigest m of
        (Some err, m1) \<Rightarrow> (Inl err, m1)
      | (None, m1) \<Rightarrow> mdGetDeclaredDepModuleKeys m1)"

subsection \<open>Histories of accessor calls\<close>

datatype accessor = CallBucket | CallDeclaredDepModuleKeys

datatype ('b, 'k) accessorResult =
    BucketResult "error + 'b"
  | DeclaredDepModuleKeysResult "error + 'k list"

fun callAccessor ::
  "accessor \<Rightarrow> ('w, 'b, 'k, 'd) moduleData \<Rightarrow>
   ('b, 'k) accessorResult \<times> ('w, 'b, 'k, 'd) moduleData" where
  "callAccessor CallBucket m = (case Bucket m of (r, m') \<Rightarrow> (BucketResult r, m'))"
| "callAccessor CallDeclaredDepModuleKeys m =
     (case DeclaredDepModuleKeys m of (r, m') \<Rightarrow> (DeclaredDepModuleKeysResult r, m'))"

fun callAccessors ::
  "accessor list \<Rightarrow> ('w, 'b, 'k, 'd) moduleData \<Rightarrow>
   ('b, 'k) accessorResult list \<times> ('w, 'b, 'k, 'd) moduleData" where
  "callAccessors [] m = ([], m)"
| "callAccessors (c # cs) m =
     (case callAccessor c m of
        (r, m1) \<Rightarrow> (case callAccessors cs m1 of (rs, m2) \<Rightarrow> (r # rs, m2)))"

fun accessorError :: "('b, 'k) accessorResult \<Rightarrow> error option" where
  "accessorError (BucketResult (Inl e)) = Some e"
| "accessorError (BucketResult (Inr b)) = None"
| "accessorError (DeclaredDepModuleKeysResult (Inl e)) = Some e"
| "accessorError (DeclaredDepModuleKeysResult (Inr ks)) = None"

fun accessorFailure :: "error \<Rightarrow> accessor \<Rightarrow> ('b, 'k) accessorResult" where
  "accessorFailure e CallBucket = BucketResult (Inl e)"
| "accessorFailure e CallDeclaredDepModuleKeys = DeclaredDepModuleKeysResult (Inl e)"

text \<open>The cached bucket and declared dependency keys have passed the tamper check: the
  digest recomputed over them equals the ModuleKey's digest.\<close>

definition digestChecked :: "('w, 'b, 'k, 'd) moduleData \<Rightarrow> 'b \<Rightarrow> 'k list \<Rightarrow> bool" where
  "digestChecked m b ks =
     (getBucketCell m = Done (Inr b) \<and> getDeclaredDepModuleKeysCell m = Done (Inr ks) \<and>
      (case (moduleKeyDigest (mdArgs m), getB5Digest (mdArgs m) b ks) of
         (Inr expectedDigest, Inr actualDigest) \<Rightarrow>
           DigestEqual (mdArgs m) expectedDigest actualDigest
       | other \<Rightarrow> False))"

subsection \<open>A concrete ModuleData\<close>

text \<open>The world counts the fetches made; a digest is the content itself; the registry
  serves the bucket \<open>served\<close> for a key whose digest is \<open>''files''\<close>.\<close>

definition exModuleDataArgs :: "string \<Rightarrow> (nat, string, string, string) moduleDataArgs" where
  "exModuleDataArgs served =
     \<lparr> moduleKeyString = ''buf.build/acme/dep:c1'',
       moduleKeyDigest = Inr ''files'',
       argGetBucket = (\<lambda>w. (Inr served, Suc w)),
       argGetDeclaredDepModuleKeys = (\<lambda>w. (Inr [], Suc w)),
       storageMatcher = (\<lambda>b. b),
       getB5Digest = (\<lambda>b ks. Inr (b @ concat ks)),
       DigestEqual = (\<lambda>a b. a = b),
       DigestString = (\<lambda>d. d) \<rparr>"

section \<open>Upload (bufmoduleapi/upload.go)\<close>

subsection \<open>Data\<close>

text \<open>A dependency of a module (a ModuleDep): what Upload reads of it. A nil commit ID
  is \<open>None\<close>.\<close>

record moduleDep =
  depIsLocal :: bool
  depModuleFullName :: "ModuleFullName option"
  depOpaqueID :: string
  depCommitID :: "string option"

text \<open>A module to upload: what Upload reads of it. The fallible methods
  (\<^verbatim>\<open>ModuleDeps\<close>, the two object data getters) and \<^verbatim>\<open>bucketToProtoFiles\<close> on the
  module's bucket are given by their results.\<close>

record ('f, 'od) uploadModule =
  umIsLocal :: bool
  umModuleFullName :: "ModuleFullName option"
  umOpaqueID :: string
  umModuleDeps :: "error + moduleDep list"
  umProtoFiles :: "error + 'f"
  umV1BufYAMLObjectData :: "error + 'od"
  umV1BufLockObjectData :: "error + 'od"

record protoModuleRef =
  pmOwner :: string
  pmModule :: string

record protoDepRef =
  drModuleRef :: protoModuleRef
  drCommitId :: string

record ('f, 'od) uploadRequestContent =
  rcModuleRef :: protoModuleRef
  rcFiles :: 'f
  rcDepRefs :: "protoDepRef list"
  rcScopedLabelRefs :: "string list"
  rcV1BufYamlFile :: 'od
  rcV1BufLockFile :: 'od

record 'pd protoCommit =
  pcId :: string
  pcDigest :: 'pd
  pcCreateTime :: nat

record 'pd commit =
  cmModuleFullName :: "ModuleFullName option"
  cmCommitID :: string
  cmDigest :: 'pd
  cmCreateTime :: nat

text \<open>
  What Upload calls outside its file: the upload service of a registry (the only network
  call), \<^verbatim>\<open>uuid.FromString\<close> and the validation of \<^verbatim>\<open>bufmodule.NewModuleKey\<close>. The
  result of Upload is paired with the list of network calls made, each the registry and
  the request contents.
\<close>

record ('f, 'od, 'pd) uploadEnv =
  UploadServiceClientUpload ::
    "string \<Rightarrow> ('f, 'od) uploadRequestContent list \<Rightarrow> error + 'pd protoCommit list"
  uuidFromString :: "string \<Rightarrow> error + string"
  NewModuleKeyError :: "ModuleFullName option \<Rightarrow> string \<Rightarrow> error option"

subsection \<open>getProtoUploadRequestContent\<close>

definition newRequireModuleFullNameOnUploadError :: "string \<Rightarrow> error" where
  "newRequireModuleFullNameOnUploadError opaqueID = RequireModuleFullNameOnUpload opaqueID"

definition getProtoModuleRef :: "ModuleFullName option \<Rightarrow> string \<Rightarrow> error + protoModuleRef" where
  "getProtoModuleRef moduleFullName opaqueID =
     (case moduleFullName of
        None \<Rightarrow> Inl (SysModuleNoFullName opaqueID)
      | Some n \<Rightarrow> Inr \<lparr> pmOwner = Owner n, pmModule = Name n \<rparr>)"

text \<open>The body of the loop over \<open>moduleDeps\<close>; its variable is \<open>protoDepRefs\<close>.\<close>

definition depRefStep :: "string set \<Rightarrow> moduleDep \<Rightarrow> protoDepRef list \<Rightarrow> error + protoDepRef list" where
  "depRefStep uploadedModuleOpaqueIDs moduleDep protoDepRefs =
     (if depModuleFullName moduleDep = None then
        Inl (newRequireModuleFullNameOnUploadError (depOpaqueID moduleDep))
      else
        case getProtoModuleRef (depModuleFullName moduleDep) (depOpaqueID moduleDep) of
          Inl e \<Rightarrow> Inl e
        | Inr depProtoModuleRef \<Rightarrow>
            if depIsLocal moduleDep then
              (if depOpaqueID moduleDep \<notin> uploadedModuleOpaqueIDs then
                 Inl (SysLocalDepNotScheduled (depOpaqueID moduleDep))
               else
                 Inr (protoDepRefs @ [\<lparr> drModuleRef = depProtoModuleRef, drCommitId = [] \<rparr>]))
            else
              (case depCommitID moduleDep of
                 None \<Rightarrow> Inl (SysNoCommitIDForRemoteDep (depOpaqueID moduleDep))
               | Some commitID \<Rightarrow>
                   Inr (protoDepRefs @
                        [\<lparr> drModuleRef = depProtoModuleRef, drCommitId = commitID \<rparr>])))"

definition getProtoUploadRequestContent ::
  "string list \<Rightarrow> string set \<Rightarrow> ('f, 'od) uploadModule \<Rightarrow> error + ('f, 'od) uploadRequestContent" where
  "getProtoUploadRequestContent protoScopedLabelRefs uploadedModuleOpaqueIDs m =
     (if \<not> umIsLocal m then Inl SysExpectedLocalModule
      else if umModuleFullName m = None then
        Inl (SysWrap (newRequireModuleFullNameOnUploadError (umOpaqueID m)))
      else
        case getProtoModuleRef (umModuleFullName m) (umOpaqueID m) of
          Inl e \<Rightarrow> Inl e
        | Inr protoModuleRef \<Rightarrow>
        case umModuleDeps m of
          Inl e \<Rightarrow> Inl e
        | Inr moduleDeps \<Rightarrow>
        case forEachE (depRefStep uploadedModuleOpaqueIDs) moduleDeps [] of
          Inl e \<Rightarrow> Inl e
        | Inr protoDepRefs \<Rightarrow>
        case umProtoFiles m of
          Inl e \<Rightarrow> Inl e
        | Inr protoFiles \<Rightarrow>
        case umV1BufYAMLObjectData m of
          Inl e \<Rightarrow> Inl e
        | Inr v1BufYAMLObjectData \<Rightarrow>
        case umV1BufLockObjectData m of
          Inl e \<Rightarrow> Inl e
        | Inr v1BufLockObjectData \<Rightarrow>
            Inr \<lparr> rcModuleRef = protoModuleRef, rcFiles = protoFiles,
                  rcDepRefs = protoDepRefs, rcScopedLabelRefs = protoScopedLabelRefs,
                  rcV1BufYamlFile = v1BufYAMLObjectData,
                  rcV1BufLockFile = v1BufLockObjectData \<rparr>)"

subsection \<open>Upload\<close>

text \<open>The first loop: every module must be local and named; the loop's variable is the
  set of registries (\<open>registryMap\<close>).\<close>

definition registryStep :: "('f, 'od) uploadModule \<Rightarrow> string set \<Rightarrow> error + string set" where
  "registryStep m registryMap =
     (if \<not> umIsLocal m then Inl (SysNonLocalModule (umOpaqueID m))
      else
        case umModuleFullName m of
          None \<Rightarrow> Inl (newRequireModuleFullNameOnUploadError (umOpaqueID m))
        | Some moduleFullName \<Rightarrow> Inr (insert (Registry moduleFullName) registryMap))"

text \<open>
  Modelled from the spec: \<^verbatim>\<open>slicesext.MapKeysToSortedSlice\<close> and
  \<^verbatim>\<open>slicesext.ToUniqueSorted\<close> (private/pkg/slicesext is not among the sources), by
  their names: the keys of the map, and the unique values of the slice, in sorted
  order.
\<close>

definition MapKeysToSortedSlice :: "string set \<Rightarrow> string list" where
  "MapKeysToSortedSlice m = sorted_list_of_set m"

definition ToUniqueSorted :: "string list \<Rightarrow> string list" where
  "ToUniqueSorted xs = sort (remdups xs)"

text \<open>The loop over the returned commits: the i-th commit is paired with the i-th
  module's name.\<close>

definition commitStep ::
  "('f, 'od, 'pd) uploadEnv \<Rightarrow> ('f, 'od) uploadModule \<times> 'pd protoCommit \<Rightarrow> error + 'pd commit" where
  "commitStep env mp =
     (case uuidFromString env (pcId (snd mp)) of
        Inl e \<Rightarrow> Inl e
      | Inr commitID \<Rightarrow>
          (case NewModuleKeyError env (umModuleFullName (fst mp)) commitID of
             Some e \<Rightarrow> Inl e
           | None \<Rightarrow>
               Inr \<lparr> cmModuleFullName = umModuleFullName (fst mp), cmCommitID = commitID,
                     cmDigest = pcDigest (snd mp), cmCreateTime = pcCreateTime (snd mp) \<rparr>))"

definition Upload ::
  "('f, 'od, 'pd) uploadEnv \<Rightarrow> string list \<Rightarrow> ('f, 'od) uploadModule list \<Rightarrow>
   (error + 'pd commit list) \<times> (string \<times> ('f, 'od) uploadRequestContent list) list" where
  "Upload env labels targetLocalModulesAndTransitiveLocalDeps =
     (case forEachE registryStep targetLocalModulesAndTransitiveLocalDeps {} of
        Inl e \<Rightarrow> (Inl e, [])
      | Inr registryMap \<Rightarrow>
      let registries = MapKeysToSortedSlice registryMap in
      if length registries > 1 then (Inl (MultipleRegistries registries), [])
      else
        case registries of
          [] \<Rightarrow> (Inl (Panic ''index out of range [0] with length 0''), [])
        | registry # rest \<Rightarrow>
        let protoScopedLabelRefs = ToUniqueSorted labels;
            uploadedModuleOpaqueIDs = set (map umOpaqueID targetLocalModulesAndTransitiveLocalDeps)
        in
        case MapError (getProtoUploadRequestContent protoScopedLabelRefs uploadedModuleOpaqueIDs)
               targetLocalModulesAndTransitiveLocalDeps of
          Inl e \<Rightarrow> (Inl e, [])
        | Inr protoUploadRequestContents \<Rightarrow>
        case UploadServiceClientUpload env registry protoUploadRequestContents of
          Inl e \<Rightarrow> (Inl e, [(registry, protoUploadRequestContents)])
        | Inr responseCommits \<Rightarrow>
        if length responseCommits \<noteq> length protoUploadRequestContents then
          (Inl (ExpectedCommits (length protoUploadRequestContents) (length responseCommits)),
           [(registry, protoUploadRequestContents)])
        else
          (MapError (commitStep env)
             (zip targetLocalModulesAndTransitiveLocalDeps responseCommits),
           [(registry, protoUploadRequestContents)]))"

text \<open>The registries the named modules of the list belong to.\<close>

definition moduleRegistries :: "('f, 'od) uploadModule list \<Rightarrow> string set" where
  "moduleRegistries ms = set (map Registry (List.map_filter umModuleFullName ms))"

subsection \<open>Concrete modules to upload\<close>

definition exName :: "string \<Rightarrow> string \<Rightarrow> ModuleFullName" where
  "exName registry name = \<lparr> Registry = registry, Owner = ''acme'', Name = name \<rparr>"

definition exUploadModule ::
  "string \<Rightarrow> ModuleFullName option \<Rightarrow> moduleDep list \<Rightarrow> (string, string) uploadModule" where
  "exUploadModule opaqueID name deps =
     \<lparr> umIsLocal = True, umModuleFullName = name, umOpaqueID = opaqueID,
       umModuleDeps = Inr deps, umProtoFiles = Inr ''files'',
       umV1BufYAMLObjectData = Inr ''buf.yaml'', umV1BufLockObjectData = Inr ''buf.lock'' \<rparr>"

definition exDep :: "string \<Rightarrow> ModuleFullName option \<Rightarrow> moduleDep" where
  "exDep opaqueID name =
     \<lparr> depIsLocal = False, depModuleFullName = name, depOpaqueID = opaqueID,
       depCommitID = Some ''c1'' \<rparr>"

text \<open>A registry that answers with as many commits as \<open>n\<close> says, whatever was sent.\<close>

definition exUploadEnv :: "nat \<Rightarrow> (string, string, string) uploadEnv" where
  "exUploadEnv n =
     \<lparr> UploadServiceClientUpload =
         (\<lambda>registry contents.
            Inr (replicate n \<lparr> pcId = ''c2'', pcDigest = ''b5'', pcCreateTime = 0 \<rparr>)),
       uuidFromString = (\<lambda>s. Inr s),
       NewModuleKeyError = (\<lambda>n c. None) \<rparr>"

section \<open>The image builder (bufimage/build\_image.go)\<close>

subsection \<open>Data\<close>

text \<open>
  A linked file descriptor (\<^verbatim>\<open>protoreflect.FileDescriptor\<close>): its path, the descriptors
  of its imports and its source code info; or nil. The descriptors of a compilation form
  a finite graph without import cycles, so a descriptor is a finite tree in which a file
  imported along several ways occurs once per way.
\<close>

datatype 'sci FileDescriptor =
    NilFileDescriptor
  | FileDescriptor string "'sci FileDescriptor list" "'sci option"

record 'sci FileDescriptorProto =
  fdpName :: string
  fdpDependency :: "string list"
  fdpSourceCodeInfo :: "'sci option"

text \<open>\<^verbatim>\<open>fileDescriptor.Path()\<close>: a method call on nil panics.\<close>

fun Path :: "'sci FileDescriptor \<Rightarrow> error + string" where
  "Path NilFileDescriptor = Inl (Panic ''nil pointer dereference'')"
| "Path (FileDescriptor path imports sci) = Inr path"

text \<open>\<^verbatim>\<open>protoutil.ProtoFromFileDescriptor\<close> (of the compiler library): the descriptor as a
  message, naming the file and its imports by path; nil for nil.\<close>

fun importPath :: "'sci FileDescriptor \<Rightarrow> string" where
  "importPath NilFileDescriptor = []"
| "importPath (FileDescriptor path imports sci) = path"

fun ProtoFromFileDescriptor :: "'sci FileDescriptor \<Rightarrow> 'sci FileDescriptorProto option" where
  "ProtoFromFileDescriptor NilFileDescriptor = None"
| "ProtoFromFileDescriptor (FileDescriptor path imports sci) =
     Some \<lparr> fdpName = path, fdpDependency = map importPath imports, fdpSourceCodeInfo = sci \<rparr>"

text \<open>
  Modelled from the spec: \<^verbatim>\<open>NewImageFile\<close> and \<^verbatim>\<open>NewImage\<close> (bufimage's image.go and
  image\_file.go are not among the sources). Section 3: an ImageFile is a compiled file
  descriptor tagged with the owning ModuleFullName and commit, the external path, the
  import flag, the syntax-unspecified flag and the indexes of unused imports; an Image is
  the ordered sequence of ImageFiles. Their validations are parameters of the
  environment. The unused dependency indexes are a nil slice (\<open>None\<close>) or a slice of
  \<^verbatim>\<open>int32\<close>.
\<close>

record 'sci ImageFile =
  ifFileDescriptorProto :: "'sci FileDescriptorProto"
  ifModuleFullName :: "ModuleFullName option"
  ifCommitID :: string
  ifExternalPath :: string
  ifIsImport :: bool
  ifIsSyntaxUnspecified :: bool
  ifUnusedDependencyIndexes :: "32 word list option"

definition ifPath :: "'sci ImageFile \<Rightarrow> string" where
  "ifPath f = fdpName (ifFileDescriptorProto f)"

record parserAccessorHandler =
  pahModuleFullName :: "string \<Rightarrow> ModuleFullName option"
  pahCommitID :: "string \<Rightarrow> string"
  pahExternalPath :: "string \<Rightarrow> string"

text \<open>A diagnostic of the compiler (\<^verbatim>\<open>reporter.ErrorWithPos\<close>): the underlying error,
  which may be nil, and the source position.\<close>

datatype underlyingError =
    ErrNoSyntax
  | ErrorUnusedImport string
  | OtherCompileError string

record ErrorWithPos =
  ewUnwrap :: "underlyingError option"
  ewFilename :: string
  ewLine :: int
  ewCol :: int

datatype compileError =
    ErrInvalidSource
  | CompileErrorWithPos ErrorWithPos
  | CompileOtherError error

text \<open>What a run of \<^verbatim>\<open>compiler.Compile\<close> leaves behind: the returned files and error,
  and the errors and warnings the reporter's two callbacks have collected.\<close>

record 'sci compileOutcome =
  compiledFiles :: "'sci FileDescriptor list"
  compileErr :: "compileError option"
  errorsWithPos :: "ErrorWithPos list"
  warningErrorsWithPos :: "ErrorWithPos list"

record compilerConfig =
  MaxParallelism :: nat
  SourceInfoStandard :: bool

record FileAnnotation =
  faFileInfo :: "(string \<times> string) option"
  faStartLine :: int
  faStartColumn :: int
  faEndLine :: int
  faEndColumn :: int
  faType :: string
  faMessage :: string

record 'sci buildResult =
  brFileDescriptors :: "'sci FileDescriptor list"
  brSyntaxUnspecifiedFilenames :: "string set"
  brFilenameToUnusedDependencyFilenames :: "string \<rightharpoonup> string set"
  brFileAnnotations :: "FileAnnotation list"
  brErr :: "error option"

text \<open>
  What the builder calls outside its file: the compiler with its reporter, the CPU-derived
  parallelism, \<^verbatim>\<open>normalpath.NormalizeAndValidate\<close>,
  \<^verbatim>\<open>bufanalysis.DeduplicateAndSortFileAnnotations\<close>, the text of an underlying error,
  and the validations of NewImageFile and NewImage.
\<close>

record 'sci imageEnv =
  Compile :: "compilerConfig \<Rightarrow> string list \<Rightarrow> 'sci compileOutcome"
  threadParallelism :: nat
  NormalizeAndValidate :: "string \<Rightarrow> error + string"
  DeduplicateAndSortFileAnnotations :: "FileAnnotation list \<Rightarrow> FileAnnotation list"
  underlyingErrorString :: "underlyingError \<Rightarrow> string"
  NewImageFileError :: "'sci ImageFile \<Rightarrow> error option"
  NewImageError :: "'sci ImageFile list \<Rightarrow> error option"

subsection \<open>getFileAnnotation and getFileAnnotations\<close>

definition getFileAnnotation ::
  "'sci imageEnv \<Rightarrow> parserAccessorHandler \<Rightarrow> ErrorWithPos \<Rightarrow> error + FileAnnotation" where
  "getFileAnnotation env handler errorWithPos =
     (let message = (case ewUnwrap errorWithPos of
                       None \<Rightarrow> ''Compile error.''
                     | Some u \<Rightarrow> underlyingErrorString env u);
          startLine = (if ewLine errorWithPos > 0 then ewLine errorWithPos else 0);
          startColumn = (if ewCol errorWithPos > 0 then ewCol errorWithPos else 0)
      in
      case (if ewFilename errorWithPos \<noteq> [] then
              (case NormalizeAndValidate env (ewFilename errorWithPos) of
                 Inl err \<Rightarrow> Inl err
               | Inr path \<Rightarrow> Inr (Some (path, pahExternalPath handler path)))
            else Inr None) of
        Inl err \<Rightarrow> Inl err
      | Inr fileInfo \<Rightarrow>
          Inr \<lparr> faFileInfo = fileInfo, faStartLine = startLine, faStartColumn = startColumn,
                faEndLine = startLine, faEndColumn = startColumn, faType = ''COMPILE'',
                faMessage = message \<rparr>)"

definition getFileAnnotations ::
  "'sci imageEnv \<Rightarrow> parserAccessorHandler \<Rightarrow> ErrorWithPos list \<Rightarrow> error + FileAnnotation list" where
  "getFileAnnotations env handler errs = MapError (getFileAnnotation env handler) errs"

subsection \<open>getBuildResult\<close>

definition newBuildResult ::
  "'sci FileDescriptor list \<Rightarrow> string set \<Rightarrow> (string \<rightharpoonup> string set) \<Rightarrow> FileAnnotation list \<Rightarrow>
   error option \<Rightarrow> 'sci buildResult" where
  "newBuildResult fds syn unused anns err =
     \<lparr> brFileDescriptors = fds, brSyntaxUnspecifiedFilenames = syn,
       brFilenameToUnusedDependencyFilenames = unused, brFileAnnotations = anns,
       brErr = err \<rparr>"

definition maybeAddSyntaxUnspecified :: "string set \<Rightarrow> ErrorWithPos \<Rightarrow> string set" where
  "maybeAddSyntaxUnspecified syntaxUnspecifiedFilenames errorWithPos =
     (if ewUnwrap errorWithPos \<noteq> Some ErrNoSyntax then syntaxUnspecifiedFilenames
      else insert (ewFilename errorWithPos) syntaxUnspecifiedFilenames)"

definition maybeAddUnusedImport ::
  "(string \<rightharpoonup> string set) \<Rightarrow> ErrorWithPos \<Rightarrow> (string \<rightharpoonup> string set)" where
  "maybeAddUnusedImport filenameToUnusedImportFilenames errorWithPos =
     (case ewUnwrap errorWithPos of
        Some (ErrorUnusedImport unusedImport) \<Rightarrow>
          (case filenameToUnusedImportFilenames (ewFilename errorWithPos) of
             None \<Rightarrow>
               filenameToUnusedImportFilenames(ewFilename errorWithPos \<mapsto> {unusedImport})
           | Some unusedImportFilenames \<Rightarrow>
               filenameToUnusedImportFilenames
                 (ewFilename errorWithPos \<mapsto> insert unusedImport unusedImportFilenames))
      | other \<Rightarrow> filenameToUnusedImportFilenames)"

text \<open>The loop that compares the i-th compiled file's path with the i-th requested
  path; the two lists have the same length when it runs.\<close>

fun checkCompiledFilePaths :: "'sci FileDescriptor list \<Rightarrow> string list \<Rightarrow> error option" where
  "checkCompiledFilePaths (fileDescriptor # fds) (path # paths) =
     (case Path fileDescriptor of
        Inl e \<Rightarrow> Some e
      | Inr filename \<Rightarrow>
          if path \<noteq> filename then Some (ExpectedFileDescriptorName filename path)
          else checkCompiledFilePaths fds paths)"
| "checkCompiledFilePaths fds paths = None"

definition getBuildResult ::
  "'sci imageEnv \<Rightarrow> parserAccessorHandler \<Rightarrow> string list \<Rightarrow> bool \<Rightarrow> bool \<Rightarrow> 'sci buildResult" where
  "getBuildResult env handler paths excludeSourceCodeInfo noParallelism =
     (let outcome = Compile env
            \<lparr> MaxParallelism = (if noParallelism then 1 else threadParallelism env),
              SourceInfoStandard = \<not> excludeSourceCodeInfo \<rparr> paths
      in
      case compileErr outcome of
        Some ErrInvalidSource \<Rightarrow>
          if errorsWithPos outcome = [] then
            newBuildResult [] {} Map.empty [] (Some InvalidSourceButNoErrors)
          else
            (case getFileAnnotations env handler (errorsWithPos outcome) of
               Inl err \<Rightarrow> newBuildResult [] {} Map.empty [] (Some err)
             | Inr fileAnnotations \<Rightarrow> newBuildResult [] {} Map.empty fileAnnotations None)
      | Some (CompileErrorWithPos errorWithPos) \<Rightarrow>
          (case getFileAnnotations env handler [errorWithPos] of
             Inl err \<Rightarrow> newBuildResult [] {} Map.empty [] (Some err)
           | Inr fileAnnotations \<Rightarrow> newBuildResult [] {} Map.empty fileAnnotations None)
      | Some (CompileOtherError err) \<Rightarrow> newBuildResult [] {} Map.empty [] (Some err)
      | None \<Rightarrow>
          if errorsWithPos outcome \<noteq> [] then
            newBuildResult [] {} Map.empty [] (Some NoErrorButErrorsReported)
          else if length (compiledFiles outcome) \<noteq> length paths then
            newBuildResult [] {} Map.empty []
              (Some (ExpectedFileDescriptorsLength (length paths)
                       (length (compiledFiles outcome))))
          else
            (case checkCompiledFilePaths (compiledFiles outcome) paths of
               Some err \<Rightarrow> newBuildResult [] {} Map.empty [] (Some err)
             | None \<Rightarrow>
                 newBuildResult (compiledFiles outcome)
                   (fold (\<lambda>w syn. maybeAddSyntaxUnspecified syn w)
                      (warningErrorsWithPos outcome) {})
                   (fold (\<lambda>w unused. maybeAddUnusedImport unused w)
                      (warningErrorsWithPos outcome) Map.empty)
                   [] None))"

subsection \<open>checkAndSortFileDescriptors\<close>

text \<open>The loop that fills \<open>nameToFileDescriptor\<close>.\<close>

definition nameToFileDescriptorStep ::
  "'sci FileDescriptor \<Rightarrow> (string \<rightharpoonup> 'sci FileDescriptor) \<Rightarrow>
   error + (string \<rightharpoonup> 'sci FileDescriptor)" where
  "nameToFileDescriptorStep fileDescriptor nameToFileDescriptor =
     (case Path fileDescriptor of
        Inl e \<Rightarrow> Inl e
      | Inr name \<Rightarrow>
          if name = [] then Inl NoNameOnFileDescriptor
          else if nameToFileDescriptor name \<noteq> None then Inl (DuplicateFileDescriptor name)
          else Inr (nameToFileDescriptor(name \<mapsto> fileDescriptor)))"

text \<open>The loop over \<open>rootRelFilePaths\<close>; its variable is \<open>sortedFileDescriptors\<close>.\<close>

definition sortedFileDescriptorStep ::
  "(string \<rightharpoonup> 'sci FileDescriptor) \<Rightarrow> string \<Rightarrow> 'sci FileDescriptor list \<Rightarrow>
   error + 'sci FileDescriptor list" where
  "sortedFileDescriptorStep nameToFileDescriptor rootRelFilePath sortedFileDescriptors =
     (case nameToFileDescriptor rootRelFilePath of
        None \<Rightarrow> Inl (NoFileDescriptorForRootRelFilePath rootRelFilePath)
      | Some fileDescriptor \<Rightarrow> Inr (sortedFileDescriptors @ [fileDescriptor]))"

definition checkAndSortFileDescriptors ::
  "'sci FileDescriptor list \<Rightarrow> string list \<Rightarrow> error + 'sci FileDescriptor list" where
  "checkAndSortFileDescriptors fileDescriptors rootRelFilePaths =
     (if length fileDescriptors \<noteq> length rootRelFilePaths then
        Inl (RootRelFilePathLength (length rootRelFilePaths) (length fileDescriptors))
      else
        case forEachE nameToFileDescriptorStep fileDescriptors Map.empty of
          Inl e \<Rightarrow> Inl e
        | Inr nameToFileDescriptor \<Rightarrow>
            forEachE (sortedFileDescriptorStep nameToFileDescriptor) rootRelFilePaths [])"

subsection \<open>getImage and getImageFilesRec\<close>

text \<open>The arguments \<open>getImageFilesRec\<close> passes on unchanged.\<close>

record 'sci recArgs =
  raEnv :: "'sci imageEnv"
  raExcludeSourceCodeInfo :: bool
  raHandler :: parserAccessorHandler
  raSyntaxUnspecifiedFilenames :: "string set"
  raFilenameToUnusedDependencyFilenames :: "string \<rightharpoonup> string set"
  raNonImportFilenames :: "string set"

text \<open>
  \<open>getImageFilesRec\<close> with the loop over the imports of the file. The map
  \<open>alreadySeen\<close> is shared by all calls, so it is threaded with \<open>imageFiles\<close>. The loop
  carries the index \<open>i\<close> and \<open>unusedDependencyIndexes\<close>; \<open>unused\<close> is
  \<open>unusedDependencyFilenames\<close>, \<open>None\<close> when the file has no entry. With an entry,
  \<^verbatim>\<open>dependency.Path()\<close> is called before the recursive call and panics on nil.
\<close>

fun getImageFilesRec ::
  "'sci recArgs \<Rightarrow> 'sci FileDescriptor \<Rightarrow> string set \<times> 'sci ImageFile list \<Rightarrow>
   error + (string set \<times> 'sci ImageFile list)"
and importsLoop ::
  "'sci recArgs \<Rightarrow> string set option \<Rightarrow> 'sci FileDescriptor list \<Rightarrow> nat \<Rightarrow>
   32 word list option \<Rightarrow> string set \<times> 'sci ImageFile list \<Rightarrow>
   error + (32 word list option \<times> string set \<times> 'sci ImageFile list)" where
  "getImageFilesRec a NilFileDescriptor st = Inl NilFileDescriptorError"
| "getImageFilesRec a (FileDescriptor path imports sci) st =
     (if path \<in> fst st then Inr st
      else
        case importsLoop a (raFilenameToUnusedDependencyFilenames a path) imports 0
               (case raFilenameToUnusedDependencyFilenames a path of
                  None \<Rightarrow> None | Some unused \<Rightarrow> Some [])
               (insert path (fst st), snd st) of
          Inl e \<Rightarrow> Inl e
        | Inr (unusedDependencyIndexes, alreadySeen, imageFiles) \<Rightarrow>
            (case ProtoFromFileDescriptor (FileDescriptor path imports sci) of
               None \<Rightarrow> Inl NilFileDescriptorProto
             | Some fileDescriptorProto \<Rightarrow>
                 (let imageFile =
                    \<lparr> ifFileDescriptorProto =
                        (if raExcludeSourceCodeInfo a
                         then fileDescriptorProto\<lparr> fdpSourceCodeInfo := None \<rparr>
                         else fileDescriptorProto),
                      ifModuleFullName = pahModuleFullName (raHandler a) path,
                      ifCommitID = pahCommitID (raHandler a) path,
                      ifExternalPath = pahExternalPath (raHandler a) path,
                      ifIsImport = (path \<notin> raNonImportFilenames a),
                      ifIsSyntaxUnspecified = (path \<in> raSyntaxUnspecifiedFilenames a),
                      ifUnusedDependencyIndexes = unusedDependencyIndexes \<rparr>
                  in case NewImageFileError (raEnv a) imageFile of
                       Some e \<Rightarrow> Inl e
                     | None \<Rightarrow> Inr (alreadySeen, imageFiles @ [imageFile]))))"
| "importsLoop a unused [] i unusedDependencyIndexes st =
     Inr (unusedDependencyIndexes, st)"
| "importsLoop a unused (dependency # rest) i unusedDependencyIndexes st =
     (case (case unused of
              None \<Rightarrow> Inr unusedDependencyIndexes
            | Some unusedDependencyFilenames \<Rightarrow>
                (case Path dependency of
                   Inl e \<Rightarrow> Inl e
                 | Inr depPath \<Rightarrow>
                     if depPath \<in> unusedDependencyFilenames then
                       Inr (Some ((case unusedDependencyIndexes of
                                     None \<Rightarrow> [] | Some indexes \<Rightarrow> indexes) @
                                  [word_of_nat i]))
                     else Inr unusedDependencyIndexes)) of
        Inl e \<Rightarrow> Inl e
      | Inr unusedDependencyIndexes' \<Rightarrow>
          (case getImageFilesRec a dependency st of
             Inl e \<Rightarrow> Inl e
           | Inr st' \<Rightarrow> importsLoop a unused rest (Suc i) unusedDependencyIndexes' st'))"

definition getImage ::
  "'sci imageEnv \<Rightarrow> bool \<Rightarrow> 'sci FileDescriptor list \<Rightarrow> parserAccessorHandler \<Rightarrow> string set \<Rightarrow>
   (string \<rightharpoonup> string set) \<Rightarrow> error + 'sci ImageFile list" where
  "getImage env excludeSourceCodeInfo sortedFileDescriptors handler syntaxUnspecifiedFilenames
     filenameToUnusedDependencyFilenames =
     (case MapError Path sortedFileDescriptors of
        Inl e \<Rightarrow> Inl e
      | Inr names \<Rightarrow>
          (case forEachE
                  (getImageFilesRec
                     \<lparr> raEnv = env, raExcludeSourceCodeInfo = excludeSourceCodeInfo,
                       raHandler = handler,
                       raSyntaxUnspecifiedFilenames = syntaxUnspecifiedFilenames,
                       raFilenameToUnusedDependencyFilenames =
                         filenameToUnusedDependencyFilenames,
                       raNonImportFilenames = set names \<rparr>)
                  sortedFileDescriptors ({}, []) of
             Inl e \<Rightarrow> Inl e
           | Inr (alreadySeen, imageFiles) \<Rightarrow>
               (case NewImageError env imageFiles of
                  Some e \<Rightarrow> Inl e
                | None \<Rightarrow> Inr imageFiles)))"

subsection \<open>buildImage\<close>

text \<open>
  The bucket \<open>buildImage\<close> is given is a ModuleReadBucket of bufpkg/bufmodule, whose
  implementation is not among the sources. The three calls made on it are fields: whether
  it should be self-contained, the result of \<^verbatim>\<open>GetTargetFileInfos\<close> on its restriction to
  .proto files, and the parser accessor handler built from that restriction.
\<close>

record imageReadBucket =
  ShouldBeSelfContained :: bool
  GetTargetFileInfos :: "error + fileInfo list"
  newParserAccessorHandler :: parserAccessorHandler

definition FileInfoPaths :: "fileInfo list \<Rightarrow> string list" where
  "FileInfoPaths fileInfos = map (\<lambda>fileInfo. oiPath (fiObjectInfo fileInfo)) fileInfos"

text \<open>The three results of \<open>buildImage\<close>: the Image or nil, the file annotations, the
  error or nil.\<close>

definition buildImage ::
  "'sci imageEnv \<Rightarrow> imageReadBucket \<Rightarrow> bool \<Rightarrow> bool \<Rightarrow>
   'sci ImageFile list option \<times> FileAnnotation list \<times> error option" where
  "buildImage env moduleReadBucket excludeSourceCodeInfo noParallelism =
     (if \<not> ShouldBeSelfContained moduleReadBucket then (None, [], Some SysNotSelfContained)
      else
        case GetTargetFileInfos moduleReadBucket of
          Inl err \<Rightarrow> (None, [], Some err)
        | Inr targetFileInfos \<Rightarrow>
            if targetFileInfos = [] then (None, [], Some NoInputFiles)
            else
              (let paths = FileInfoPaths targetFileInfos;
                   handler = newParserAccessorHandler moduleReadBucket;
                   buildResult =
                     getBuildResult env handler paths excludeSourceCodeInfo noParallelism
               in
               case brErr buildResult of
                 Some err \<Rightarrow> (None, [], Some err)
               | None \<Rightarrow>
                   if brFileAnnotations buildResult \<noteq> [] then
                     (None,
                      DeduplicateAndSortFileAnnotations env (brFileAnnotations buildResult),
                      None)
                   else
                     (case checkAndSortFileDescriptors (brFileDescriptors buildResult) paths of
                        Inl err \<Rightarrow> (None, [], Some err)
                      | Inr fileDescriptors \<Rightarrow>
                          (case getImage env excludeSourceCodeInfo fileDescriptors handler
                                  (brSyntaxUnspecifiedFilenames buildResult)
                                  (brFilenameToUnusedDependencyFilenames buildResult) of
                             Inl err \<Rightarrow> (None, [], Some err)
                           | Inr img \<Rightarrow> (Some img, [], None)))))"

text \<open>The compiler configuration \<open>getBuildResult\<close> passes, and the outcome of the run.\<close>

definition compilerConfigOf :: "'sci imageEnv \<Rightarrow> bool \<Rightarrow> bool \<Rightarrow> compilerConfig" where
  "compilerConfigOf env excludeSourceCodeInfo noParallelism =
     \<lparr> MaxParallelism = (if noParallelism then 1 else threadParallelism env),
       SourceInfoStandard = \<not> excludeSourceCodeInfo \<rparr>"

subsection \<open>Notions used to state the properties of an Image\<close>

text \<open>The paths of the files a descriptor reaches through imports, itself included.\<close>

fun fdPaths :: "'sci FileDescriptor \<Rightarrow> string set" where
  "fdPaths NilFileDescriptor = {}"
| "fdPaths (FileDescriptor path imports sci) = insert path (\<Union>d\<in>set imports. fdPaths d)"

text \<open>No file imports itself, directly or through other files: the linker rejects import
  cycles, so every descriptor it returns has this property.\<close>

fun acyclicFD :: "'sci FileDescriptor \<Rightarrow> bool" where
  "acyclicFD NilFileDescriptor = True"
| "acyclicFD (FileDescriptor path imports sci) =
     (path \<notin> (\<Union>d\<in>set imports. fdPaths d) \<and> (\<forall>d\<in>set imports. acyclicFD d))"

text \<open>A sequence of image files is in topological order without repetition, given the
  paths \<open>S\<close> that came before: no file's path came before, and all the paths it imports
  did.\<close>

fun topoFrom :: "string set \<Rightarrow> 'sci ImageFile list \<Rightarrow> bool" where
  "topoFrom S [] = True"
| "topoFrom S (f # fs) =
     (ifPath f \<notin> S \<and> set (fdpDependency (ifFileDescriptorProto f)) \<subseteq> S \<and>
      topoFrom (insert (ifPath f) S) fs)"

text \<open>
  The invariant of the traversal, for the set \<open>A\<close> of the paths of the files being
  visited: the paths seen are those of the emitted files and those of \<open>A\<close>, no file of
  \<open>A\<close> is emitted yet, no path is emitted twice, and each emitted file carries the
  import flag of its path.
\<close>

definition dfsInvariant ::
  "'sci recArgs \<Rightarrow> string set \<Rightarrow> string set \<times> 'sci ImageFile list \<Rightarrow> bool" where
  "dfsInvariant a A st =
     (fst st = ifPath ` set (snd st) \<union> A \<and> A \<inter> ifPath ` set (snd st) = {} \<and>
      distinct (map ifPath (snd st)) \<and>
      (\<forall>f\<in>set (snd st). ifIsImport f = (ifPath f \<notin> raNonImportFilenames a)))"

text \<open>
  The annotation the spec gives for a diagnostic: the path of the file it names, with the
  external path; its line and column, which are 1-based, as both the start and the end of
  the position; the type COMPILE; and the message of the underlying error. A diagnostic
  that names no file has no file info, and a line or column that is not positive is not
  available and is left 0.
\<close>

definition diagnosticAnnotation ::
  "'sci imageEnv \<Rightarrow> parserAccessorHandler \<Rightarrow> ErrorWithPos \<Rightarrow> FileAnnotation" where
  "diagnosticAnnotation env handler d =
     \<lparr> faFileInfo =
         (if ewFilename d = [] then None
          else case NormalizeAndValidate env (ewFilename d) of
                 Inl err \<Rightarrow> None
               | Inr path \<Rightarrow> Some (path, pahExternalPath handler path)),
       faStartLine = max 0 (ewLine d), faStartColumn = max 0 (ewCol d),
       faEndLine = max 0 (ewLine d), faEndColumn = max 0 (ewCol d),
       faType = ''COMPILE'',
       faMessage = (case ewUnwrap d of
                      None \<Rightarrow> ''Compile error.''
                    | Some u \<Rightarrow> underlyingErrorString env u) \<rparr>"

text \<open>The file name of a diagnostic, when it has one, is a valid path.\<close>

definition fileNameValid :: "'sci imageEnv \<Rightarrow> ErrorWithPos \<Rightarrow> bool" where
  "fileNameValid env d =
     (ewFilename d = [] \<or>
      (case NormalizeAndValidate env (ewFilename d) of Inl err \<Rightarrow> False | Inr path \<Rightarrow> True))"

subsection \<open>A concrete compilation\<close>

text \<open>The file \<open>a.proto\<close> imports \<open>b.proto\<close>, and \<open>c.proto\<close> imports \<open>b.proto\<close> too.\<close>

definition exFDb :: "unit FileDescriptor" where
  "exFDb = FileDescriptor ''b.proto'' [] None"

definition exFDa :: "unit FileDescriptor" where
  "exFDa = FileDescriptor ''a.proto'' [exFDb] None"

definition exFDc :: "unit FileDescriptor" where
  "exFDc = FileDescriptor ''c.proto'' [exFDb] None"

definition exHandler :: parserAccessorHandler where
  "exHandler =
     \<lparr> pahModuleFullName = (\<lambda>path. None), pahCommitID = (\<lambda>path. []),
       pahExternalPath = (\<lambda>path. path) \<rparr>"

definition exImageEnv :: "nat \<Rightarrow> unit compileOutcome \<Rightarrow> unit imageEnv" where
  "exImageEnv n outcome =
     \<lparr> Compile = (\<lambda>config paths. outcome), threadParallelism = n,
       NormalizeAndValidate = (\<lambda>path. Inr path),
       DeduplicateAndSortFileAnnotations = remdups,
       underlyingErrorString =
         (\<lambda>u. case u of OtherCompileError m \<Rightarrow> m | other \<Rightarrow> ''warning''),
       NewImageFileError = (\<lambda>f. None), NewImageError = (\<lambda>fs. None) \<rparr>"

definition exImageBucket :: "string list \<Rightarrow> imageReadBucket" where
  "exImageBucket paths =
     \<lparr> ShouldBeSelfContained = True,
       GetTargetFileInfos = Inr (map (\<lambda>p. exFileInfo True p FileTypeProto True) paths),
       newParserAccessorHandler = exHandler \<rparr>"

definition exCleanOutcome :: "unit FileDescriptor list \<Rightarrow> unit compileOutcome" where
  "exCleanOutcome fds =
     \<lparr> compiledFiles = fds, compileErr = None, errorsWithPos = [],
       warningErrorsWithPos = [] \<rparr>"

definition exSyntaxError :: ErrorWithPos where
  "exSyntaxError =
     \<lparr> ewUnwrap = Some (OtherCompileError ''syntax error''), ewFilename = ''a.proto'',
       ewLine = 3, ewCol = 7 \<rparr>"

definition exFailedOutcome :: "unit compileOutcome" where
  "exFailedOutcome =
     \<lparr> compiledFiles = [], compileErr = Some ErrInvalidSource,
       errorsWithPos = [exSyntaxError], warningErrorsWithPos = [] \<rparr>"

text \<open>Two outcomes in which the compiler has reported the syntax error and yet does not
  return a diagnostic error: it returns another error (the compilation was cancelled), or
  no error at all.\<close>

definition exCancelledOutcome :: "unit compileOutcome" where
  "exCancelledOutcome =
     \<lparr> compiledFiles = [], compileErr = Some (CompileOtherError (ErrorMsg ''context canceled'')),
       errorsWithPos = [exSyntaxError], warningErrorsWithPos = [] \<rparr>"

definition exInconsistentOutcome :: "unit compileOutcome" where
  "exInconsistentOutcome =
     \<lparr> compiledFiles = [], compileErr = None, errorsWithPos = [exSyntaxError],
       warningErrorsWithPos = [] \<rparr>"

text \<open>An environment in which no file name is a valid path.\<close>

definition exStrictEnv :: "unit compileOutcome \<Rightarrow> unit imageEnv" where
  "exStrictEnv outcome =
     (exImageEnv 4 outcome)\<lparr> NormalizeAndValidate := (\<lambda>path. Inl (ErrorMsg ''invalid path'')) \<rparr>"

definition exImageFile :: "string \<Rightarrow> string list \<Rightarrow> bool \<Rightarrow> unit ImageFile" where
  "exImageFile path deps isImport =
     \<lparr> ifFileDescriptorProto =
         \<lparr> fdpName = path, fdpDependency = deps, fdpSourceCodeInfo = None \<rparr>,
       ifModuleFullName = None, ifCommitID = [], ifExternalPath = path,
       ifIsImport = isImport, ifIsSyntaxUnspecified = False,
       ifUnusedDependencyIndexes = None \<rparr>"

section \<open>Properties\<close>

subsection \<open>ModuleReadBucket\<close>

lemma storageWalk_invariant:
  "storageWalk es f s = Inr s' \<Longrightarrow> I s \<Longrightarrow>
   (\<And>oi s s'. I s \<Longrightarrow> f oi s = Inr s' \<Longrightarrow> I s') \<Longrightarrow> I s'"
proof (induction es f s rule: storageWalk.induct)
  case (1 f s)
  then show ?case by simp
next
  case (2 e es f s)
  then show ?case by simp
next
  case (3 oi es f s)
  from "3.prems"(1) obtain s1 where s1: "f oi s = Inr s1" and rest: "storageWalk es f s1 = Inr s'"
    by (auto split: sum.splits)
  have "I s1" using "3.prems"(2,3) s1 by blast
  with "3.IH"[OF s1 rest] "3.prems"(3) show ?case by blast
qed

lemma WalkFileInfos_invariant:
  "(\<And>fi s s'. I s \<Longrightarrow> fn fi s = Inr s' \<Longrightarrow> I s') \<Longrightarrow> I s \<Longrightarrow>
   WalkFileInfos classify eqc d fn options s = Inr s' \<Longrightarrow> I s'"
proof (induction d arbitrary: fn)
  case (Plain f)
  let ?g = "\<lambda>oi s. case newFileInfo classify eqc f oi of
                      Inl e \<Rightarrow> Inl e
                    | Inr fi \<Rightarrow>
                        if onlyTargetFiles (fold (\<lambda>option w. option w) options newWalkFileInfosOptions)
                           \<and> \<not> fiIsTargetFile fi then Inr s
                        else fn fi s"
  show ?case
  proof (rule storageWalk_invariant[where I = I and f = ?g and s = s
        and es = "sbWalk (delegate f) []"])
    show "storageWalk (sbWalk (delegate f) []) ?g s = Inr s'"
      using Plain(3) by (simp add: Let_def)
  next
    show "I s" by fact
  next
    fix oi t t'
    assume "I t" and "?g oi t = Inr t'"
    then show "I t'" using Plain(1) by (auto split: sum.splits if_splits)
  qed
next
  case (Filtered d S)
  show ?case
  proof (rule Filtered.IH[of "\<lambda>fi s. if fiFileType fi \<notin> S then Inr s else fn fi s"])
    fix fi s s'
    assume "I s" "(if fiFileType fi \<notin> S then Inr s else fn fi s) = Inr s'"
    then show "I s'" using Filtered.prems(1) by (auto split: if_splits)
  next
    show "I s" by fact
  next
    show "WalkFileInfos classify eqc d (\<lambda>fi s. if fiFileType fi \<notin> S then Inr s else fn fi s) options s = Inr s'"
      using Filtered.prems(3) by simp
  qed
qed

lemma getIsTargetedFileForPath_iff:
  "getIsTargetedFileForPath eqc f path \<longleftrightarrow>
     IsTargetModule (mrbModule f) \<and>
     (targetPathMap f = {} \<or> (\<exists>t\<in>targetPathMap f. eqc t path)) \<and>
     \<not> (\<exists>x\<in>targetExcludePathMap f. eqc x path)"
  unfolding getIsTargetedFileForPath_def MapHasEqualOrContainingPath_def
  by (cases "targetPathMap f = {}"; cases "targetExcludePathMap f = {}"; simp)

lemma newFileInfo_IsTargetFile:
  "newFileInfo classify eqc f oi = Inr fi \<Longrightarrow>
   fiIsTargetFile fi = getIsTargetedFileForPath eqc f (oiPath oi)"
  by (auto simp: newFileInfo_def split: sum.splits)

lemma filtered_walk_types:
  assumes "WalkFileInfos classify eqc (Filtered d fileTypeMap)
             (\<lambda>fi acc. Inr (acc @ [fi])) options [] = Inr fis"
  shows "\<forall>fi\<in>set fis. fiFileType fi \<in> fileTypeMap"
proof -
  have "(\<lambda>s. \<forall>fi\<in>set s. fiFileType fi \<in> fileTypeMap) fis"
  proof (rule WalkFileInfos_invariant[where I = "\<lambda>s. \<forall>fi\<in>set s. fiFileType fi \<in> fileTypeMap"
        and s = "[]" and d = d and options = options and classify = classify and eqc = eqc
        and fn = "\<lambda>fi s. if fiFileType fi \<notin> fileTypeMap then Inr s else Inr (s @ [fi])"])
    show "WalkFileInfos classify eqc d
            (\<lambda>fi s. if fiFileType fi \<notin> fileTypeMap then Inr s else Inr (s @ [fi])) options [] = Inr fis"
      using assms by simp
  qed (auto split: if_splits)
  then show ?thesis by simp
qed

text \<open>
  Claim C9. Every FileInfo of a \<open>moduleReadBucket\<close> is made by \<open>newFileInfo\<close> (from
  StatFileInfo, GetFile and WalkFileInfos alike). Its IsTargetFile is false whenever the
  owning module is not a target module; it is true for every file when the module is a
  target and neither target paths nor exclude paths are configured; otherwise it is true
  exactly when the file's path equals or is contained in some configured target path (if
  there are any target paths) and neither equals nor is contained in any configured
  exclude path.
\<close>

theorem IsTargetFile_spec:
  assumes "newFileInfo classify eqc f oi = Inr fi"
  shows "(\<not> IsTargetModule (mrbModule f) \<longrightarrow> \<not> fiIsTargetFile fi) \<and>
         (IsTargetModule (mrbModule f) \<and> targetPathMap f = {} \<and> targetExcludePathMap f = {}
            \<longrightarrow> fiIsTargetFile fi) \<and>
         (IsTargetModule (mrbModule f) \<longrightarrow>
            (fiIsTargetFile fi \<longleftrightarrow>
               (targetPathMap f = {} \<or> (\<exists>t\<in>targetPathMap f. eqc t (oiPath oi))) \<and>
               \<not> (\<exists>x\<in>targetExcludePathMap f. eqc x (oiPath oi))))"
  unfolding newFileInfo_IsTargetFile[OF assms] getIsTargetedFileForPath_iff
  by simp

theorem IsTargetFile_spec_witness:
  "newFileInfo exClassify exEqualsOrContainsPath (exBucket True [''a''] [''a/b''])
     (exObject ''a/x.proto'') = Inr (exFileInfo True ''a/x.proto'' FileTypeProto True) \<and>
   newFileInfo exClassify exEqualsOrContainsPath (exBucket True [''a''] [''a/b''])
     (exObject ''a/b/y.proto'') = Inr (exFileInfo True ''a/b/y.proto'' FileTypeProto False) \<and>
   newFileInfo exClassify exEqualsOrContainsPath (exBucket True [] [])
     (exObject ''LICENSE'') = Inr (exFileInfo True ''LICENSE'' FileTypeLicense True) \<and>
   newFileInfo exClassify exEqualsOrContainsPath (exBucket False [] [])
     (exObject ''a/x.proto'') = Inr (exFileInfo False ''a/x.proto'' FileTypeProto False) \<and>
   IsTargetModule (mrbModule (exBucket True [''a''] [''a/b''])) \<and>
   targetPathMap (exBucket True [] []) = {} \<and>
   targetExcludePathMap (exBucket True [] []) = {} \<and>
   \<not> IsTargetModule (mrbModule (exBucket False [] [])) \<and>
   (\<exists>t\<in>targetPathMap (exBucket True [''a''] [''a/b'']).
       exEqualsOrContainsPath t (oiPath (exObject ''a/x.proto''))) \<and>
   (\<exists>x\<in>targetExcludePathMap (exBucket True [''a''] [''a/b'']).
       exEqualsOrContainsPath x (oiPath (exObject ''a/b/y.proto'')))"
proof -
  have a: "newFileInfo exClassify exEqualsOrContainsPath (exBucket True [''a''] [''a/b''])
     (exObject ''a/x.proto'') = Inr (exFileInfo True ''a/x.proto'' FileTypeProto True)"
    by (simp add: newFileInfo_def exClassify_def exBucket_def newModuleReadBucket_def
        exObject_def exFileInfo_def getIsTargetedFileForPath_def exModule_def
        MapHasEqualOrContainingPath_def exEqualsOrContainsPath_def)
  have b: "newFileInfo exClassify exEqualsOrContainsPath (exBucket True [''a''] [''a/b''])
     (exObject ''a/b/y.proto'') = Inr (exFileInfo True ''a/b/y.proto'' FileTypeProto False)"
    by (simp add: newFileInfo_def exClassify_def exBucket_def newModuleReadBucket_def
        exObject_def exFileInfo_def getIsTargetedFileForPath_def exModule_def
        MapHasEqualOrContainingPath_def exEqualsOrContainsPath_def)
  have c: "newFileInfo exClassify exEqualsOrContainsPath (exBucket True [] [])
     (exObject ''LICENSE'') = Inr (exFileInfo True ''LICENSE'' FileTypeLicense True)"
    by (simp add: newFileInfo_def exClassify_def exBucket_def newModuleReadBucket_def
        exObject_def exFileInfo_def getIsTargetedFileForPath_def exModule_def)
  have d: "newFileInfo exClassify exEqualsOrContainsPath (exBucket False [] [])
     (exObject ''a/x.proto'') = Inr (exFileInfo False ''a/x.proto'' FileTypeProto False)"
    by (simp add: newFileInfo_def exClassify_def exBucket_def newModuleReadBucket_def
        exObject_def exFileInfo_def getIsTargetedFileForPath_def exModule_def)
  have tm: "IsTargetModule (mrbModule (exBucket True [''a''] [''a/b'']))"
    by (simp add: exBucket_def newModuleReadBucket_def exModule_def)
  have ntm: "\<not> IsTargetModule (mrbModule (exBucket False [] []))"
    by (simp add: exBucket_def newModuleReadBucket_def exModule_def)
  have e1: "targetPathMap (exBucket True [] []) = {}"
    and e2: "targetExcludePathMap (exBucket True [] []) = {}"
    by (simp_all add: exBucket_def newModuleReadBucket_def)
  have tf: "fiIsTargetFile (exFileInfo True ''a/x.proto'' FileTypeProto True)"
    and nf: "\<not> fiIsTargetFile (exFileInfo True ''a/b/y.proto'' FileTypeProto False)"
    by (simp_all add: exFileInfo_def)
  have ne: "targetPathMap (exBucket True [''a''] [''a/b'']) \<noteq> {}"
    by (simp add: exBucket_def newModuleReadBucket_def)
  have x1: "\<exists>t\<in>targetPathMap (exBucket True [''a''] [''a/b'']).
       exEqualsOrContainsPath t (oiPath (exObject ''a/x.proto''))"
    using IsTargetFile_spec[OF a] tm tf ne by blast
  have x0: "\<exists>t\<in>targetPathMap (exBucket True [''a''] [''a/b'']).
       exEqualsOrContainsPath t (oiPath (exObject ''a/b/y.proto''))"
    by (simp add: exBucket_def newModuleReadBucket_def exEqualsOrContainsPath_def exObject_def)
  have x2: "\<exists>x\<in>targetExcludePathMap (exBucket True [''a''] [''a/b'']).
       exEqualsOrContainsPath x (oiPath (exObject ''a/b/y.proto''))"
    using IsTargetFile_spec[OF b] tm nf x0 by blast
  show ?thesis
    using a b c d tm ntm e1 e2 x1 x2 by (intro conjI)
qed

text \<open>
  Claim C10. For a ModuleReadBucket filtered to a set of FileTypes, StatFileInfo and
  GetFile on a path that exists in the underlying bucket but whose FileType is not in the
  filter set return an error that satisfies \<^verbatim>\<open>errors.Is(err, fs.ErrNotExist)\<close>; an
  error of the underlying bucket (an absent path) is passed on unchanged, so both cases
  meet the same not-exist condition; and WalkFileInfos never passes a file whose FileType
  is outside the filter set to its callback: a recording callback sees none, and the
  callback's behaviour on such files does not influence the walk.
\<close>

theorem filtered_bucket_not_exist:
  assumes "StatFileInfo classify eqc d path = Inr fi" and "fiFileType fi \<notin> fileTypeMap"
  shows "StatFileInfo classify eqc (Filtered d fileTypeMap) path
           = Inl (PathError ''stat'' path ErrNotExist) \<and>
         GetFile classify eqc (Filtered d fileTypeMap) path
           = Inl (PathError ''stat'' path ErrNotExist) \<and>
         errorsIsNotExist (PathError ''stat'' path ErrNotExist) \<and>
         (\<forall>p e. StatFileInfo classify eqc d p = Inl e \<longrightarrow>
            StatFileInfo classify eqc (Filtered d fileTypeMap) p = Inl e \<and>
            GetFile classify eqc (Filtered d fileTypeMap) p = Inl e) \<and>
         (\<forall>options fis.
            WalkFileInfos classify eqc (Filtered d fileTypeMap)
              (\<lambda>x acc. Inr (acc @ [x])) options [] = Inr fis \<longrightarrow>
            fi \<notin> set fis \<and> (\<forall>x\<in>set fis. fiFileType x \<in> fileTypeMap)) \<and>
         (\<forall>(fn :: fileInfo \<Rightarrow> fileInfo list \<Rightarrow> error + fileInfo list) fn' options s.
            (\<forall>x t. fiFileType x \<in> fileTypeMap \<longrightarrow> fn x t = fn' x t) \<longrightarrow>
            WalkFileInfos classify eqc (Filtered d fileTypeMap) fn options s =
            WalkFileInfos classify eqc (Filtered d fileTypeMap) fn' options s)"
proof -
  have walk: "fi \<notin> set fis \<and> (\<forall>x\<in>set fis. fiFileType x \<in> fileTypeMap)"
    if "WalkFileInfos classify eqc (Filtered d fileTypeMap)
          (\<lambda>x acc. Inr (acc @ [x])) options [] = Inr fis" for options fis
    using filtered_walk_types[OF that] assms(2) by blast
  have cong: "WalkFileInfos classify eqc (Filtered d fileTypeMap) fn options s =
              WalkFileInfos classify eqc (Filtered d fileTypeMap) fn' options s"
    if "\<forall>x t. fiFileType x \<in> fileTypeMap \<longrightarrow> fn x t = fn' x t"
    for fn fn' :: "fileInfo \<Rightarrow> fileInfo list \<Rightarrow> error + fileInfo list" and options s
  proof -
    have "(\<lambda>x t. if fiFileType x \<notin> fileTypeMap then Inr t else fn x t) =
          (\<lambda>x t. if fiFileType x \<notin> fileTypeMap then Inr t else fn' x t)"
      using that by (intro ext) auto
    then show ?thesis by simp
  qed
  have stat: "StatFileInfo classify eqc (Filtered d fileTypeMap) path
                = Inl (PathError ''stat'' path ErrNotExist)"
    using assms by simp
  have get: "GetFile classify eqc (Filtered d fileTypeMap) path
                = Inl (PathError ''stat'' path ErrNotExist)"
    using assms by simp
  have absent: "StatFileInfo classify eqc (Filtered d fileTypeMap) p = Inl e \<and>
                GetFile classify eqc (Filtered d fileTypeMap) p = Inl e"
    if "StatFileInfo classify eqc d p = Inl e" for p e
    using that by simp
  have ne: "errorsIsNotExist (PathError ''stat'' path ErrNotExist)"
    by simp
  show ?thesis
    using stat get ne absent walk cong by blast
qed

theorem filtered_bucket_not_exist_witness:
  "StatFileInfo exClassify exEqualsOrContainsPath (Plain (exBucket True [] [])) ''LICENSE''
     = Inr (exFileInfo True ''LICENSE'' FileTypeLicense True) \<and>
   FileTypeLicense \<notin> {FileTypeProto} \<and>
   StatFileInfo exClassify exEqualsOrContainsPath
     (Filtered (Plain (exBucket True [] [])) {FileTypeProto}) ''LICENSE''
     = Inl (PathError ''stat'' ''LICENSE'' ErrNotExist) \<and>
   GetFile exClassify exEqualsOrContainsPath
     (Filtered (Plain (exBucket True [] [])) {FileTypeProto}) ''LICENSE''
     = Inl (PathError ''stat'' ''LICENSE'' ErrNotExist) \<and>
   StatFileInfo exClassify exEqualsOrContainsPath
     (Filtered (Plain (exBucket True [] [])) {FileTypeProto}) ''missing.proto''
     = Inl (PathError ''stat'' ''missing.proto'' ErrNotExist) \<and>
   WalkFileInfos exClassify exEqualsOrContainsPath
     (Filtered (Plain (exBucket True [] [])) {FileTypeProto})
     (\<lambda>x acc. Inr (acc @ [x])) [] []
     = Inr [exFileInfo True ''a/b/y.proto'' FileTypeProto True,
            exFileInfo True ''a/x.proto'' FileTypeProto True]"
proof -
  have a: "StatFileInfo exClassify exEqualsOrContainsPath (Plain (exBucket True [] [])) ''LICENSE''
     = Inr (exFileInfo True ''LICENSE'' FileTypeLicense True)"
    by (simp add: newFileInfo_def exClassify_def exBucket_def newModuleReadBucket_def
        exObject_def exFileInfo_def getIsTargetedFileForPath_def exModule_def exStorage_def)
  have b: "fiFileType (exFileInfo True ''LICENSE'' FileTypeLicense True) \<notin> {FileTypeProto}"
    by (simp add: exFileInfo_def)
  have c: "StatFileInfo exClassify exEqualsOrContainsPath (Plain (exBucket True [] []))
             ''missing.proto'' = Inl (PathError ''stat'' ''missing.proto'' ErrNotExist)"
    by (simp add: exBucket_def newModuleReadBucket_def exStorage_def)
  have w: "WalkFileInfos exClassify exEqualsOrContainsPath
     (Filtered (Plain (exBucket True [] [])) {FileTypeProto})
     (\<lambda>x acc. Inr (acc @ [x])) [] []
     = Inr [exFileInfo True ''a/b/y.proto'' FileTypeProto True,
            exFileInfo True ''a/x.proto'' FileTypeProto True]"
    by (simp add: newFileInfo_def exClassify_def exBucket_def newModuleReadBucket_def
        exObject_def exFileInfo_def getIsTargetedFileForPath_def exModule_def exStorage_def
        newWalkFileInfosOptions_def)
  note t = filtered_bucket_not_exist[OF a b]
  have s: "StatFileInfo exClassify exEqualsOrContainsPath
     (Filtered (Plain (exBucket True [] [])) {FileTypeProto}) ''LICENSE''
     = Inl (PathError ''stat'' ''LICENSE'' ErrNotExist)"
    using t by (rule conjunct1)
  have g: "GetFile exClassify exEqualsOrContainsPath
     (Filtered (Plain (exBucket True [] [])) {FileTypeProto}) ''LICENSE''
     = Inl (PathError ''stat'' ''LICENSE'' ErrNotExist)"
    using t[THEN conjunct2] by (rule conjunct1)
  have m: "StatFileInfo exClassify exEqualsOrContainsPath
     (Filtered (Plain (exBucket True [] [])) {FileTypeProto}) ''missing.proto''
     = Inl (PathError ''stat'' ''missing.proto'' ErrNotExist)"
    using t[THEN conjunct2, THEN conjunct2, THEN conjunct2, THEN conjunct1] c by blast
  have n: "FileTypeLicense \<notin> {FileTypeProto}" by simp
  show ?thesis
    using a n s g m w by (intro conjI)
qed

subsection \<open>Workspace resolution\<close>

lemma forEachE_append:
  "forEachE f (xs @ ys) s = (case forEachE f xs s of Inl e \<Rightarrow> Inl e | Inr s' \<Rightarrow> forEachE f ys s')"
  by (induction xs arbitrary: s) (auto split: sum.splits)

lemma forEachE_invariant:
  "forEachE f xs s = Inr s' \<Longrightarrow> I s \<Longrightarrow>
   (\<And>x s s'. x \<in> set xs \<Longrightarrow> I s \<Longrightarrow> f x s = Inr s' \<Longrightarrow> I s') \<Longrightarrow> I s'"
proof (induction xs arbitrary: s)
  case Nil
  then show ?case by simp
next
  case (Cons x xs)
  from Cons.prems(1) obtain s1 where s1: "f x s = Inr s1" and rest: "forEachE f xs s1 = Inr s'"
    by (auto split: sum.splits)
  have "I s1" using Cons.prems(2,3) s1 by auto
  then show ?case using Cons.IH[OF rest] Cons.prems(3) by auto
qed



lemma v1ReadBufLockFile_flags:
  "v1ReadBufLockFile env bucket d st = Inr st' \<Longrightarrow>
   hadIsTentativelyTargetModule st' = hadIsTentativelyTargetModule st \<and>
   hadIsTargetModule st' = hadIsTargetModule st \<and>
   allConfiguredDepModuleRefs st' = allConfiguredDepModuleRefs st \<and>
   moduleFullNameStringToConfiguredDepModuleRefString st' =
     moduleFullNameStringToConfiguredDepModuleRefString st"
  by (auto simp: v1ReadBufLockFile_def split: sum.splits option.splits if_splits)















lemma refsInv_init: "refsInv env initLoopState"
  by (simp add: refsInv_def initLoopState_def)

lemma refStep_Inr:
  assumes inv: "refsInv env st" and step: "configuredDepModuleRefStep env r st = Inr st'"
  shows "refsInv env st'"
    and "\<exists>a\<in>set (allConfiguredDepModuleRefs st').
           refModuleFullNameString env a = refModuleFullNameString env r \<and>
           refString env a = refString env r"
    and "set (allConfiguredDepModuleRefs st) \<subseteq> set (allConfiguredDepModuleRefs st')"
    and "set (allConfiguredDepModuleRefs st') \<subseteq> insert r (set (allConfiguredDepModuleRefs st))"
proof -
  let ?m = "moduleFullNameStringToConfiguredDepModuleRefString st"
  let ?n = "refModuleFullNameString env r"
  show "refsInv env st'"
  proof (cases "?m ?n")
    case None
    then have st': "st' = st\<lparr> allConfiguredDepModuleRefs := allConfiguredDepModuleRefs st @ [r],
                      moduleFullNameStringToConfiguredDepModuleRefString := ?m(?n \<mapsto> refString env r) \<rparr>"
      using step by (simp add: configuredDepModuleRefStep_def Let_def)
    have notin: "?n \<notin> refModuleFullNameString env ` set (allConfiguredDepModuleRefs st)"
    proof
      assume "?n \<in> refModuleFullNameString env ` set (allConfiguredDepModuleRefs st)"
      then obtain a where "a \<in> set (allConfiguredDepModuleRefs st)"
        and "refModuleFullNameString env a = ?n" by auto
      then have "?m ?n = Some (refString env a)" using inv unfolding refsInv_def by blast
      then show False using None by simp
    qed
    show ?thesis
      unfolding refsInv_def st' using inv notin unfolding refsInv_def
      by (auto simp: image_iff)
  next
    case (Some e)
    then have "st' = st" using step
      by (simp add: configuredDepModuleRefStep_def Let_def split: if_splits)
    then show ?thesis using inv by simp
  qed
  show "\<exists>a\<in>set (allConfiguredDepModuleRefs st').
           refModuleFullNameString env a = refModuleFullNameString env r \<and>
           refString env a = refString env r"
  proof (cases "?m ?n")
    case None
    then show ?thesis using step by (auto simp: configuredDepModuleRefStep_def Let_def)
  next
    case (Some e)
    then have eq: "st' = st" "refString env r = e" using step
      by (auto simp: configuredDepModuleRefStep_def Let_def split: if_splits)
    from Some inv have "\<exists>a\<in>set (allConfiguredDepModuleRefs st).
            refModuleFullNameString env a = ?n \<and> refString env a = e"
      unfolding refsInv_def by blast
    then show ?thesis using eq by simp
  qed
  show "set (allConfiguredDepModuleRefs st) \<subseteq> set (allConfiguredDepModuleRefs st')"
    using step by (auto simp: configuredDepModuleRefStep_def Let_def split: option.splits if_splits)
  show "set (allConfiguredDepModuleRefs st') \<subseteq> insert r (set (allConfiguredDepModuleRefs st))"
    using step by (auto simp: configuredDepModuleRefStep_def Let_def split: option.splits if_splits)
qed

lemma refStep_Inl:
  assumes inv: "refsInv env st" and step: "configuredDepModuleRefStep env r st = Inl e"
  shows "\<exists>a\<in>set (allConfiguredDepModuleRefs st).
           refsConflict env r a \<and> e = DifferentRefs (refString env r) (refString env a)"
proof -
  from step obtain x where
    m: "moduleFullNameStringToConfiguredDepModuleRefString st (refModuleFullNameString env r) = Some x"
    and ne: "refString env r \<noteq> x" and e: "e = DifferentRefs (refString env r) x"
    by (auto simp: configuredDepModuleRefStep_def Let_def split: option.splits if_splits)
  from m inv obtain a where a: "a \<in> set (allConfiguredDepModuleRefs st)"
    "refModuleFullNameString env a = refModuleFullNameString env r" "refString env a = x"
    unfolding refsInv_def by blast
  have "refsConflict env r a \<and> e = DifferentRefs (refString env r) (refString env a)"
    using a ne e by (simp add: refsConflict_def)
  then show ?thesis using a(1) by blast
qed

lemma refStep_conflict_fails:
  assumes inv: "refsInv env st" and a: "a \<in> set (allConfiguredDepModuleRefs st)"
    and c: "refsConflict env r a"
  shows "\<exists>e. configuredDepModuleRefStep env r st = Inl e"
proof -
  have "moduleFullNameStringToConfiguredDepModuleRefString st (refModuleFullNameString env r)
          = Some (refString env a)"
    using inv a c unfolding refsInv_def refsConflict_def by metis
  then show ?thesis using c
    by (simp add: configuredDepModuleRefStep_def Let_def refsConflict_def)
qed

lemma refLoop_Inr:
  "refsInv env st \<Longrightarrow> forEachE (configuredDepModuleRefStep env) refs st = Inr st' \<Longrightarrow>
   refsInv env st' \<and>
   set (allConfiguredDepModuleRefs st) \<subseteq> set (allConfiguredDepModuleRefs st') \<and>
   set (allConfiguredDepModuleRefs st') \<subseteq> set (allConfiguredDepModuleRefs st) \<union> set refs \<and>
   (\<forall>r\<in>set refs. \<exists>a\<in>set (allConfiguredDepModuleRefs st').
       refModuleFullNameString env a = refModuleFullNameString env r \<and>
       refString env a = refString env r)"
proof (induction refs arbitrary: st)
  case Nil
  then show ?case by simp
next
  case (Cons r refs)
  from Cons.prems(2) obtain s1 where s1: "configuredDepModuleRefStep env r st = Inr s1"
    and rest: "forEachE (configuredDepModuleRefStep env) refs s1 = Inr st'"
    by (auto split: sum.splits)
  note h = refStep_Inr[OF Cons.prems(1) s1]
  note ih = Cons.IH[OF h(1) rest]
  show ?case
  proof (intro conjI ballI)
    show "refsInv env st'" using ih by simp
    show "set (allConfiguredDepModuleRefs st) \<subseteq> set (allConfiguredDepModuleRefs st')"
      using ih h(3) by blast
    show "set (allConfiguredDepModuleRefs st')
            \<subseteq> set (allConfiguredDepModuleRefs st) \<union> set (r # refs)"
      using ih h(4) by auto
  next
    fix x assume "x \<in> set (r # refs)"
    then show "\<exists>a\<in>set (allConfiguredDepModuleRefs st').
       refModuleFullNameString env a = refModuleFullNameString env x \<and>
       refString env a = refString env x"
      using ih h(2) by auto
  qed
qed

lemma refLoop_Inl:
  "refsInv env st \<Longrightarrow> forEachE (configuredDepModuleRefStep env) refs st = Inl e \<Longrightarrow>
   \<exists>r\<in>set refs. \<exists>a\<in>set (allConfiguredDepModuleRefs st) \<union> set refs.
      refsConflict env r a \<and> e = DifferentRefs (refString env r) (refString env a)"
proof (induction refs arbitrary: st)
  case Nil
  then show ?case by simp
next
  case (Cons r refs)
  show ?case
  proof (cases "configuredDepModuleRefStep env r st")
    case (Inl e')
    then have "e' = e" using Cons.prems(2) by simp
    then show ?thesis using refStep_Inl[OF Cons.prems(1)] Inl by auto
  next
    case (Inr s1)
    then have rest: "forEachE (configuredDepModuleRefStep env) refs s1 = Inl e"
      using Cons.prems(2) by simp
    note h = refStep_Inr[OF Cons.prems(1) Inr]
    from Cons.IH[OF h(1) rest] obtain x a where x: "x \<in> set refs"
      and a: "a \<in> set (allConfiguredDepModuleRefs s1) \<union> set refs"
      and c: "refsConflict env x a" and e: "e = DifferentRefs (refString env x) (refString env a)"
      by blast
    from a h(4) have "a \<in> set (allConfiguredDepModuleRefs st) \<union> set (r # refs)" by auto
    then show ?thesis using x c e by auto
  qed
qed

lemma refsConflict_sym: "refsConflict env a b \<Longrightarrow> refsConflict env b a"
  by (auto simp: refsConflict_def)

lemma refsInv_no_conflict:
  "refsInv env st \<Longrightarrow> a \<in> set (allConfiguredDepModuleRefs st) \<Longrightarrow>
   b \<in> set (allConfiguredDepModuleRefs st) \<Longrightarrow> \<not> refsConflict env a b"
  unfolding refsInv_def refsConflict_def by (metis option.inject)

lemma refLoop_conflict_fails:
  "refsInv env st \<Longrightarrow>
   \<exists>r\<in>set refs. \<exists>a\<in>set (allConfiguredDepModuleRefs st) \<union> set refs. refsConflict env r a \<Longrightarrow>
   \<exists>e. forEachE (configuredDepModuleRefStep env) refs st = Inl e"
proof (rule ccontr)
  assume inv: "refsInv env st"
    and c: "\<exists>r\<in>set refs. \<exists>a\<in>set (allConfiguredDepModuleRefs st) \<union> set refs. refsConflict env r a"
    and n: "\<not> (\<exists>e. forEachE (configuredDepModuleRefStep env) refs st = Inl e)"
  then obtain st' where ok: "forEachE (configuredDepModuleRefStep env) refs st = Inr st'"
    by (cases "forEachE (configuredDepModuleRefStep env) refs st") auto
  note h = refLoop_Inr[OF inv ok]
  from c obtain r a where r: "r \<in> set refs"
    and a: "a \<in> set (allConfiguredDepModuleRefs st) \<union> set refs" and rc: "refsConflict env r a"
    by blast
  from h r obtain r' where r': "r' \<in> set (allConfiguredDepModuleRefs st')"
    "refModuleFullNameString env r' = refModuleFullNameString env r"
    "refString env r' = refString env r" by blast
  from h a obtain a' where a': "a' \<in> set (allConfiguredDepModuleRefs st')"
    "refModuleFullNameString env a' = refModuleFullNameString env a"
    "refString env a' = refString env a" by blast
  have "refsConflict env r' a'" using rc r' a' by (simp add: refsConflict_def)
  then show False using refsInv_no_conflict[of env st' r' a'] h r'(1) a'(1) by blast
qed


lemma refsInv_cong:
  "allConfiguredDepModuleRefs st' = allConfiguredDepModuleRefs st \<Longrightarrow>
   moduleFullNameStringToConfiguredDepModuleRefString st' =
     moduleFullNameStringToConfiguredDepModuleRefString st \<Longrightarrow>
   refsInv env st' = refsInv env st"
  by (simp add: refsInv_def)

lemma v1ModuleDirStep_refs_Inr:
  assumes "v1ModuleDirStep env bucket config ov d st = Inr st'"
  shows "\<exists>mc refs st1.
           getModuleConfigAndConfiguredDepModuleRefsV1Beta1OrV1 env bucket d ov = Inr (mc, refs) \<and>
           forEachE (configuredDepModuleRefStep env) refs st = Inr st1 \<and>
           allConfiguredDepModuleRefs st' = allConfiguredDepModuleRefs st1 \<and>
           moduleFullNameStringToConfiguredDepModuleRefString st' =
             moduleFullNameStringToConfiguredDepModuleRefString st1"
proof -
  from assms obtain mc refs st1 st3 where
    cfg: "getModuleConfigAndConfiguredDepModuleRefsV1Beta1OrV1 env bucket d ov = Inr (mc, refs)"
    and inner: "forEachE (configuredDepModuleRefStep env) refs st = Inr st1"
    and lock: "v1ReadBufLockFile env bucket d
                 (st1\<lparr> bucketIDToModuleConfig := (bucketIDToModuleConfig st1)(d \<mapsto> mc) \<rparr>) = Inr st3"
    and a: "allConfiguredDepModuleRefs st' = allConfiguredDepModuleRefs st3"
    and m: "moduleFullNameStringToConfiguredDepModuleRefString st' =
             moduleFullNameStringToConfiguredDepModuleRefString st3"
    unfolding v1ModuleDirStep_def Let_def
    by (auto split: sum.splits prod.splits if_splits)
  show ?thesis using cfg inner a m v1ReadBufLockFile_flags[OF lock] by auto
qed

lemma v1ModuleDirStep_refs_Inl:
  "getModuleConfigAndConfiguredDepModuleRefsV1Beta1OrV1 env bucket d ov = Inr (mc, refs) \<Longrightarrow>
   forEachE (configuredDepModuleRefStep env) refs st = Inl e \<Longrightarrow>
   v1ModuleDirStep env bucket config ov d st = Inl e"
  by (simp add: v1ModuleDirStep_def)

lemma v1_loop_refs:
  "refsInv env st \<Longrightarrow> forEachE (v1ModuleDirStep env bucket config ov) dirs st = Inr st' \<Longrightarrow>
   refsInv env st' \<and>
   set (allConfiguredDepModuleRefs st) \<subseteq> set (allConfiguredDepModuleRefs st') \<and>
   set (allConfiguredDepModuleRefs st') \<subseteq>
     set (allConfiguredDepModuleRefs st) \<union>
     set (concat (map (v1ConfiguredDepModuleRefs env bucket ov) dirs)) \<and>
   (\<forall>r\<in>set (concat (map (v1ConfiguredDepModuleRefs env bucket ov) dirs)).
      \<exists>a\<in>set (allConfiguredDepModuleRefs st').
        refModuleFullNameString env a = refModuleFullNameString env r \<and>
        refString env a = refString env r)"
proof (induction dirs arbitrary: st)
  case Nil
  then show ?case by simp
next
  case (Cons d dirs)
  from Cons.prems(2) obtain s1 where s1: "v1ModuleDirStep env bucket config ov d st = Inr s1"
    and rest: "forEachE (v1ModuleDirStep env bucket config ov) dirs s1 = Inr st'"
    by (auto split: sum.splits)
  from v1ModuleDirStep_refs_Inr[OF s1] obtain mc refs st1 where
    cfg: "getModuleConfigAndConfiguredDepModuleRefsV1Beta1OrV1 env bucket d ov = Inr (mc, refs)"
    and inner: "forEachE (configuredDepModuleRefStep env) refs st = Inr st1"
    and a: "allConfiguredDepModuleRefs s1 = allConfiguredDepModuleRefs st1"
    and m: "moduleFullNameStringToConfiguredDepModuleRefString s1 =
             moduleFullNameStringToConfiguredDepModuleRefString st1"
    by blast
  have refs: "v1ConfiguredDepModuleRefs env bucket ov d = refs"
    using cfg by (simp add: v1ConfiguredDepModuleRefs_def)
  note h = refLoop_Inr[OF Cons.prems(1) inner]
  have inv1: "refsInv env s1" using h refsInv_cong[OF a m, of env] by blast
  note ih = Cons.IH[OF inv1 rest]
  let ?I = "set (concat (map (v1ConfiguredDepModuleRefs env bucket ov) dirs))"
  have sub: "set (allConfiguredDepModuleRefs s1) \<subseteq> set (allConfiguredDepModuleRefs st')"
    using ih by blast
  show ?case
  proof (intro conjI ballI)
    show "refsInv env st'" using ih by simp
    show "set (allConfiguredDepModuleRefs st) \<subseteq> set (allConfiguredDepModuleRefs st')"
      using h a sub by auto
    show "set (allConfiguredDepModuleRefs st') \<subseteq>
            set (allConfiguredDepModuleRefs st) \<union>
            set (concat (map (v1ConfiguredDepModuleRefs env bucket ov) (d # dirs)))"
      using ih h a refs by auto
  next
    fix r
    assume "r \<in> set (concat (map (v1ConfiguredDepModuleRefs env bucket ov) (d # dirs)))"
    then consider "r \<in> set refs" | "r \<in> ?I" using refs by auto
    then show "\<exists>a\<in>set (allConfiguredDepModuleRefs st').
        refModuleFullNameString env a = refModuleFullNameString env r \<and>
        refString env a = refString env r"
    proof cases
      case 1
      then obtain x where "x \<in> set (allConfiguredDepModuleRefs st1)"
        "refModuleFullNameString env x = refModuleFullNameString env r"
        "refString env x = refString env r" using h by blast
      then show ?thesis using a sub by auto
    next
      case 2
      then show ?thesis using ih by blast
    qed
  qed
qed

lemma v1_loop_conflict_fails:
  assumes inv: "refsInv env st"
    and c: "\<exists>r1\<in>set (concat (map (v1ConfiguredDepModuleRefs env bucket ov) dirs)).
            \<exists>r2\<in>set (concat (map (v1ConfiguredDepModuleRefs env bucket ov) dirs)).
              refsConflict env r1 r2"
  shows "\<exists>e. forEachE (v1ModuleDirStep env bucket config ov) dirs st = Inl e"
proof (rule ccontr)
  assume "\<not> (\<exists>e. forEachE (v1ModuleDirStep env bucket config ov) dirs st = Inl e)"
  then obtain st' where ok: "forEachE (v1ModuleDirStep env bucket config ov) dirs st = Inr st'"
    by (cases "forEachE (v1ModuleDirStep env bucket config ov) dirs st") auto
  note h = v1_loop_refs[OF inv ok]
  from c obtain r1 r2 where
    r1: "r1 \<in> set (concat (map (v1ConfiguredDepModuleRefs env bucket ov) dirs))"
    and r2: "r2 \<in> set (concat (map (v1ConfiguredDepModuleRefs env bucket ov) dirs))"
    and rc: "refsConflict env r1 r2" by blast
  from h r1 obtain a1 where a1: "a1 \<in> set (allConfiguredDepModuleRefs st')"
    "refModuleFullNameString env a1 = refModuleFullNameString env r1"
    "refString env a1 = refString env r1" by blast
  from h r2 obtain a2 where a2: "a2 \<in> set (allConfiguredDepModuleRefs st')"
    "refModuleFullNameString env a2 = refModuleFullNameString env r2"
    "refString env a2 = refString env r2" by blast
  have "refsConflict env a1 a2" using rc a1 a2 by (simp add: refsConflict_def)
  then show False using refsInv_no_conflict[of env st' a1 a2] h a1(1) a2(1) by blast
qed

lemma getWorkspaceV1_Inr:
  assumes "getWorkspaceForBucketAndModuleDirPathsV1Beta1OrV1 env bucket config dirs ov = Inr ws"
  shows "\<exists>st. forEachE (v1ModuleDirStep env bucket config ov) dirs initLoopState = Inr st \<and>
              wsConfiguredDepModuleRefs ws = allConfiguredDepModuleRefs st"
  using assms
  unfolding getWorkspaceForBucketAndModuleDirPathsV1Beta1OrV1_def finishWorkspace_def
    getWorkspaceForBucketModuleSet_def
  by (auto split: sum.splits if_splits prod.splits)


text \<open>
  Claim C7. In the v1 workspace path the configured dependency refs of all module
  directories are merged by module name. If two of them name the same ModuleFullName with
  different ref strings, the function never returns a workspace; at the first directory
  whose refs conflict with the refs kept so far (or among themselves) it returns the
  explicit error \<open>DifferentRefs\<close> carrying the two conflicting ref strings. When it does
  return a workspace, its configured dependency refs have pairwise different module names,
  all come from the configured refs, and every configured ref is represented by an entry
  with the same module name and the same ref string: equal refs are kept once.
\<close>

theorem conflicting_refs_fail:
  "((\<exists>r1\<in>set (concat (map (v1ConfiguredDepModuleRefs env bucket ov) dirs)).
     \<exists>r2\<in>set (concat (map (v1ConfiguredDepModuleRefs env bucket ov) dirs)).
       refsConflict env r1 r2) \<longrightarrow>
    (\<exists>e. getWorkspaceForBucketAndModuleDirPathsV1Beta1OrV1 env bucket config dirs ov = Inl e)) \<and>
   (\<forall>ds1 d ds2 st mc refs.
      dirs = ds1 @ d # ds2 \<and>
      forEachE (v1ModuleDirStep env bucket config ov) ds1 initLoopState = Inr st \<and>
      getModuleConfigAndConfiguredDepModuleRefsV1Beta1OrV1 env bucket d ov = Inr (mc, refs) \<and>
      (\<exists>r\<in>set refs. \<exists>a\<in>set (allConfiguredDepModuleRefs st) \<union> set refs.
         refsConflict env r a) \<longrightarrow>
      (\<exists>r a. refsConflict env r a \<and>
         getWorkspaceForBucketAndModuleDirPathsV1Beta1OrV1 env bucket config dirs ov
           = Inl (DifferentRefs (refString env r) (refString env a)))) \<and>
   (\<forall>ws. getWorkspaceForBucketAndModuleDirPathsV1Beta1OrV1 env bucket config dirs ov = Inr ws \<longrightarrow>
      distinct (map (refModuleFullNameString env) (wsConfiguredDepModuleRefs ws)) \<and>
      set (wsConfiguredDepModuleRefs ws) \<subseteq>
        set (concat (map (v1ConfiguredDepModuleRefs env bucket ov) dirs)) \<and>
      (\<forall>r\<in>set (concat (map (v1ConfiguredDepModuleRefs env bucket ov) dirs)).
         \<exists>a\<in>set (wsConfiguredDepModuleRefs ws).
           refModuleFullNameString env a = refModuleFullNameString env r \<and>
           refString env a = refString env r))"
proof (intro conjI impI allI)
  assume "\<exists>r1\<in>set (concat (map (v1ConfiguredDepModuleRefs env bucket ov) dirs)).
     \<exists>r2\<in>set (concat (map (v1ConfiguredDepModuleRefs env bucket ov) dirs)).
       refsConflict env r1 r2"
  from v1_loop_conflict_fails[OF refsInv_init this, of config]
  obtain e where "forEachE (v1ModuleDirStep env bucket config ov) dirs initLoopState = Inl e"
    by blast
  then show "\<exists>e. getWorkspaceForBucketAndModuleDirPathsV1Beta1OrV1 env bucket config dirs ov = Inl e"
    by (simp add: getWorkspaceForBucketAndModuleDirPathsV1Beta1OrV1_def)
next
  fix ds1 d ds2 st mc refs
  assume h: "dirs = ds1 @ d # ds2 \<and>
      forEachE (v1ModuleDirStep env bucket config ov) ds1 initLoopState = Inr st \<and>
      getModuleConfigAndConfiguredDepModuleRefsV1Beta1OrV1 env bucket d ov = Inr (mc, refs) \<and>
      (\<exists>r\<in>set refs. \<exists>a\<in>set (allConfiguredDepModuleRefs st) \<union> set refs.
         refsConflict env r a)"
  then have dirs: "dirs = ds1 @ d # ds2"
    and pre: "forEachE (v1ModuleDirStep env bucket config ov) ds1 initLoopState = Inr st"
    and cfg: "getModuleConfigAndConfiguredDepModuleRefsV1Beta1OrV1 env bucket d ov = Inr (mc, refs)"
    and c: "\<exists>r\<in>set refs. \<exists>a\<in>set (allConfiguredDepModuleRefs st) \<union> set refs.
         refsConflict env r a"
    by blast+
  have inv: "refsInv env st" using v1_loop_refs[OF refsInv_init pre] by blast
  from refLoop_conflict_fails[OF inv c] obtain e where
    e: "forEachE (configuredDepModuleRefStep env) refs st = Inl e" by blast
  from refLoop_Inl[OF inv e] obtain r a where rc: "refsConflict env r a"
    and ee: "e = DifferentRefs (refString env r) (refString env a)" by blast
  have "v1ModuleDirStep env bucket config ov d st = Inl e"
    using v1ModuleDirStep_refs_Inl[OF cfg e] .
  then have "forEachE (v1ModuleDirStep env bucket config ov) dirs initLoopState = Inl e"
    using pre dirs by (simp add: forEachE_append)
  then have "getWorkspaceForBucketAndModuleDirPathsV1Beta1OrV1 env bucket config dirs ov = Inl e"
    by (simp add: getWorkspaceForBucketAndModuleDirPathsV1Beta1OrV1_def)
  then show "\<exists>r a. refsConflict env r a \<and>
         getWorkspaceForBucketAndModuleDirPathsV1Beta1OrV1 env bucket config dirs ov
           = Inl (DifferentRefs (refString env r) (refString env a))"
    using rc ee by blast
next
  fix ws
  assume w: "getWorkspaceForBucketAndModuleDirPathsV1Beta1OrV1 env bucket config dirs ov = Inr ws"
  from getWorkspaceV1_Inr[OF w] obtain st where
    l: "forEachE (v1ModuleDirStep env bucket config ov) dirs initLoopState = Inr st"
    and r: "wsConfiguredDepModuleRefs ws = allConfiguredDepModuleRefs st" by blast
  note h = v1_loop_refs[OF refsInv_init l]
  show "distinct (map (refModuleFullNameString env) (wsConfiguredDepModuleRefs ws))"
    using h r by (simp add: refsInv_def)
  show "set (wsConfiguredDepModuleRefs ws) \<subseteq>
        set (concat (map (v1ConfiguredDepModuleRefs env bucket ov) dirs))"
    using h r by (simp add: initLoopState_def)
  show "\<forall>r\<in>set (concat (map (v1ConfiguredDepModuleRefs env bucket ov) dirs)).
         \<exists>a\<in>set (wsConfiguredDepModuleRefs ws).
           refModuleFullNameString env a = refModuleFullNameString env r \<and>
           refString env a = refString env r"
    using h r by simp
qed


theorem conflicting_refs_fail_witness:
  "refsConflict (exWsEnv (exYamls ''v1'' ''v2'') (\<lambda>d. Inl ErrNotExist))
     (''buf.build/acme/dep'', ''v2'') (''buf.build/acme/dep'', ''v1'') \<and>
   (\<exists>e. getWorkspaceForBucketAndModuleDirPathsV1Beta1OrV1
          (exWsEnv (exYamls ''v1'' ''v2'') (\<lambda>d. Inl ErrNotExist)) [] (exConfig ''.'' [])
          [''a'', ''b''] None = Inl e) \<and>
   getWorkspaceForBucketAndModuleDirPathsV1Beta1OrV1
     (exWsEnv (exYamls ''v1'' ''v2'') (\<lambda>d. Inl ErrNotExist)) [] (exConfig ''.'' [])
     [''a'', ''b''] None
     = Inl (DifferentRefs ''buf.build/acme/dep:v2'' ''buf.build/acme/dep:v1'') \<and>
   (\<exists>ws. getWorkspaceForBucketAndModuleDirPathsV1Beta1OrV1
          (exWsEnv (exYamls ''v1'' ''v1'') (\<lambda>d. Inl ErrNotExist)) [] (exConfig ''.'' [])
          [''a'', ''b''] None = Inr ws \<and>
        wsConfiguredDepModuleRefs ws = [(''buf.build/acme/dep'', ''v1'')] \<and>
        distinct (map (refModuleFullNameString
                         (exWsEnv (exYamls ''v1'' ''v1'') (\<lambda>d. Inl ErrNotExist)))
                    (wsConfiguredDepModuleRefs ws)))"
proof -
  let ?E = "exWsEnv (exYamls ''v1'' ''v2'') (\<lambda>d. Inl ErrNotExist)"
  let ?F = "exWsEnv (exYamls ''v1'' ''v1'') (\<lambda>d. Inl ErrNotExist)"
  note defs = v1ModuleDirStep_def exWsEnv_def exConfig_def exYamls_def
      initLoopState_def getModuleConfigAndConfiguredDepModuleRefsV1Beta1OrV1_def
      v1ConfigOfBufYAMLFile_def configuredDepModuleRefStep_def
      v1ReadBufLockFile_def exBufYAMLFile_def
      isTargetFunc_def exEqualsOrContainsPath_def getMappedModuleBucketAndModuleTargeting_def
      newModuleTargeting_def exModuleConfig_def targetPathStep_def exContainsPath_def Let_def
      getWorkspaceForBucketAndModuleDirPathsV1Beta1OrV1_def finishWorkspace_def
      getWorkspaceForBucketModuleSet_def moduleSetStep_def exBuild_def
  have c: "refsConflict ?E (''buf.build/acme/dep'', ''v2'') (''buf.build/acme/dep'', ''v1'')"
    by (simp add: refsConflict_def exWsEnv_def)
  have i: "concat (map (v1ConfiguredDepModuleRefs ?E [] None) [''a'', ''b''])
             = [(''buf.build/acme/dep'', ''v1''), (''buf.build/acme/dep'', ''v2'')]"
    by (simp add: v1ConfiguredDepModuleRefs_def defs)
  have cc: "\<exists>r1\<in>set (concat (map (v1ConfiguredDepModuleRefs ?E [] None) [''a'', ''b''])).
            \<exists>r2\<in>set (concat (map (v1ConfiguredDepModuleRefs ?E [] None) [''a'', ''b''])).
              refsConflict ?E r1 r2"
    unfolding i using c by simp
  have f: "\<exists>e. getWorkspaceForBucketAndModuleDirPathsV1Beta1OrV1 ?E [] (exConfig ''.'' [])
          [''a'', ''b''] None = Inl e"
    using conflicting_refs_fail[where env = ?E and bucket = "[]" and ov = None
        and dirs = "[''a'', ''b'']" and config = "exConfig ''.'' []",
        THEN conjunct1, rule_format, OF cc] .
  have v: "getWorkspaceForBucketAndModuleDirPathsV1Beta1OrV1 ?E [] (exConfig ''.'' [])
     [''a'', ''b''] None
     = Inl (DifferentRefs ''buf.build/acme/dep:v2'' ''buf.build/acme/dep:v1'')"
    by (simp add: defs)
  have ok: "\<exists>ws. getWorkspaceForBucketAndModuleDirPathsV1Beta1OrV1 ?F [] (exConfig ''.'' [])
          [''a'', ''b''] None = Inr ws \<and>
          wsConfiguredDepModuleRefs ws = [(''buf.build/acme/dep'', ''v1'')]"
    by (simp add: defs)
  then obtain ws where w: "getWorkspaceForBucketAndModuleDirPathsV1Beta1OrV1 ?F []
          (exConfig ''.'' []) [''a'', ''b''] None = Inr ws"
    and r: "wsConfiguredDepModuleRefs ws = [(''buf.build/acme/dep'', ''v1'')]" by blast
  have d: "distinct (map (refModuleFullNameString ?F) (wsConfiguredDepModuleRefs ws))"
    using conflicting_refs_fail[where env = ?F and bucket = "[]" and ov = None
        and dirs = "[''a'', ''b'']" and config = "exConfig ''.'' []",
        THEN conjunct2, THEN conjunct2, rule_format, OF w, THEN conjunct1] .
  show ?thesis using c f v w r d by blast
qed


lemma v1ReadBufLockFile_accepts_v2:
  "GetBufLockFileForPrefix env bucket d = Inr bufLockFile \<Longrightarrow>
   blFileVersion bufLockFile = FileVersionV2 \<Longrightarrow>
   v1ReadBufLockFile env bucket d st =
     Inr (st\<lparr> builder := builder st @
            map (\<lambda>depModuleKey. AddRemoteModule depModuleKey False)
              (blDepModuleKeys bufLockFile) \<rparr>)"
  by (simp add: v1ReadBufLockFile_def v1BufLockFileVersionSwitch_def)

lemma v1BufLockFileVersionSwitch_no_mismatch:
  "v1BufLockFileVersionSwitch v \<noteq> Some (LockFileVersionMismatch v')"
  by (cases v) (simp_all add: v1BufLockFileVersionSwitch_def)

lemma v2_rejects_v1_lock:
  "v2BufYAMLFile env (MapOnPrefix env bucket dirPath) ov = Inr y \<Longrightarrow>
   GetBufLockFileForPrefix env (MapOnPrefix env bucket dirPath) ''.'' = Inr bufLockFile \<Longrightarrow>
   blFileVersion bufLockFile = FileVersionV1 \<or> blFileVersion bufLockFile = FileVersionV1Beta1 \<Longrightarrow>
   getWorkspaceForBucketBufYAMLV2 env bucket config dirPath ov
     = Inl (LockFileVersionMismatch (blFileVersion bufLockFile))"
  by (auto simp: getWorkspaceForBucketBufYAMLV2_def v2ReadBufLockFile_def
      v2BufLockFileVersionSwitch_def Let_def)

text \<open>
  Claim C5 says that a lock file whose version disagrees with the governing config version
  is a hard version-mismatch error in both directions. The v2 path does so: a v1 or
  v1beta1 buf.lock under a v2 buf.yaml returns \<open>LockFileVersionMismatch\<close>
  (\<open>v2_rejects_v1_lock\<close>). The v1 path does not: its switch has no error for
  \<open>FileVersionV2\<close> (the return is commented out, "re-enable once we fix tests"), so a v2
  buf.lock under a v1 buf.yaml is read and its dependency keys are added to the builder
  (\<open>v1ReadBufLockFile_accepts_v2\<close>). Evaluated on a workspace with one module directory,
  a v1 buf.yaml and a v2 buf.lock with one dependency: the v1 path returns a workspace
  whose module set holds the dependency and the local module, while the v2 path on a v1
  buf.lock returns the mismatch error.
\<close>

theorem v1_buf_yaml_accepts_v2_buf_lock:
  "(case getWorkspaceForBucketAndModuleDirPathsV1Beta1OrV1
           (exWsEnv (\<lambda>d. Inr (exBufYAMLFile FileVersionV1 [d] []))
                    (\<lambda>d. Inr (exBufLockFile FileVersionV2 [''buf.build/acme/dep''])))
           [] (exConfig ''.'' []) [''.''] None of
      Inl e \<Rightarrow> False
    | Inr ws \<Rightarrow>
        wsModuleSet ws = [\<lparr> BucketID = [], OpaqueID = ''buf.build/acme/dep'' \<rparr>,
                          \<lparr> BucketID = ''.'', OpaqueID = ''.'' \<rparr>]) \<and>
   getWorkspaceForBucketBufYAMLV2
     (exWsEnv (\<lambda>d. Inl ErrNotExist)
              (\<lambda>d. Inr (exBufLockFile FileVersionV1 [''buf.build/acme/dep''])))
     [] (exConfig ''.'' []) ''.'' (Some (exBufYAMLFile FileVersionV2 [''.''] []))
     = Inl (LockFileVersionMismatch FileVersionV1)"
  by (simp add: v1ModuleDirStep_def exWsEnv_def exConfig_def
      initLoopState_def getModuleConfigAndConfiguredDepModuleRefsV1Beta1OrV1_def
      v1ConfigOfBufYAMLFile_def v1ReadBufLockFile_def exBufYAMLFile_def exBufLockFile_def
      v1BufLockFileVersionSwitch_def v2BufLockFileVersionSwitch_def
      isTargetFunc_def exEqualsOrContainsPath_def getMappedModuleBucketAndModuleTargeting_def
      newModuleTargeting_def exModuleConfig_def Let_def
      getWorkspaceForBucketAndModuleDirPathsV1Beta1OrV1_def finishWorkspace_def
      getWorkspaceForBucketModuleSet_def moduleSetStep_def exBuild_def
      getWorkspaceForBucketBufYAMLV2_def v2BufYAMLFile_def v2ReadBufLockFile_def)


subsection \<open>ModuleData\<close>

lemma mdGetBucket_Done:
  "getBucketCell m = Done r \<Longrightarrow> mdGetBucket m = (r, m)"
  by (simp add: mdGetBucket_def OnceValue_def)

lemma mdGetBucket_result:
  "mdGetBucket m = (r, m') \<Longrightarrow>
   getBucketCell m' = Done r \<and> mdArgs m' = mdArgs m \<and>
   getDeclaredDepModuleKeysCell m' = getDeclaredDepModuleKeysCell m \<and>
   checkDigestCell m' = checkDigestCell m"
  by (auto simp: mdGetBucket_def OnceValue_def split: onceCell.splits prod.splits sum.splits)

lemma mdGetDeclaredDepModuleKeys_Done:
  "getDeclaredDepModuleKeysCell m = Done r \<Longrightarrow> mdGetDeclaredDepModuleKeys m = (r, m)"
  by (simp add: mdGetDeclaredDepModuleKeys_def OnceValue_def)

lemma mdGetDeclaredDepModuleKeys_result:
  "mdGetDeclaredDepModuleKeys m = (r, m') \<Longrightarrow>
   getDeclaredDepModuleKeysCell m' = Done r \<and> mdArgs m' = mdArgs m \<and>
   getBucketCell m' = getBucketCell m \<and>
   checkDigestCell m' = checkDigestCell m"
  by (auto simp: mdGetDeclaredDepModuleKeys_def OnceValue_def
      split: onceCell.splits prod.splits sum.splits)

lemma checkDigestBody_result:
  assumes "checkDigestBody m = (r, m')"
  shows "mdArgs m' = mdArgs m" and "checkDigestCell m' = checkDigestCell m"
    and "r = None \<Longrightarrow> \<exists>b ks. digestChecked m' b ks"
proof -
  obtain rb m1 where b: "mdGetBucket m = (rb, m1)" by (cases "mdGetBucket m")
  note hb = mdGetBucket_result[OF b]
  obtain rk m2 where k: "mdGetDeclaredDepModuleKeys m1 = (rk, m2)"
    by (cases "mdGetDeclaredDepModuleKeys m1")
  note hk = mdGetDeclaredDepModuleKeys_result[OF k]
  have m': "m' = m1 \<or> m' = m2"
    using assms b k unfolding checkDigestBody_def
    by (auto split: sum.splits if_splits)
  show "mdArgs m' = mdArgs m" using m' hb hk by auto
  show "checkDigestCell m' = checkDigestCell m" using m' hb hk by auto
  show "\<exists>b ks. digestChecked m' b ks" if "r = None"
  proof -
    from that assms b k obtain bucket ks d d' where
      "rb = Inr bucket" "rk = Inr ks" "m' = m2"
      "moduleKeyDigest (mdArgs m2) = Inr d" "getB5Digest (mdArgs m2) bucket ks = Inr d'"
      "DigestEqual (mdArgs m2) d d'"
      unfolding checkDigestBody_def by (auto split: sum.splits if_splits)
    then have "digestChecked m' bucket ks"
      using hb hk by (simp add: digestChecked_def)
    then show ?thesis by blast
  qed
qed

lemma digestChecked_checkCell_update:
  "digestChecked (m\<lparr> checkDigestCell := c \<rparr>) b ks = digestChecked m b ks"
  by (simp add: digestChecked_def split: sum.splits)

lemma checkDigest_Done:
  "checkDigestCell m = Done r \<Longrightarrow> checkDigest m = (r, m)"
  by (simp add: checkDigest_def OnceValue_def)

lemma checkDigest_result:
  assumes "checkDigest m = (r, m')"
  shows "checkDigestCell m' = Done r" and "mdArgs m' = mdArgs m"
    and "checkDigestCell m = NotRun \<Longrightarrow> r = None \<Longrightarrow> \<exists>b ks. digestChecked m' b ks"
proof -
  show "checkDigestCell m' = Done r" using assms
    by (auto simp: checkDigest_def OnceValue_def split: onceCell.splits prod.splits)
  show "mdArgs m' = mdArgs m" using assms checkDigestBody_result(1)
    by (fastforce simp: checkDigest_def OnceValue_def split: onceCell.splits prod.splits)
  show "\<exists>b ks. digestChecked m' b ks" if "checkDigestCell m = NotRun" "r = None"
  proof -
    from that assms obtain m1 where body: "checkDigestBody m = (None, m1)"
      and m': "m' = m1\<lparr> checkDigestCell := Done None \<rparr>"
      by (auto simp: checkDigest_def OnceValue_def split: prod.splits)
    from checkDigestBody_result(3)[OF body] obtain b ks where "digestChecked m1 b ks" by blast
    then show ?thesis unfolding m' by (auto simp: digestChecked_checkCell_update)
  qed
qed

lemma checkDigest_passed:
  assumes inv: "checkDigestCell m = Done None \<longrightarrow> (\<exists>b ks. digestChecked m b ks)"
    and c: "checkDigest m = (None, m')"
  shows "checkDigestCell m' = Done None \<and> (\<exists>b ks. digestChecked m' b ks)"
proof (cases "checkDigestCell m")
  case NotRun
  then show ?thesis using checkDigest_result[OF c] by blast
next
  case (Done r0)
  then have "m' = m \<and> r0 = None" using c checkDigest_Done[OF Done] by simp
  then show ?thesis using inv Done by simp
qed

lemma Bucket_result:
  assumes inv: "checkDigestCell m = Done None \<longrightarrow> (\<exists>b ks. digestChecked m b ks)"
    and c: "Bucket m = (r, m')"
  shows "(\<forall>b. r = Inr b \<longrightarrow> checkDigestCell m' = Done None \<and> (\<exists>ks. digestChecked m' b ks))"
    and "(\<forall>e. r = Inl e \<longrightarrow> checkDigestCell m' = Done (Some e))"
    and "checkDigestCell m' = Done None \<longrightarrow> (\<exists>b ks. digestChecked m' b ks)"
    and "mdArgs m' = mdArgs m"
proof -
  obtain rc m1 where cd: "checkDigest m = (rc, m1)" by (cases "checkDigest m")
  note h = checkDigest_result[OF cd]
  have all: "(\<forall>b. r = Inr b \<longrightarrow> checkDigestCell m' = Done None \<and> (\<exists>ks. digestChecked m' b ks)) \<and>
    (\<forall>e. r = Inl e \<longrightarrow> checkDigestCell m' = Done (Some e)) \<and>
    (checkDigestCell m' = Done None \<longrightarrow> (\<exists>b ks. digestChecked m' b ks)) \<and>
    mdArgs m' = mdArgs m"
  proof (cases rc)
    case (Some e)
    then have "r = Inl e" "m' = m1" using c cd by (simp_all add: Bucket_def)
    then show ?thesis using h Some by simp
  next
    case None
    from checkDigest_passed[OF inv cd[unfolded None]] obtain b ks where
      p: "checkDigestCell m1 = Done None" and dc: "digestChecked m1 b ks" by blast
    have "getBucketCell m1 = Done (Inr b)" using dc by (simp add: digestChecked_def)
    from mdGetBucket_Done[OF this] have "r = Inr b" "m' = m1"
      using c cd None by (simp_all add: Bucket_def)
    then show ?thesis using p dc h by auto
  qed
  show "(\<forall>b. r = Inr b \<longrightarrow> checkDigestCell m' = Done None \<and> (\<exists>ks. digestChecked m' b ks))"
    and "(\<forall>e. r = Inl e \<longrightarrow> checkDigestCell m' = Done (Some e))"
    and "checkDigestCell m' = Done None \<longrightarrow> (\<exists>b ks. digestChecked m' b ks)"
    and "mdArgs m' = mdArgs m"
    using all by blast+
qed

lemma DeclaredDepModuleKeys_result:
  assumes inv: "checkDigestCell m = Done None \<longrightarrow> (\<exists>b ks. digestChecked m b ks)"
    and c: "DeclaredDepModuleKeys m = (r, m')"
  shows "(\<forall>ks. r = Inr ks \<longrightarrow> checkDigestCell m' = Done None \<and> (\<exists>b. digestChecked m' b ks))"
    and "(\<forall>e. r = Inl e \<longrightarrow> checkDigestCell m' = Done (Some e))"
    and "checkDigestCell m' = Done None \<longrightarrow> (\<exists>b ks. digestChecked m' b ks)"
    and "mdArgs m' = mdArgs m"
proof -
  obtain rc m1 where cd: "checkDigest m = (rc, m1)" by (cases "checkDigest m")
  note h = checkDigest_result[OF cd]
  have all: "(\<forall>ks. r = Inr ks \<longrightarrow> checkDigestCell m' = Done None \<and> (\<exists>b. digestChecked m' b ks)) \<and>
    (\<forall>e. r = Inl e \<longrightarrow> checkDigestCell m' = Done (Some e)) \<and>
    (checkDigestCell m' = Done None \<longrightarrow> (\<exists>b ks. digestChecked m' b ks)) \<and>
    mdArgs m' = mdArgs m"
  proof (cases rc)
    case (Some e)
    then have "r = Inl e" "m' = m1" using c cd by (simp_all add: DeclaredDepModuleKeys_def)
    then show ?thesis using h Some by simp
  next
    case None
    from checkDigest_passed[OF inv cd[unfolded None]] obtain b ks where
      p: "checkDigestCell m1 = Done None" and dc: "digestChecked m1 b ks" by blast
    have "getDeclaredDepModuleKeysCell m1 = Done (Inr ks)" using dc by (simp add: digestChecked_def)
    from mdGetDeclaredDepModuleKeys_Done[OF this] have "r = Inr ks" "m' = m1"
      using c cd None by (simp_all add: DeclaredDepModuleKeys_def)
    then show ?thesis using p dc h by auto
  qed
  show "(\<forall>ks. r = Inr ks \<longrightarrow> checkDigestCell m' = Done None \<and> (\<exists>b. digestChecked m' b ks))"
    and "(\<forall>e. r = Inl e \<longrightarrow> checkDigestCell m' = Done (Some e))"
    and "checkDigestCell m' = Done None \<longrightarrow> (\<exists>b ks. digestChecked m' b ks)"
    and "mdArgs m' = mdArgs m"
    using all by blast+
qed

lemma failed_check_accessor:
  "checkDigestCell m = Done (Some e) \<Longrightarrow> callAccessor c m = (accessorFailure e c, m)"
  by (cases c) (simp_all add: Bucket_def DeclaredDepModuleKeys_def checkDigest_Done)

lemma failed_check_accessors:
  "checkDigestCell m = Done (Some e) \<Longrightarrow>
   callAccessors cs m = (map (accessorFailure e) cs, m)"
  by (induction cs) (simp_all add: failed_check_accessor)

lemma callAccessor_inv:
  assumes inv: "checkDigestCell m = Done None \<longrightarrow> (\<exists>b ks. digestChecked m b ks)"
    and c: "callAccessor a m = (r, m')"
  shows "checkDigestCell m' = Done None \<longrightarrow> (\<exists>b ks. digestChecked m' b ks)"
proof (cases a)
  case CallBucket
  then obtain x where "Bucket m = (x, m')" using c by (auto split: prod.splits)
  from Bucket_result(3)[OF inv this] show ?thesis .
next
  case CallDeclaredDepModuleKeys
  then obtain x where "DeclaredDepModuleKeys m = (x, m')" using c by (auto split: prod.splits)
  from DeclaredDepModuleKeys_result(3)[OF inv this] show ?thesis .
qed

lemma callAccessors_inv:
  "checkDigestCell m = Done None \<longrightarrow> (\<exists>b ks. digestChecked m b ks) \<Longrightarrow>
   callAccessors cs m = (rs, m') \<Longrightarrow>
   checkDigestCell m' = Done None \<longrightarrow> (\<exists>b ks. digestChecked m' b ks)"
proof (induction cs arbitrary: m rs)
  case Nil
  then show ?case by simp
next
  case (Cons c cs)
  obtain r m1 where c1: "callAccessor c m = (r, m1)" by (cases "callAccessor c m")
  obtain rs1 m2 where c2: "callAccessors cs m1 = (rs1, m2)" by (cases "callAccessors cs m1")
  have "m' = m2" using Cons.prems(2) c1 c2 by simp
  then have "callAccessors cs m1 = (rs1, m')" using c2 by simp
  from Cons.IH[OF callAccessor_inv[OF Cons.prems(1) c1] this] show ?case .
qed


lemma newModuleData_inv:
  "checkDigestCell (newModuleData args w) = Done None \<longrightarrow>
   (\<exists>b ks. digestChecked (newModuleData args w) b ks)"
  by (simp add: newModuleData_def)

lemma callAccessor_args:
  "callAccessor a m = (r, m') \<Longrightarrow> mdArgs m' = mdArgs m"
proof (cases a)
  case CallBucket
  assume "callAccessor a m = (r, m')"
  then obtain x where x: "Bucket m = (x, m')" using CallBucket by (auto split: prod.splits)
  obtain rc m1 where cd: "checkDigest m = (rc, m1)" by (cases "checkDigest m")
  show ?thesis
  proof (cases rc)
    case None
    then obtain y where "mdGetBucket m1 = (y, m')" using x cd by (simp add: Bucket_def)
    then show ?thesis using mdGetBucket_result checkDigest_result(2)[OF cd] by fastforce
  next
    case (Some e)
    then have "m' = m1" using x cd by (simp add: Bucket_def)
    then show ?thesis using checkDigest_result(2)[OF cd] by simp
  qed
next
  case CallDeclaredDepModuleKeys
  assume "callAccessor a m = (r, m')"
  then obtain x where x: "DeclaredDepModuleKeys m = (x, m')"
    using CallDeclaredDepModuleKeys by (auto split: prod.splits)
  obtain rc m1 where cd: "checkDigest m = (rc, m1)" by (cases "checkDigest m")
  show ?thesis
  proof (cases rc)
    case None
    then obtain y where "mdGetDeclaredDepModuleKeys m1 = (y, m')"
      using x cd by (simp add: DeclaredDepModuleKeys_def)
    then show ?thesis
      using mdGetDeclaredDepModuleKeys_result checkDigest_result(2)[OF cd] by fastforce
  next
    case (Some e)
    then have "m' = m1" using x cd by (simp add: DeclaredDepModuleKeys_def)
    then show ?thesis using checkDigest_result(2)[OF cd] by simp
  qed
qed

lemma callAccessors_args:
  "callAccessors cs m = (rs, m') \<Longrightarrow> mdArgs m' = mdArgs m"
proof (induction cs arbitrary: m rs)
  case Nil
  then show ?case by simp
next
  case (Cons c cs)
  obtain r m1 where c1: "callAccessor c m = (r, m1)" by (cases "callAccessor c m")
  obtain rs1 m2 where c2: "callAccessors cs m1 = (rs1, m2)" by (cases "callAccessors cs m1")
  have "m' = m2" using Cons.prems c1 c2 by simp
  then have "callAccessors cs m1 = (rs1, m')" using c2 by simp
  from Cons.IH[OF this] callAccessor_args[OF c1] show ?case by simp
qed

lemma fresh_check_detects_mismatch:
  assumes "argGetBucket args w = (Inr b0, w1)"
    and "argGetDeclaredDepModuleKeys args w1 = (Inr ks, w2)"
    and "moduleKeyDigest args = Inr d"
    and "getB5Digest args (storageMatcher args b0) ks = Inr d'"
    and "\<not> DigestEqual args d d'"
  shows "fst (checkDigest (newModuleData args w)) =
           Some (VerificationFailed (moduleKeyString args) (DigestString args d)
                   (DigestString args d'))"
  using assms
  by (simp add: checkDigest_def OnceValue_def newModuleData_def checkDigestBody_def
      mdGetBucket_def mdGetDeclaredDepModuleKeys_def)

text \<open>
  Claim C1. Take a ModuleData made by \<open>newModuleData\<close>, after any history of calls to
  its two accessors, and call Bucket() or DeclaredDepModuleKeys() once more. If the call
  returns successfully, the tamper check has run and passed: \<open>checkDigest\<close>'s cell holds
  the nil error, and the value returned is the cached bucket (or declared dependency keys)
  whose recomputed digest \<open>getB5Digest\<close> equals the ModuleKey's digest under
  \<open>DigestEqual\<close>. If the call returns an error, the check's cell holds that error, and
  every later sequence of accessor calls returns that same error for each call and leaves
  the state, with its world, unchanged: the check is not run again. On a fresh ModuleData
  whose fetched bucket and dependency keys have a digest different from the ModuleKey's,
  both accessors fail with the verification error naming the key and the two digests.
\<close>

theorem tamper_check_guards_accessors:
  assumes hist: "callAccessors cs (newModuleData args w) = (rs, m)"
    and call: "callAccessor c m = (r, m')"
  shows "(\<forall>b. r = BucketResult (Inr b) \<longrightarrow>
            checkDigestCell m' = Done None \<and> (\<exists>ks. digestChecked m' b ks)) \<and>
         (\<forall>ks. r = DeclaredDepModuleKeysResult (Inr ks) \<longrightarrow>
            checkDigestCell m' = Done None \<and> (\<exists>b. digestChecked m' b ks)) \<and>
         (\<forall>e. accessorError r = Some e \<longrightarrow>
            checkDigestCell m' = Done (Some e) \<and>
            (\<forall>cs'. callAccessors cs' m' = (map (accessorFailure e) cs', m'))) \<and>
         mdArgs m' = args \<and>
         (\<forall>b0 w1 ks w2 d d'.
            argGetBucket args w = (Inr b0, w1) \<and>
            argGetDeclaredDepModuleKeys args w1 = (Inr ks, w2) \<and>
            moduleKeyDigest args = Inr d \<and>
            getB5Digest args (storageMatcher args b0) ks = Inr d' \<and>
            \<not> DigestEqual args d d' \<longrightarrow>
            fst (Bucket (newModuleData args w)) =
              Inl (VerificationFailed (moduleKeyString args) (DigestString args d)
                     (DigestString args d')) \<and>
            fst (DeclaredDepModuleKeys (newModuleData args w)) =
              Inl (VerificationFailed (moduleKeyString args) (DigestString args d)
                     (DigestString args d')))"
proof -
  have inv: "checkDigestCell m = Done None \<longrightarrow> (\<exists>b ks. digestChecked m b ks)"
    using callAccessors_inv[OF newModuleData_inv hist] .
  have args: "mdArgs m' = args"
    using callAccessors_args[OF hist] callAccessor_args[OF call]
    by (simp add: newModuleData_def)
  have ok_b: "checkDigestCell m' = Done None \<and> (\<exists>ks. digestChecked m' b ks)"
    if "r = BucketResult (Inr b)" for b
  proof -
    from that call have "c = CallBucket" by (cases c) (auto split: prod.splits)
    then have "Bucket m = (Inr b, m')" using that call by (auto split: prod.splits)
    from Bucket_result(1)[OF inv this] show ?thesis by simp
  qed
  have ok_k: "checkDigestCell m' = Done None \<and> (\<exists>b. digestChecked m' b ks)"
    if "r = DeclaredDepModuleKeysResult (Inr ks)" for ks
  proof -
    from that call have "c = CallDeclaredDepModuleKeys" by (cases c) (auto split: prod.splits)
    then have "DeclaredDepModuleKeys m = (Inr ks, m')" using that call by (auto split: prod.splits)
    from DeclaredDepModuleKeys_result(1)[OF inv this] show ?thesis by simp
  qed
  have failed: "checkDigestCell m' = Done (Some e)" if "accessorError r = Some e" for e
  proof (cases c)
    case CallBucket
    then obtain x where x: "Bucket m = (x, m')" "r = BucketResult x"
      using call by (auto split: prod.splits)
    then have "x = Inl e" using that by (cases x) simp_all
    then show ?thesis using Bucket_result(2)[OF inv x(1)] by simp
  next
    case CallDeclaredDepModuleKeys
    then obtain x where x: "DeclaredDepModuleKeys m = (x, m')" "r = DeclaredDepModuleKeysResult x"
      using call by (auto split: prod.splits)
    then have "x = Inl e" using that by (cases x) simp_all
    then show ?thesis using DeclaredDepModuleKeys_result(2)[OF inv x(1)] by simp
  qed
  have perm: "checkDigestCell m' = Done (Some e) \<and>
              (\<forall>cs'. callAccessors cs' m' = (map (accessorFailure e) cs', m'))"
    if "accessorError r = Some e" for e
    using failed[OF that] failed_check_accessors by blast
  have detect: "fst (Bucket (newModuleData args w)) =
              Inl (VerificationFailed (moduleKeyString args) (DigestString args d)
                     (DigestString args d')) \<and>
            fst (DeclaredDepModuleKeys (newModuleData args w)) =
              Inl (VerificationFailed (moduleKeyString args) (DigestString args d)
                     (DigestString args d'))"
    if "argGetBucket args w = (Inr b0, w1) \<and>
        argGetDeclaredDepModuleKeys args w1 = (Inr ks, w2) \<and>
        moduleKeyDigest args = Inr d \<and>
        getB5Digest args (storageMatcher args b0) ks = Inr d' \<and>
        \<not> DigestEqual args d d'" for b0 w1 ks w2 d d'
  proof -
    from that have "fst (checkDigest (newModuleData args w)) =
           Some (VerificationFailed (moduleKeyString args) (DigestString args d)
                   (DigestString args d'))"
      using fresh_check_detects_mismatch[of args w b0 w1 ks w2 d d'] by blast
    then show ?thesis
      by (cases "checkDigest (newModuleData args w)")
         (simp add: Bucket_def DeclaredDepModuleKeys_def)
  qed
  show ?thesis
    using ok_b ok_k perm args detect by blast
qed


theorem tamper_check_guards_accessors_witness:
  "callAccessor CallBucket (newModuleData (exModuleDataArgs ''tampered'') 0) =
     (BucketResult (Inl (VerificationFailed ''buf.build/acme/dep:c1'' ''files'' ''tampered'')),
      \<lparr> mdArgs = exModuleDataArgs ''tampered'', mdWorld = 2,
        getBucketCell = Done (Inr ''tampered''), getDeclaredDepModuleKeysCell = Done (Inr []),
        checkDigestCell =
          Done (Some (VerificationFailed ''buf.build/acme/dep:c1'' ''files'' ''tampered'')) \<rparr>) \<and>
   callAccessors [CallDeclaredDepModuleKeys, CallBucket]
     \<lparr> mdArgs = exModuleDataArgs ''tampered'', mdWorld = 2,
       getBucketCell = Done (Inr ''tampered''), getDeclaredDepModuleKeysCell = Done (Inr []),
       checkDigestCell =
         Done (Some (VerificationFailed ''buf.build/acme/dep:c1'' ''files'' ''tampered'')) \<rparr> =
     ([DeclaredDepModuleKeysResult
         (Inl (VerificationFailed ''buf.build/acme/dep:c1'' ''files'' ''tampered'')),
       BucketResult (Inl (VerificationFailed ''buf.build/acme/dep:c1'' ''files'' ''tampered''))],
      \<lparr> mdArgs = exModuleDataArgs ''tampered'', mdWorld = 2,
        getBucketCell = Done (Inr ''tampered''), getDeclaredDepModuleKeysCell = Done (Inr []),
        checkDigestCell =
          Done (Some (VerificationFailed ''buf.build/acme/dep:c1'' ''files'' ''tampered'')) \<rparr>) \<and>
   fst (callAccessor CallBucket (newModuleData (exModuleDataArgs ''files'') 0))
     = BucketResult (Inr ''files'') \<and>
   checkDigestCell (snd (callAccessor CallBucket (newModuleData (exModuleDataArgs ''files'') 0)))
     = Done None"
proof -
  let ?e = "VerificationFailed ''buf.build/acme/dep:c1'' ''files'' ''tampered''"
  let ?m1 = "\<lparr> mdArgs = exModuleDataArgs ''tampered'', mdWorld = 2,
        getBucketCell = Done (Inr ''tampered''), getDeclaredDepModuleKeysCell = Done (Inr []),
        checkDigestCell = Done (Some ?e) \<rparr>"
  note defs = newModuleData_def Bucket_def DeclaredDepModuleKeys_def checkDigest_def
    OnceValue_def checkDigestBody_def mdGetBucket_def mdGetDeclaredDepModuleKeys_def
    exModuleDataArgs_def
  have h: "callAccessors [] (newModuleData (exModuleDataArgs ''tampered'') (0::nat))
             = ([], newModuleData (exModuleDataArgs ''tampered'') 0)"
    by simp
  have c: "callAccessor CallBucket (newModuleData (exModuleDataArgs ''tampered'') 0)
             = (BucketResult (Inl ?e), ?m1)"
    by (simp add: defs numeral_2_eq_2)
  have e: "accessorError (BucketResult (Inl ?e) :: (string, string) accessorResult) = Some ?e"
    by simp
  have p: "callAccessors [CallDeclaredDepModuleKeys, CallBucket] ?m1 =
             (map (accessorFailure ?e) [CallDeclaredDepModuleKeys, CallBucket], ?m1)"
    using tamper_check_guards_accessors[OF h c, THEN conjunct2, THEN conjunct2, THEN conjunct1,
        rule_format, OF e, THEN conjunct2, rule_format, of "[CallDeclaredDepModuleKeys, CallBucket]"] .
  have h2: "callAccessors [] (newModuleData (exModuleDataArgs ''files'') (0::nat))
             = ([], newModuleData (exModuleDataArgs ''files'') 0)"
    by simp
  have s: "fst (callAccessor CallBucket (newModuleData (exModuleDataArgs ''files'') 0))
     = BucketResult (Inr ''files'')"
    by (simp add: defs)
  obtain m2 where c2: "callAccessor CallBucket (newModuleData (exModuleDataArgs ''files'') 0)
     = (BucketResult (Inr ''files''), m2)"
    using s by (cases "callAccessor CallBucket (newModuleData (exModuleDataArgs ''files'') 0)") simp
  have d: "checkDigestCell m2 = Done None"
    using tamper_check_guards_accessors[OF h2 c2, THEN conjunct1, rule_format, of "''files''"]
    by simp
  show ?thesis
    using c p s d c2 by simp
qed


subsection \<open>Upload\<close>

lemma registry_loop_Inr:
  "forEachE registryStep ms R = Inr R' \<Longrightarrow>
   (\<forall>m\<in>set ms. umIsLocal m \<and> umModuleFullName m \<noteq> None) \<and>
   R' = R \<union> set (map Registry (List.map_filter umModuleFullName ms))"
proof (induction ms arbitrary: R)
  case Nil
  then show ?case by (simp add: List.map_filter_simps)
next
  case (Cons m ms)
  from Cons.prems obtain R1 where s1: "registryStep m R = Inr R1"
    and rest: "forEachE registryStep ms R1 = Inr R'"
    by (auto split: sum.splits)
  from s1 obtain n where n: "umIsLocal m" "umModuleFullName m = Some n"
    "R1 = insert (Registry n) R"
    by (auto simp: registryStep_def split: if_splits option.splits)
  show ?case using Cons.IH[OF rest] n by (auto simp: List.map_filter_simps)
qed

lemma registry_loop_all_ok:
  "\<forall>m\<in>set ms. umIsLocal m \<and> umModuleFullName m \<noteq> None \<Longrightarrow>
   \<exists>R'. forEachE registryStep ms R = Inr R'"
proof (induction ms arbitrary: R)
  case Nil
  then show ?case by simp
next
  case (Cons m ms)
  then obtain n where "umIsLocal m" "umModuleFullName m = Some n" by auto
  then have "registryStep m R = Inr (insert (Registry n) R)"
    by (simp add: registryStep_def)
  then show ?case using Cons by simp
qed

lemma registry_loop_first_unnamed:
  assumes "\<forall>x\<in>set ms1. umIsLocal x \<and> umModuleFullName x \<noteq> None"
    and "umIsLocal m" and "umModuleFullName m = None"
  shows "forEachE registryStep (ms1 @ m # ms2) R
           = Inl (newRequireModuleFullNameOnUploadError (umOpaqueID m))"
  using assms(1)
proof (induction ms1 arbitrary: R)
  case Nil
  then show ?case using assms(2,3) by (simp add: registryStep_def)
next
  case (Cons x ms1)
  then obtain n where "umIsLocal x" "umModuleFullName x = Some n" by auto
  then have "registryStep x R = Inr (insert (Registry n) R)"
    by (simp add: registryStep_def)
  then show ?case using Cons by simp
qed

lemma registry_loop_Inl:
  "forEachE registryStep ms R = Inl e \<Longrightarrow>
   \<exists>m\<in>set ms. \<not> umIsLocal m \<or> umModuleFullName m = None"
  using registry_loop_all_ok[of ms R] by (metis Inl_Inr_False)

lemma MapError_Inr:
  "MapError f xs = Inr ys \<Longrightarrow> length ys = length xs \<and> (\<forall>x\<in>set xs. \<exists>y. f x = Inr y)"
proof (induction xs arbitrary: ys)
  case Nil
  then show ?case by simp
next
  case (Cons x xs)
  then show ?case by (auto split: sum.splits)
qed

lemma MapError_first_error:
  "MapError f xs1 = Inr ys1 \<Longrightarrow> f x = Inl e \<Longrightarrow> MapError f (xs1 @ x # xs2) = Inl e"
proof (induction xs1 arbitrary: ys1)
  case Nil
  then show ?case by simp
next
  case (Cons a xs1)
  then show ?case by (auto split: sum.splits)
qed

lemma forEachE_Inr_each:
  "forEachE f xs s = Inr s' \<Longrightarrow> \<forall>x\<in>set xs. \<exists>s1 s2. f x s1 = Inr s2"
proof (induction xs arbitrary: s)
  case Nil
  then show ?case by simp
next
  case (Cons x xs)
  from Cons.prems obtain s1 where s1: "f x s = Inr s1" and rest: "forEachE f xs s1 = Inr s'"
    by (auto split: sum.splits)
  show ?case using Cons.IH[OF rest] s1 by auto
qed

lemma content_deps_named:
  assumes "getProtoUploadRequestContent labels S m = Inr c"
  shows "umIsLocal m \<and> umModuleFullName m \<noteq> None \<and>
         (\<exists>deps. umModuleDeps m = Inr deps \<and> (\<forall>d\<in>set deps. depModuleFullName d \<noteq> None))"
proof -
  from assms obtain deps refs where l: "umIsLocal m" "umModuleFullName m \<noteq> None"
    and d: "umModuleDeps m = Inr deps"
    and loop: "forEachE (depRefStep S) deps [] = Inr refs"
    unfolding getProtoUploadRequestContent_def
    by (auto split: if_splits sum.splits)
  have "\<forall>d\<in>set deps. depModuleFullName d \<noteq> None"
  proof
    fix x assume "x \<in> set deps"
    with forEachE_Inr_each[OF loop] obtain s1 s2 where "depRefStep S x s1 = Inr s2" by blast
    then show "depModuleFullName x \<noteq> None"
      by (auto simp: depRefStep_def split: if_splits)
  qed
  then show ?thesis using l d by simp
qed

lemma content_first_unnamed_dep:
  assumes "umIsLocal m" and "umModuleFullName m \<noteq> None"
    and "umModuleDeps m = Inr (ds1 @ d # ds2)"
    and "forEachE (depRefStep S) ds1 [] = Inr acc"
    and "depModuleFullName d = None"
  shows "getProtoUploadRequestContent labels S m
           = Inl (newRequireModuleFullNameOnUploadError (depOpaqueID d))"
proof -
  have "forEachE (depRefStep S) (ds1 @ d # ds2) []
          = Inl (newRequireModuleFullNameOnUploadError (depOpaqueID d))"
    using assms(4,5) by (simp add: forEachE_append depRefStep_def)
  then show ?thesis using assms(1,2,3)
    by (auto simp: getProtoUploadRequestContent_def getProtoModuleRef_def split: option.splits)
qed


lemma Upload_called:
  assumes "snd (Upload env labels ms) \<noteq> []"
  shows "\<exists>R registry contents.
           forEachE registryStep ms {} = Inr R \<and>
           MapKeysToSortedSlice R = [registry] \<and>
           MapError (getProtoUploadRequestContent (ToUniqueSorted labels)
                       (set (map umOpaqueID ms))) ms = Inr contents \<and>
           snd (Upload env labels ms) = [(registry, contents)] \<and>
           fst (Upload env labels ms) =
             (case UploadServiceClientUpload env registry contents of
                Inl e \<Rightarrow> Inl e
              | Inr commits \<Rightarrow>
                  if length commits \<noteq> length contents
                  then Inl (ExpectedCommits (length contents) (length commits))
                  else MapError (commitStep env) (zip ms commits))"
proof -
  obtain R where R: "forEachE registryStep ms {} = Inr R"
    using assms by (cases "forEachE registryStep ms {}") (auto simp: Upload_def)
  have le: "\<not> length (MapKeysToSortedSlice R) > 1"
    using assms R by (auto simp: Upload_def Let_def)
  obtain registry where reg: "MapKeysToSortedSlice R = [registry]"
    using assms R le by (cases "MapKeysToSortedSlice R") (auto simp: Upload_def Let_def)
  obtain contents where c: "MapError (getProtoUploadRequestContent (ToUniqueSorted labels)
                       (set (map umOpaqueID ms))) ms = Inr contents"
    using assms R reg
    by (cases "MapError (getProtoUploadRequestContent (ToUniqueSorted labels)
                       (set (map umOpaqueID ms))) ms") (auto simp: Upload_def Let_def)
  show ?thesis
    using R reg c by (auto simp: Upload_def Let_def split: sum.splits)
qed

lemma Upload_not_called:
  "snd (Upload env labels ms) = [] \<Longrightarrow> \<exists>e. fst (Upload env labels ms) = Inl e"
  by (auto simp: Upload_def Let_def split: sum.splits list.splits if_splits)

lemma registries_of_loop:
  "forEachE registryStep ms {} = Inr R \<Longrightarrow> R = moduleRegistries ms"
  using registry_loop_Inr[of ms "{}" R] by (simp add: moduleRegistries_def)

lemma finite_moduleRegistries: "finite (moduleRegistries ms)"
  by (simp add: moduleRegistries_def)


text \<open>
  Claim C8. Upload validates its inputs before the network call. If the call to the
  upload service is made at all, every module is local and named, every dependency of
  every module is named, and all modules share one registry; without the call Upload
  returns an error. So modules that span more than one registry, or a module or
  dependency without a ModuleFullName, make Upload fail with no network call. The errors:
  when all modules are local and named and their registries are more than one, the error
  is \<open>MultipleRegistries\<close> with the sorted registries; the first module without a name
  (the modules before it being local and named) gives the user-facing error naming that
  module; when the modules pass the first loop and the earlier request contents are built,
  the first dependency without a name (the dependencies before it being accepted) gives
  the user-facing error naming that dependency. After the call, a number of returned
  commits different from the number of request contents makes Upload fail with
  \<open>ExpectedCommits\<close>.
\<close>

theorem upload_validates_before_network_call:
  "(snd (Upload env labels ms) \<noteq> [] \<longrightarrow>
      (\<forall>m\<in>set ms. umIsLocal m \<and> umModuleFullName m \<noteq> None \<and>
         (\<exists>deps. umModuleDeps m = Inr deps \<and> (\<forall>d\<in>set deps. depModuleFullName d \<noteq> None))) \<and>
      (\<exists>registry contents.
         moduleRegistries ms = {registry} \<and>
         snd (Upload env labels ms) = [(registry, contents)] \<and>
         length contents = length ms \<and>
         (\<forall>commits. UploadServiceClientUpload env registry contents = Inr commits \<and>
                    length commits \<noteq> length contents \<longrightarrow>
            fst (Upload env labels ms)
              = Inl (ExpectedCommits (length contents) (length commits))))) \<and>
   (snd (Upload env labels ms) = [] \<longrightarrow> (\<exists>e. fst (Upload env labels ms) = Inl e)) \<and>
   ((\<forall>m\<in>set ms. umIsLocal m \<and> umModuleFullName m \<noteq> None) \<and>
    card (moduleRegistries ms) > 1 \<longrightarrow>
      Upload env labels ms
        = (Inl (MultipleRegistries (MapKeysToSortedSlice (moduleRegistries ms))), [])) \<and>
   (\<forall>ms1 m ms2.
      ms = ms1 @ m # ms2 \<and> (\<forall>x\<in>set ms1. umIsLocal x \<and> umModuleFullName x \<noteq> None) \<and>
      umIsLocal m \<and> umModuleFullName m = None \<longrightarrow>
      Upload env labels ms
        = (Inl (newRequireModuleFullNameOnUploadError (umOpaqueID m)), [])) \<and>
   (\<forall>ms1 m ms2 ds1 d ds2 cs1 acc.
      ms = ms1 @ m # ms2 \<and> (\<forall>x\<in>set ms. umIsLocal x \<and> umModuleFullName x \<noteq> None) \<and>
      card (moduleRegistries ms) = 1 \<and>
      MapError (getProtoUploadRequestContent (ToUniqueSorted labels) (set (map umOpaqueID ms)))
        ms1 = Inr cs1 \<and>
      umModuleDeps m = Inr (ds1 @ d # ds2) \<and>
      forEachE (depRefStep (set (map umOpaqueID ms))) ds1 [] = Inr acc \<and>
      depModuleFullName d = None \<longrightarrow>
      Upload env labels ms
        = (Inl (newRequireModuleFullNameOnUploadError (depOpaqueID d)), []))"
proof (intro conjI impI allI)
  assume called: "snd (Upload env labels ms) \<noteq> []"
  from Upload_called[OF called] obtain R registry contents where
    R: "forEachE registryStep ms {} = Inr R"
    and reg: "MapKeysToSortedSlice R = [registry]"
    and c: "MapError (getProtoUploadRequestContent (ToUniqueSorted labels)
                       (set (map umOpaqueID ms))) ms = Inr contents"
    and calls: "snd (Upload env labels ms) = [(registry, contents)]"
    and res: "fst (Upload env labels ms) =
             (case UploadServiceClientUpload env registry contents of
                Inl e \<Rightarrow> Inl e
              | Inr commits \<Rightarrow>
                  if length commits \<noteq> length contents
                  then Inl (ExpectedCommits (length contents) (length commits))
                  else MapError (commitStep env) (zip ms commits))"
    by blast
  show "\<forall>m\<in>set ms. umIsLocal m \<and> umModuleFullName m \<noteq> None \<and>
         (\<exists>deps. umModuleDeps m = Inr deps \<and> (\<forall>d\<in>set deps. depModuleFullName d \<noteq> None))"
  proof
    fix m assume "m \<in> set ms"
    with MapError_Inr[OF c] obtain y where
      "getProtoUploadRequestContent (ToUniqueSorted labels) (set (map umOpaqueID ms)) m = Inr y"
      by blast
    from content_deps_named[OF this]
    show "umIsLocal m \<and> umModuleFullName m \<noteq> None \<and>
         (\<exists>deps. umModuleDeps m = Inr deps \<and> (\<forall>d\<in>set deps. depModuleFullName d \<noteq> None))" .
  qed
  have Rm: "R = moduleRegistries ms" using registries_of_loop[OF R] .
  have "set (sorted_list_of_set R) = R"
    using finite_moduleRegistries[of ms] Rm by simp
  then have single: "moduleRegistries ms = {registry}"
    using reg Rm by (simp add: MapKeysToSortedSlice_def)
  have len: "length contents = length ms" using MapError_Inr[OF c] by simp
  have cnt: "fst (Upload env labels ms)
              = Inl (ExpectedCommits (length contents) (length commits))"
    if "UploadServiceClientUpload env registry contents = Inr commits \<and>
        length commits \<noteq> length contents" for commits
    using res that by simp
  show "\<exists>registry contents.
         moduleRegistries ms = {registry} \<and>
         snd (Upload env labels ms) = [(registry, contents)] \<and>
         length contents = length ms \<and>
         (\<forall>commits. UploadServiceClientUpload env registry contents = Inr commits \<and>
                    length commits \<noteq> length contents \<longrightarrow>
            fst (Upload env labels ms)
              = Inl (ExpectedCommits (length contents) (length commits)))"
    using single calls len cnt by blast
next
  assume "snd (Upload env labels ms) = []"
  then show "\<exists>e. fst (Upload env labels ms) = Inl e" by (rule Upload_not_called)
next
  assume h: "(\<forall>m\<in>set ms. umIsLocal m \<and> umModuleFullName m \<noteq> None) \<and>
    card (moduleRegistries ms) > 1"
  then obtain R where R: "forEachE registryStep ms {} = Inr R"
    using registry_loop_all_ok[of ms "{}"] by blast
  have Rm: "R = moduleRegistries ms" using registries_of_loop[OF R] .
  have "length (MapKeysToSortedSlice R) > 1"
    using h Rm by (simp add: MapKeysToSortedSlice_def)
  then show "Upload env labels ms
        = (Inl (MultipleRegistries (MapKeysToSortedSlice (moduleRegistries ms))), [])"
    using R Rm by (simp add: Upload_def Let_def)
next
  fix ms1 m ms2
  assume h: "ms = ms1 @ m # ms2 \<and> (\<forall>x\<in>set ms1. umIsLocal x \<and> umModuleFullName x \<noteq> None) \<and>
      umIsLocal m \<and> umModuleFullName m = None"
  then have "forEachE registryStep ms {}
               = Inl (newRequireModuleFullNameOnUploadError (umOpaqueID m))"
    using registry_loop_first_unnamed[of ms1 m ms2 "{}"] by blast
  then show "Upload env labels ms
        = (Inl (newRequireModuleFullNameOnUploadError (umOpaqueID m)), [])"
    by (simp add: Upload_def)
next
  fix ms1 m ms2 ds1 d ds2 cs1 acc
  let ?S = "set (map umOpaqueID ms)"
  let ?f = "getProtoUploadRequestContent (ToUniqueSorted labels) ?S"
  assume h: "ms = ms1 @ m # ms2 \<and> (\<forall>x\<in>set ms. umIsLocal x \<and> umModuleFullName x \<noteq> None) \<and>
      card (moduleRegistries ms) = 1 \<and>
      MapError ?f ms1 = Inr cs1 \<and>
      umModuleDeps m = Inr (ds1 @ d # ds2) \<and>
      forEachE (depRefStep ?S) ds1 [] = Inr acc \<and>
      depModuleFullName d = None"
  then have ms: "ms = ms1 @ m # ms2" and ok: "\<forall>x\<in>set ms. umIsLocal x \<and> umModuleFullName x \<noteq> None"
    and one: "card (moduleRegistries ms) = 1" and pre: "MapError ?f ms1 = Inr cs1"
    and deps: "umModuleDeps m = Inr (ds1 @ d # ds2)"
    and dl: "forEachE (depRefStep ?S) ds1 [] = Inr acc" and dn: "depModuleFullName d = None"
    by blast+
  obtain R where R: "forEachE registryStep ms {} = Inr R"
    using registry_loop_all_ok[OF ok, of "{}"] by blast
  have Rm: "R = moduleRegistries ms" using registries_of_loop[OF R] .
  have len: "length (MapKeysToSortedSlice R) = 1"
    using one Rm by (simp add: MapKeysToSortedSlice_def)
  then obtain registry where reg: "MapKeysToSortedSlice R = [registry]"
    by (cases "MapKeysToSortedSlice R") auto
  have m: "umIsLocal m" "umModuleFullName m \<noteq> None" using ok ms by auto
  have "?f m = Inl (newRequireModuleFullNameOnUploadError (depOpaqueID d))"
    using content_first_unnamed_dep[OF m deps dl dn] .
  from MapError_first_error[OF pre this, of ms2]
  have "MapError ?f ms = Inl (newRequireModuleFullNameOnUploadError (depOpaqueID d))"
    using ms by simp
  then show "Upload env labels ms
        = (Inl (newRequireModuleFullNameOnUploadError (depOpaqueID d)), [])"
    using R reg by (simp add: Upload_def Let_def)
qed


theorem upload_validates_before_network_call_witness:
  "Upload (exUploadEnv 2) []
     [exUploadModule ''a'' (Some (exName ''buf.build'' ''a'')) [],
      exUploadModule ''b'' (Some (exName ''example.com'' ''b'')) []]
     = (Inl (MultipleRegistries [''buf.build'', ''example.com'']), []) \<and>
   Upload (exUploadEnv 2) []
     [exUploadModule ''a'' (Some (exName ''buf.build'' ''a'')) [],
      exUploadModule ''dir/x'' None []]
     = (Inl (RequireModuleFullNameOnUpload ''dir/x''), []) \<and>
   Upload (exUploadEnv 2) []
     [exUploadModule ''a'' (Some (exName ''buf.build'' ''a'')) [exDep ''dir/d'' None]]
     = (Inl (RequireModuleFullNameOnUpload ''dir/d''), []) \<and>
   snd (Upload (exUploadEnv 2) []
          [exUploadModule ''a'' (Some (exName ''buf.build'' ''a'')) []]) \<noteq> [] \<and>
   fst (Upload (exUploadEnv 2) []
          [exUploadModule ''a'' (Some (exName ''buf.build'' ''a'')) []])
     = Inl (ExpectedCommits 1 2)"
proof -
  let ?a = "exUploadModule ''a'' (Some (exName ''buf.build'' ''a'')) []"
  let ?b = "exUploadModule ''b'' (Some (exName ''example.com'' ''b'')) []"
  let ?x = "exUploadModule ''dir/x'' None []"
  let ?ad = "exUploadModule ''a'' (Some (exName ''buf.build'' ''a'')) [exDep ''dir/d'' None]"
  note T = upload_validates_before_network_call
  note defs = exUploadModule_def exName_def exDep_def exUploadEnv_def moduleRegistries_def
    List.map_filter_simps
  \<comment> \<open>two registries\<close>
  have r1: "(\<forall>m\<in>set [?a, ?b]. umIsLocal m \<and> umModuleFullName m \<noteq> None) \<and>
            card (moduleRegistries [?a, ?b]) > 1"
    by (simp add: defs)
  have r2: "MapKeysToSortedSlice (moduleRegistries [?a, ?b]) = [''buf.build'', ''example.com'']"
    by (simp add: defs MapKeysToSortedSlice_def)
  have R: "Upload (exUploadEnv 2) [] [?a, ?b]
             = (Inl (MultipleRegistries [''buf.build'', ''example.com'']), [])"
    using T[where env = "exUploadEnv 2" and labels = "[]" and ms = "[?a, ?b]",
        THEN conjunct2, THEN conjunct2, THEN conjunct1, rule_format, OF r1]
    unfolding r2 .
  \<comment> \<open>a module without a name\<close>
  have n1: "[?a, ?x] = [?a] @ ?x # [] \<and>
            (\<forall>m\<in>set [?a]. umIsLocal m \<and> umModuleFullName m \<noteq> None) \<and>
            umIsLocal ?x \<and> umModuleFullName ?x = None"
    by (simp add: defs)
  have n2: "umOpaqueID ?x = ''dir/x''" by (simp add: defs)
  have N: "Upload (exUploadEnv 2) [] [?a, ?x]
             = (Inl (RequireModuleFullNameOnUpload ''dir/x''), [])"
    using T[where env = "exUploadEnv 2" and labels = "[]" and ms = "[?a, ?x]",
        THEN conjunct2, THEN conjunct2, THEN conjunct2, THEN conjunct1, rule_format, OF n1]
    unfolding n2 newRequireModuleFullNameOnUploadError_def .
  \<comment> \<open>a dependency without a name\<close>
  have d1: "[?ad] = [] @ ?ad # [] \<and>
            (\<forall>m\<in>set [?ad]. umIsLocal m \<and> umModuleFullName m \<noteq> None) \<and>
            card (moduleRegistries [?ad]) = 1 \<and>
            MapError (getProtoUploadRequestContent (ToUniqueSorted [])
                        (set (map umOpaqueID [?ad]))) [] = Inr [] \<and>
            umModuleDeps ?ad = Inr ([] @ exDep ''dir/d'' None # []) \<and>
            forEachE (depRefStep (set (map umOpaqueID [?ad]))) [] [] = Inr [] \<and>
            depModuleFullName (exDep ''dir/d'' None) = None"
    by (simp add: defs)
  have d2: "depOpaqueID (exDep ''dir/d'' None) = ''dir/d''" by (simp add: defs)
  have D: "Upload (exUploadEnv 2) [] [?ad]
             = (Inl (RequireModuleFullNameOnUpload ''dir/d''), [])"
    using T[where env = "exUploadEnv 2" and labels = "[]" and ms = "[?ad]",
        THEN conjunct2, THEN conjunct2, THEN conjunct2, THEN conjunct2, rule_format, OF d1]
    unfolding d2 newRequireModuleFullNameOnUploadError_def .
  \<comment> \<open>the commit count\<close>
  let ?c = "\<lparr> rcModuleRef = \<lparr> pmOwner = ''acme'', pmModule = ''a'' \<rparr>, rcFiles = ''files'',
              rcDepRefs = [], rcScopedLabelRefs = [], rcV1BufYamlFile = ''buf.yaml'',
              rcV1BufLockFile = ''buf.lock'' \<rparr>"
  have c1: "snd (Upload (exUploadEnv 2) [] [?a]) = [(''buf.build'', [?c])]"
    by (simp add: Upload_def registryStep_def MapKeysToSortedSlice_def ToUniqueSorted_def
        getProtoUploadRequestContent_def getProtoModuleRef_def defs Let_def)
  then have c2: "snd (Upload (exUploadEnv 2) [] [?a]) \<noteq> []" by simp
  from T[where env = "exUploadEnv 2" and labels = "[]" and ms = "[?a]",
        THEN conjunct1, rule_format, OF c2, THEN conjunct2]
  obtain registry contents where
    k: "snd (Upload (exUploadEnv 2) [] [?a]) = [(registry, contents)]"
    and cnt: "\<forall>commits. UploadServiceClientUpload (exUploadEnv 2) registry contents = Inr commits \<and>
                    length commits \<noteq> length contents \<longrightarrow>
            fst (Upload (exUploadEnv 2) [] [?a])
              = Inl (ExpectedCommits (length contents) (length commits))"
    by blast
  have rc: "registry = ''buf.build''" "contents = [?c]" using k c1 by simp_all
  have "UploadServiceClientUpload (exUploadEnv 2) registry contents
          = Inr (replicate 2 \<lparr> pcId = ''c2'', pcDigest = ''b5'', pcCreateTime = 0 \<rparr>)"
    by (simp add: exUploadEnv_def)
  with cnt have C: "fst (Upload (exUploadEnv 2) [] [?a]) = Inl (ExpectedCommits 1 2)"
    unfolding rc by fastforce
  show ?thesis using R N D c2 C by (intro conjI)
qed

subsection \<open>The image builder\<close>

lemma checkCompiledFilePaths_None:
  "length fds = length paths \<Longrightarrow> checkCompiledFilePaths fds paths = None \<Longrightarrow>
   map Path fds = map Inr paths"
proof (induction fds paths rule: list_induct2)
  case Nil
  then show ?case by simp
next
  case (Cons fd fds p ps)
  then show ?case by (auto split: sum.splits if_splits)
qed

lemma forEachE_Cons_Inr:
  assumes "forEachE f (x # xs) s = Inr s'"
  obtains s1 where "f x s = Inr s1" "forEachE f xs s1 = Inr s'"
  using assms by (auto split: sum.splits)

lemma nameToFileDescriptorStep_Inr:
  assumes "nameToFileDescriptorStep fd m0 = Inr m1"
  obtains name where "Path fd = Inr name" "name \<noteq> []" "m0 name = None"
    "m1 = m0(name \<mapsto> fd)"
  using assms by (auto simp: nameToFileDescriptorStep_def split: sum.splits if_splits)

lemma nameToFileDescriptor_loop:
  "forEachE nameToFileDescriptorStep fds m0 = Inr m \<Longrightarrow>
   (\<forall>name fd. m name = Some fd \<longleftrightarrow>
      (m0 name = Some fd \<or> (fd \<in> set fds \<and> Path fd = Inr name))) \<and>
   distinct (map Path fds) \<and>
   (\<forall>fd\<in>set fds. \<exists>name. Path fd = Inr name \<and> name \<noteq> [] \<and> m0 name = None)"
proof (induction fds arbitrary: m0)
  case Nil
  then show ?case by simp
next
  case (Cons fd fds)
  from Cons.prems obtain m1 where step: "nameToFileDescriptorStep fd m0 = Inr m1"
    and rest1: "forEachE nameToFileDescriptorStep fds m1 = Inr m"
    by (rule forEachE_Cons_Inr)
  from step obtain name where name: "Path fd = Inr name" "name \<noteq> []" "m0 name = None"
    and m1: "m1 = m0(name \<mapsto> fd)"
    by (rule nameToFileDescriptorStep_Inr)
  have rest: "forEachE nameToFileDescriptorStep fds (m0(name \<mapsto> fd)) = Inr m"
    using rest1 m1 by simp
  note IH = Cons.IH[OF rest]
  have g: "\<forall>n f. m n = Some f \<longleftrightarrow>
      (m0 n = Some f \<or> (f \<in> set (fd # fds) \<and> Path f = Inr n))"
  proof (intro allI)
    fix n f
    have "m n = Some f \<longleftrightarrow> ((m0(name \<mapsto> fd)) n = Some f \<or> (f \<in> set fds \<and> Path f = Inr n))"
      using IH by blast
    also have "(m0(name \<mapsto> fd)) n = Some f \<longleftrightarrow> (m0 n = Some f \<or> (f = fd \<and> n = name))"
      using name(3) by auto
    finally show "m n = Some f \<longleftrightarrow> (m0 n = Some f \<or> (f \<in> set (fd # fds) \<and> Path f = Inr n))"
      using name(1) by auto
  qed
  have fresh: "\<forall>f\<in>set fds. \<exists>n. Path f = Inr n \<and> n \<noteq> [] \<and> n \<noteq> name \<and> m0 n = None"
  proof
    fix f assume "f \<in> set fds"
    with IH obtain n where n: "Path f = Inr n" "n \<noteq> []" "(m0(name \<mapsto> fd)) n = None" by blast
    from n(3) have "n \<noteq> name" "m0 n = None" by (auto split: if_splits)
    with n show "\<exists>n. Path f = Inr n \<and> n \<noteq> [] \<and> n \<noteq> name \<and> m0 n = None" by blast
  qed
  have d: "distinct (map Path (fd # fds))"
    using IH fresh name(1) by auto
  have a: "\<forall>f\<in>set (fd # fds). \<exists>n. Path f = Inr n \<and> n \<noteq> [] \<and> m0 n = None"
    using fresh name by auto
  show ?case using g d a by blast
qed

lemma nameToFileDescriptor_loop_ok:
  "distinct (map Path fds) \<Longrightarrow>
   (\<forall>fd\<in>set fds. \<exists>name. Path fd = Inr name \<and> name \<noteq> [] \<and> m0 name = None) \<Longrightarrow>
   \<exists>m. forEachE nameToFileDescriptorStep fds m0 = Inr m"
proof (induction fds arbitrary: m0)
  case Nil
  then show ?case by simp
next
  case (Cons fd fds)
  from Cons.prems(2) obtain name where name: "Path fd = Inr name" "name \<noteq> []" "m0 name = None"
    by auto
  have step: "nameToFileDescriptorStep fd m0 = Inr (m0(name \<mapsto> fd))"
    using name by (simp add: nameToFileDescriptorStep_def)
  have d: "distinct (map Path fds)" using Cons.prems(1) by simp
  have a: "\<forall>f\<in>set fds. \<exists>n. Path f = Inr n \<and> n \<noteq> [] \<and> (m0(name \<mapsto> fd)) n = None"
  proof
    fix f assume f: "f \<in> set fds"
    with Cons.prems(2) obtain n where n: "Path f = Inr n" "n \<noteq> []" "m0 n = None" by auto
    have "Path fd \<notin> Path ` set fds" using Cons.prems(1) by simp
    then have "Path f \<noteq> Path fd" using f by (metis imageI)
    then have "n \<noteq> name" using n(1) name(1) by auto
    then show "\<exists>n. Path f = Inr n \<and> n \<noteq> [] \<and> (m0(name \<mapsto> fd)) n = None"
      using n by auto
  qed
  from Cons.IH[OF d a] obtain m where "forEachE nameToFileDescriptorStep fds (m0(name \<mapsto> fd)) = Inr m"
    by blast
  then show ?case using step by simp
qed

lemma sortedFileDescriptor_loop:
  "forEachE (sortedFileDescriptorStep m) paths acc = Inr s \<Longrightarrow>
   \<exists>fds. s = acc @ fds \<and> map m paths = map Some fds"
proof (induction paths arbitrary: acc)
  case Nil
  then show ?case by simp
next
  case (Cons p paths)
  from Cons.prems obtain acc1 where step: "sortedFileDescriptorStep m p acc = Inr acc1"
    and rest1: "forEachE (sortedFileDescriptorStep m) paths acc1 = Inr s"
    by (rule forEachE_Cons_Inr)
  from step obtain fd where fd: "m p = Some fd" and acc1: "acc1 = acc @ [fd]"
    by (auto simp: sortedFileDescriptorStep_def split: option.splits)
  have rest: "forEachE (sortedFileDescriptorStep m) paths (acc @ [fd]) = Inr s"
    using rest1 acc1 by simp
  from Cons.IH[OF rest] obtain fds where "s = (acc @ [fd]) @ fds" "map m paths = map Some fds"
    by blast
  then have "s = acc @ (fd # fds) \<and> map m (p # paths) = map Some (fd # fds)"
    using fd by simp
  then show ?case by blast
qed

lemma checkAndSortFileDescriptors_Inr:
  assumes "checkAndSortFileDescriptors fds paths = Inr s"
  obtains m where "length fds = length paths"
    "forEachE nameToFileDescriptorStep fds Map.empty = Inr m"
    "forEachE (sortedFileDescriptorStep m) paths [] = Inr s"
  using assms by (auto simp: checkAndSortFileDescriptors_def split: if_splits sum.splits)

lemma checkAndSortFileDescriptors_paths:
  assumes "checkAndSortFileDescriptors fds paths = Inr s"
  shows "map Path s = map Inr paths \<and> set s \<subseteq> set fds"
proof -
  from assms obtain m where len: "length fds = length paths"
    and m: "forEachE nameToFileDescriptorStep fds Map.empty = Inr m"
    and s: "forEachE (sortedFileDescriptorStep m) paths [] = Inr s"
    by (rule checkAndSortFileDescriptors_Inr)
  from nameToFileDescriptor_loop[OF m]
  have g: "\<And>name fd. m name = Some fd \<longleftrightarrow> (fd \<in> set fds \<and> Path fd = Inr name)" by simp
  from sortedFileDescriptor_loop[OF s] have ms: "map m paths = map Some s" by simp
  then have len2: "length paths = length s" by (metis length_map)
  have each: "\<And>i. i < length s \<Longrightarrow> m (paths ! i) = Some (s ! i)"
  proof -
    fix i assume i: "i < length s"
    have "map m paths ! i = map Some s ! i" using ms by simp
    then show "m (paths ! i) = Some (s ! i)" using i len2 by simp
  qed
  have p: "map Path s = map Inr paths"
  proof (rule nth_equalityI)
    show "length (map Path s) = length (map Inr paths)" using len2 by simp
  next
    fix i assume "i < length (map Path s)"
    then have i: "i < length s" by simp
    from each[OF i] g have "Path (s ! i) = Inr (paths ! i)" by blast
    then show "map Path s ! i = map Inr paths ! i" using i len2 by simp
  qed
  have sub: "set s \<subseteq> set fds"
  proof
    fix x assume "x \<in> set s"
    then obtain i where i: "i < length s" "s ! i = x" by (auto simp: in_set_conv_nth)
    from each[OF i(1)] g i(2) show "x \<in> set fds" by blast
  qed
  show ?thesis using p sub by blast
qed

lemma checkAndSortFileDescriptors_mset:
  assumes ms: "mset fds1 = mset fds2"
    and ok: "checkAndSortFileDescriptors fds1 paths = Inr s"
  shows "checkAndSortFileDescriptors fds2 paths = Inr s"
proof -
  from ok obtain m1 where len: "length fds1 = length paths"
    and m1: "forEachE nameToFileDescriptorStep fds1 Map.empty = Inr m1"
    and s: "forEachE (sortedFileDescriptorStep m1) paths [] = Inr s"
    by (rule checkAndSortFileDescriptors_Inr)
  have len2: "length fds2 = length paths" using ms len by (metis mset_eq_length)
  have sets: "set fds1 = set fds2" using ms by (rule mset_eq_setD)
  note c1 = nameToFileDescriptor_loop[OF m1]
  have "mset (map Path fds1) = mset (map Path fds2)" using ms by simp
  then have d2: "distinct (map Path fds2)" using c1 by (metis mset_eq_imp_distinct_iff)
  have a2: "\<forall>fd\<in>set fds2. \<exists>name. Path fd = Inr name \<and> name \<noteq> [] \<and> Map.empty name = None"
    using c1 sets by simp
  from nameToFileDescriptor_loop_ok[OF d2 a2] obtain m2
    where m2: "forEachE nameToFileDescriptorStep fds2 Map.empty = Inr m2" by blast
  note c2 = nameToFileDescriptor_loop[OF m2]
  have g1: "\<And>n f. m1 n = Some f \<longleftrightarrow> (f \<in> set fds1 \<and> Path f = Inr n)"
    using c1 by simp
  have g2: "\<And>n f. m2 n = Some f \<longleftrightarrow> (f \<in> set fds2 \<and> Path f = Inr n)"
    using c2 by simp
  have eq: "\<And>n f. m1 n = Some f \<longleftrightarrow> m2 n = Some f"
    unfolding g1 g2 sets by (rule refl)
  have "m1 = m2"
  proof
    fix n
    show "m1 n = m2 n" by (metis eq not_None_eq)
  qed
  then show ?thesis using len2 m2 s by (simp add: checkAndSortFileDescriptors_def)
qed

lemma getImageFilesRec_Inr:
  assumes "getImageFilesRec a (FileDescriptor path imports sci) st = Inr st'"
  obtains (skipped) "path \<in> fst st" "st' = st"
  | (emitted) idx seen files f where "path \<notin> fst st"
      "importsLoop a (raFilenameToUnusedDependencyFilenames a path) imports 0
         (case raFilenameToUnusedDependencyFilenames a path of
            None \<Rightarrow> None | Some unused \<Rightarrow> Some [])
         (insert path (fst st), snd st) = Inr (idx, seen, files)"
      "st' = (seen, files @ [f])" "ifPath f = path"
      "fdpDependency (ifFileDescriptorProto f) = map importPath imports"
      "ifIsImport f = (path \<notin> raNonImportFilenames a)"
proof (cases "path \<in> fst st")
  case True
  then have "st' = st" using assms by simp
  then show ?thesis using True skipped by blast
next
  case False
  with assms obtain idx seen files where L:
    "importsLoop a (raFilenameToUnusedDependencyFilenames a path) imports 0
         (case raFilenameToUnusedDependencyFilenames a path of
            None \<Rightarrow> None | Some unused \<Rightarrow> Some [])
         (insert path (fst st), snd st) = Inr (idx, seen, files)"
    by (auto split: sum.splits)
  from assms False L obtain f where f: "st' = (seen, files @ [f])" "ifPath f = path"
      "fdpDependency (ifFileDescriptorProto f) = map importPath imports"
      "ifIsImport f = (path \<notin> raNonImportFilenames a)"
    by (auto simp: ifPath_def Let_def split: option.splits if_splits)
  show ?thesis using emitted[OF False L f] .
qed

lemma importsLoop_Cons_Inr:
  assumes "importsLoop a u (d # rest) i idx st = Inr r"
  obtains idx1 st1 where "getImageFilesRec a d st = Inr st1"
    "importsLoop a u rest (Suc i) idx1 st1 = Inr r"
  using assms by (auto split: sum.splits option.splits if_splits)

lemma importsLoop_paths_rel:
  assumes "\<And>d a1 a2 st1 st2 st1' st2'. d \<in> set deps \<Longrightarrow>
      getImageFilesRec a1 d st1 = Inr st1' \<Longrightarrow> getImageFilesRec a2 d st2 = Inr st2' \<Longrightarrow>
      fst st1 = fst st2 \<Longrightarrow> map ifPath (snd st1) = map ifPath (snd st2) \<Longrightarrow>
      fst st1' = fst st2' \<and> map ifPath (snd st1') = map ifPath (snd st2')"
    and "importsLoop a1 u1 deps i1 idx1 st1 = Inr (idx1', st1')"
    and "importsLoop a2 u2 deps i2 idx2 st2 = Inr (idx2', st2')"
    and "fst st1 = fst st2" and "map ifPath (snd st1) = map ifPath (snd st2)"
  shows "fst st1' = fst st2' \<and> map ifPath (snd st1') = map ifPath (snd st2')"
  using assms
proof (induction deps arbitrary: i1 i2 idx1 idx2 st1 st2)
  case Nil
  then show ?case by simp
next
  case (Cons d deps)
  from Cons.prems(2) obtain j1 t1 where r1: "getImageFilesRec a1 d st1 = Inr t1"
    and l1: "importsLoop a1 u1 deps (Suc i1) j1 t1 = Inr (idx1', st1')"
    by (rule importsLoop_Cons_Inr)
  from Cons.prems(3) obtain j2 t2 where r2: "getImageFilesRec a2 d st2 = Inr t2"
    and l2: "importsLoop a2 u2 deps (Suc i2) j2 t2 = Inr (idx2', st2')"
    by (rule importsLoop_Cons_Inr)
  have t: "fst t1 = fst t2 \<and> map ifPath (snd t1) = map ifPath (snd t2)"
    using Cons.prems(1)[OF _ r1 r2 Cons.prems(4,5)] by simp
  have P: "\<And>d a1 a2 st1 st2 st1' st2'. d \<in> set deps \<Longrightarrow>
      getImageFilesRec a1 d st1 = Inr st1' \<Longrightarrow> getImageFilesRec a2 d st2 = Inr st2' \<Longrightarrow>
      fst st1 = fst st2 \<Longrightarrow> map ifPath (snd st1) = map ifPath (snd st2) \<Longrightarrow>
      fst st1' = fst st2' \<and> map ifPath (snd st1') = map ifPath (snd st2')"
    using Cons.prems(1) by (meson list.set_intros(2))
  show ?case
    by (rule Cons.IH[OF P l1 l2]) (use t in blast)+
qed

lemma getImageFilesRec_paths_rel:
  "getImageFilesRec a1 fd st1 = Inr st1' \<Longrightarrow> getImageFilesRec a2 fd st2 = Inr st2' \<Longrightarrow>
   fst st1 = fst st2 \<Longrightarrow> map ifPath (snd st1) = map ifPath (snd st2) \<Longrightarrow>
   fst st1' = fst st2' \<and> map ifPath (snd st1') = map ifPath (snd st2')"
proof (induction fd arbitrary: a1 a2 st1 st2 st1' st2')
  case NilFileDescriptor
  then show ?case by simp
next
  case (FileDescriptor path imps sci)
  note r1 = FileDescriptor.prems(1) and r2 = FileDescriptor.prems(2)
  note e1 = FileDescriptor.prems(3) and e2 = FileDescriptor.prems(4)
  from r1 show ?case
  proof (cases rule: getImageFilesRec_Inr)
    case skipped
    then have "st1' = st1" "st2' = st2" using r2 e1 by auto
    then show ?thesis using e1 e2 by simp
  next
    case (emitted idx1 seen1 files1 f1)
    note l1 = emitted(2) and s1 = emitted(3,4)
    have n2: "path \<notin> fst st2" using emitted(1) e1 by simp
    from r2 show ?thesis
    proof (cases rule: getImageFilesRec_Inr)
      case skipped
      then show ?thesis using n2 by simp
    next
      case (emitted idx2 seen2 files2 f2)
      note l2 = emitted(2) and s2 = emitted(3,4)
      have "fst (seen1, files1) = fst (seen2, files2) \<and>
            map ifPath (snd (seen1, files1)) = map ifPath (snd (seen2, files2))"
      proof (rule importsLoop_paths_rel[OF _ l1 l2])
        show "fst (insert path (fst st1), snd st1) = fst (insert path (fst st2), snd st2)"
          using e1 by simp
        show "map ifPath (snd (insert path (fst st1), snd st1))
              = map ifPath (snd (insert path (fst st2), snd st2))"
          using e2 by simp
      next
        fix d b1 b2 t1 t2 t1' t2'
        assume "d \<in> set imps" "getImageFilesRec b1 d t1 = Inr t1'"
          "getImageFilesRec b2 d t2 = Inr t2'" "fst t1 = fst t2"
          "map ifPath (snd t1) = map ifPath (snd t2)"
        then show "fst t1' = fst t2' \<and> map ifPath (snd t1') = map ifPath (snd t2')"
          by (rule FileDescriptor.IH)
      qed
      then show ?thesis using s1 s2 by simp
    qed
  qed
qed

lemma getImageFilesRec_loop_paths_rel:
  "forEachE (getImageFilesRec a1) fds st1 = Inr st1' \<Longrightarrow>
   forEachE (getImageFilesRec a2) fds st2 = Inr st2' \<Longrightarrow>
   fst st1 = fst st2 \<Longrightarrow> map ifPath (snd st1) = map ifPath (snd st2) \<Longrightarrow>
   fst st1' = fst st2' \<and> map ifPath (snd st1') = map ifPath (snd st2')"
proof (induction fds arbitrary: st1 st2)
  case Nil
  then show ?case by simp
next
  case (Cons fd fds)
  from Cons.prems(1) obtain t1 where r1: "getImageFilesRec a1 fd st1 = Inr t1"
    and l1: "forEachE (getImageFilesRec a1) fds t1 = Inr st1'"
    by (auto split: sum.splits)
  from Cons.prems(2) obtain t2 where r2: "getImageFilesRec a2 fd st2 = Inr t2"
    and l2: "forEachE (getImageFilesRec a2) fds t2 = Inr st2'"
    by (auto split: sum.splits)
  have t: "fst t1 = fst t2 \<and> map ifPath (snd t1) = map ifPath (snd t2)"
    by (rule getImageFilesRec_paths_rel[OF r1 r2 Cons.prems(3,4)])
  show ?case by (rule Cons.IH[OF l1 l2]) (use t in blast)+
qed

lemma getImage_Inr:
  assumes "getImage env ex fds handler syn unused = Inr img"
  obtains names seen where "MapError Path fds = Inr names"
    "forEachE (getImageFilesRec
        \<lparr> raEnv = env, raExcludeSourceCodeInfo = ex, raHandler = handler,
          raSyntaxUnspecifiedFilenames = syn,
          raFilenameToUnusedDependencyFilenames = unused,
          raNonImportFilenames = set names \<rparr>) fds ({}, []) = Inr (seen, img)"
  using assms by (auto simp: getImage_def split: sum.splits option.splits)

lemma getImage_paths_rel:
  assumes "getImage env1 ex1 fds handler1 syn1 unused1 = Inr img1"
    and "getImage env2 ex2 fds handler2 syn2 unused2 = Inr img2"
  shows "map ifPath img1 = map ifPath img2"
proof -
  from assms(1) obtain names1 seen1 where l1:
    "forEachE (getImageFilesRec
        \<lparr> raEnv = env1, raExcludeSourceCodeInfo = ex1, raHandler = handler1,
          raSyntaxUnspecifiedFilenames = syn1,
          raFilenameToUnusedDependencyFilenames = unused1,
          raNonImportFilenames = set names1 \<rparr>) fds ({}, []) = Inr (seen1, img1)"
    by (rule getImage_Inr)
  from assms(2) obtain names2 seen2 where l2:
    "forEachE (getImageFilesRec
        \<lparr> raEnv = env2, raExcludeSourceCodeInfo = ex2, raHandler = handler2,
          raSyntaxUnspecifiedFilenames = syn2,
          raFilenameToUnusedDependencyFilenames = unused2,
          raNonImportFilenames = set names2 \<rparr>) fds ({}, []) = Inr (seen2, img2)"
    by (rule getImage_Inr)
  have "fst (seen1, img1) = fst (seen2, img2) \<and>
        map ifPath (snd (seen1, img1)) = map ifPath (snd (seen2, img2))"
    by (rule getImageFilesRec_loop_paths_rel[OF l1 l2]) simp_all
  then show ?thesis by simp
qed

lemma getBuildResult_clean:
  assumes "brErr (getBuildResult env handler paths ex np) = None"
    and "brFileAnnotations (getBuildResult env handler paths ex np) = []"
  shows "compileErr (Compile env (compilerConfigOf env ex np) paths) = None \<and>
         errorsWithPos (Compile env (compilerConfigOf env ex np) paths) = [] \<and>
         length (compiledFiles (Compile env (compilerConfigOf env ex np) paths)) = length paths \<and>
         checkCompiledFilePaths (compiledFiles (Compile env (compilerConfigOf env ex np) paths))
           paths = None \<and>
         brFileDescriptors (getBuildResult env handler paths ex np)
           = compiledFiles (Compile env (compilerConfigOf env ex np) paths)"
proof -
  let ?o = "Compile env (compilerConfigOf env ex np) paths"
  have ann: "\<And>es anns. es \<noteq> [] \<Longrightarrow> getFileAnnotations env handler es = Inr anns \<Longrightarrow> anns \<noteq> []"
    unfolding getFileAnnotations_def using MapError_Inr by fastforce
  show ?thesis
  proof (cases "compileErr ?o")
    case None
    then show ?thesis using assms
      by (auto simp: getBuildResult_def compilerConfigOf_def newBuildResult_def Let_def
          split: if_splits option.splits)
  next
    case (Some ce)
    show ?thesis
    proof (cases ce)
      case ErrInvalidSource
      then show ?thesis using assms Some ann[of "errorsWithPos ?o"]
        by (auto simp: getBuildResult_def compilerConfigOf_def newBuildResult_def Let_def
            split: if_splits sum.splits)
    next
      case (CompileErrorWithPos e)
      then show ?thesis using assms Some ann[of "[e]"]
        by (auto simp: getBuildResult_def compilerConfigOf_def newBuildResult_def Let_def
            split: if_splits sum.splits)
    next
      case (CompileOtherError e)
      then show ?thesis using assms Some
        by (auto simp: getBuildResult_def compilerConfigOf_def newBuildResult_def Let_def)
    qed
  qed
qed

lemma buildImage_Some:
  assumes "buildImage env b ex np = (Some img, anns, err)"
  obtains tfis fds where "ShouldBeSelfContained b" "GetTargetFileInfos b = Inr tfis"
    "tfis \<noteq> []" "anns = []" "err = None"
    "brErr (getBuildResult env (newParserAccessorHandler b) (FileInfoPaths tfis) ex np) = None"
    "brFileAnnotations (getBuildResult env (newParserAccessorHandler b) (FileInfoPaths tfis) ex np)
       = []"
    "checkAndSortFileDescriptors
       (brFileDescriptors (getBuildResult env (newParserAccessorHandler b) (FileInfoPaths tfis) ex np))
       (FileInfoPaths tfis) = Inr fds"
    "getImage env ex fds (newParserAccessorHandler b)
       (brSyntaxUnspecifiedFilenames
          (getBuildResult env (newParserAccessorHandler b) (FileInfoPaths tfis) ex np))
       (brFilenameToUnusedDependencyFilenames
          (getBuildResult env (newParserAccessorHandler b) (FileInfoPaths tfis) ex np))
     = Inr img"
  using assms
  by (auto simp: buildImage_def Let_def split: if_splits sum.splits option.splits)

lemmas exImage_defs = buildImage_def exImageEnv_def exCleanOutcome_def exImageBucket_def
  exFDa_def exFDb_def exFDc_def exImageFile_def FileInfoPaths_def exFileInfo_def exObject_def
  getBuildResult_def newBuildResult_def checkAndSortFileDescriptors_def
  nameToFileDescriptorStep_def sortedFileDescriptorStep_def getImage_def exHandler_def
  compilerConfigOf_def Let_def

lemma exImage_run:
  "buildImage (exImageEnv n (exCleanOutcome [exFDa, exFDc]))
     (exImageBucket [''a.proto'', ''c.proto'']) ex np
   = (Some [exImageFile ''b.proto'' [] True, exImageFile ''a.proto'' [''b.proto''] False,
            exImageFile ''c.proto'' [''b.proto''] False], [], None)"
  by (simp add: exImage_defs)

lemma checkCompiledFilePaths_Some:
  assumes "length fds = length paths" and "map Path fds \<noteq> map Inr paths"
  shows "\<exists>e. checkCompiledFilePaths fds paths = Some e"
proof (cases "checkCompiledFilePaths fds paths")
  case None
  then show ?thesis using checkCompiledFilePaths_None[OF assms(1)] assms(2) by blast
next
  case (Some e)
  then show ?thesis by blast
qed

lemma buildImage_unverified:
  assumes sc: "ShouldBeSelfContained b" and tfis: "GetTargetFileInfos b = Inr tfis"
    and ne: "tfis \<noteq> []"
    and clean: "compileErr (Compile env (compilerConfigOf env ex np) (FileInfoPaths tfis)) = None"
      "errorsWithPos (Compile env (compilerConfigOf env ex np) (FileInfoPaths tfis)) = []"
    and bad: "length (compiledFiles (Compile env (compilerConfigOf env ex np) (FileInfoPaths tfis)))
                \<noteq> length (FileInfoPaths tfis) \<or>
              map Path (compiledFiles (Compile env (compilerConfigOf env ex np) (FileInfoPaths tfis)))
                \<noteq> map Inr (FileInfoPaths tfis)"
  shows "\<exists>e. buildImage env b ex np = (None, [], Some e)"
proof -
  let ?paths = "FileInfoPaths tfis"
  let ?o = "Compile env (compilerConfigOf env ex np) ?paths"
  have "\<exists>e. brErr (getBuildResult env (newParserAccessorHandler b) ?paths ex np) = Some e"
  proof (cases "length (compiledFiles ?o) = length ?paths")
    case False
    then show ?thesis using clean
      by (simp add: getBuildResult_def compilerConfigOf_def newBuildResult_def Let_def)
  next
    case True
    with bad have "map Path (compiledFiles ?o) \<noteq> map Inr ?paths" by blast
    from checkCompiledFilePaths_Some[OF True this]
    obtain e where "checkCompiledFilePaths (compiledFiles ?o) ?paths = Some e" by blast
    then show ?thesis using clean True
      by (simp add: getBuildResult_def compilerConfigOf_def newBuildResult_def Let_def)
  qed
  then show ?thesis using sc tfis ne by (auto simp: buildImage_def Let_def)
qed

lemma checkAndSortFileDescriptors_sorted:
  assumes "checkAndSortFileDescriptors fds paths = Inr s"
  shows "length fds = length paths \<and> distinct (map Path fds) \<and> length s = length paths \<and>
         (\<forall>i<length paths. s ! i \<in> set fds \<and> Path (s ! i) = Inr (paths ! i))"
proof -
  from assms obtain m where len: "length fds = length paths"
    and m: "forEachE nameToFileDescriptorStep fds Map.empty = Inr m"
    by (rule checkAndSortFileDescriptors_Inr)
  have d: "distinct (map Path fds)" using nameToFileDescriptor_loop[OF m] by blast
  have p: "map Path s = map Inr paths" and sub: "set s \<subseteq> set fds"
    using checkAndSortFileDescriptors_paths[OF assms] by blast+
  have ls: "length s = length paths" using p by (metis length_map)
  have each: "\<forall>i<length paths. s ! i \<in> set fds \<and> Path (s ! i) = Inr (paths ! i)"
  proof (intro allI impI)
    fix i assume i: "i < length paths"
    then have "s ! i \<in> set fds" using sub ls by (metis nth_mem subsetD)
    moreover have "map Path s ! i = map Inr paths ! i" using p by simp
    then have "Path (s ! i) = Inr (paths ! i)" using i ls by simp
    ultimately show "s ! i \<in> set fds \<and> Path (s ! i) = Inr (paths ! i)" by blast
  qed
  show ?thesis using len d ls each by blast
qed

lemma sort_then_traverse_permutation:
  assumes ms: "mset fdsA = mset fdsB"
    and kA: "checkAndSortFileDescriptors fdsA ps = Inr sA"
    and kB: "checkAndSortFileDescriptors fdsB ps = Inr sB"
    and gA: "getImage envA exA sA hA synA unA = Inr imgA"
    and gB: "getImage envB exB sB hB synB unB = Inr imgB"
  shows "map ifPath imgA = map ifPath imgB"
proof -
  have "checkAndSortFileDescriptors fdsB ps = Inr sA"
    by (rule checkAndSortFileDescriptors_mset[OF ms kA])
  then have eq: "sB = sA" using kB by simp
  show ?thesis by (rule getImage_paths_rel[OF gA gB[unfolded eq]])
qed

text \<open>
  Claim C4. For a fixed set of input files and a fixed compiler, the path sequence of the
  Image does not depend on the run.
  (1) Two runs of \<open>buildImage\<close> on the same bucket, with any options, any parallelism and
  any warnings, whose compilers return the same descriptors and which both produce an
  Image, list the same paths in the same order.
  (2) After a clean compile the builder verifies the compiler's output: a run that
  produces an Image has as many descriptors as requested paths, each with the requested
  path at its index; and a clean compile whose output fails this verification, a permuted
  output for instance, ends in an error and not in an Image.
  (3) \<open>checkAndSortFileDescriptors\<close> sorts descriptors given in any order into the order of
  the requested paths: when it succeeds there are as many descriptors as paths, their
  paths are distinct, the result holds at each index the given descriptor that has the
  requested path of that index, and every permutation of the descriptors gives the same
  result.
  (4) So sorting followed by the graph traversal does not depend on the order of the
  descriptors: on two permutations the Images of \<open>getImage\<close> list the same paths in the same
  order.
\<close>

theorem image_order_deterministic:
  "(buildImage env1 b ex1 np1 = (Some img1, anns1, err1) \<and>
    buildImage env2 b ex2 np2 = (Some img2, anns2, err2) \<and>
    GetTargetFileInfos b = Inr tfis \<and>
    mset (compiledFiles (Compile env1 (compilerConfigOf env1 ex1 np1) (FileInfoPaths tfis)))
      = mset (compiledFiles (Compile env2 (compilerConfigOf env2 ex2 np2) (FileInfoPaths tfis))) \<longrightarrow>
    map ifPath img1 = map ifPath img2) \<and>
   (buildImage env1 b ex1 np1 = (Some img1, anns1, err1) \<and> GetTargetFileInfos b = Inr tfis \<longrightarrow>
    length (compiledFiles (Compile env1 (compilerConfigOf env1 ex1 np1) (FileInfoPaths tfis)))
      = length (FileInfoPaths tfis) \<and>
    map Path (compiledFiles (Compile env1 (compilerConfigOf env1 ex1 np1) (FileInfoPaths tfis)))
      = map Inr (FileInfoPaths tfis)) \<and>
   (ShouldBeSelfContained b \<and> GetTargetFileInfos b = Inr tfis \<and> tfis \<noteq> [] \<and>
    compileErr (Compile env1 (compilerConfigOf env1 ex1 np1) (FileInfoPaths tfis)) = None \<and>
    errorsWithPos (Compile env1 (compilerConfigOf env1 ex1 np1) (FileInfoPaths tfis)) = [] \<and>
    (length (compiledFiles (Compile env1 (compilerConfigOf env1 ex1 np1) (FileInfoPaths tfis)))
       \<noteq> length (FileInfoPaths tfis) \<or>
     map Path (compiledFiles (Compile env1 (compilerConfigOf env1 ex1 np1) (FileInfoPaths tfis)))
       \<noteq> map Inr (FileInfoPaths tfis)) \<longrightarrow>
    (\<exists>e. buildImage env1 b ex1 np1 = (None, [], Some e))) \<and>
   (checkAndSortFileDescriptors fds ps = Inr sfds \<longrightarrow>
    length fds = length ps \<and> distinct (map Path fds) \<and> length sfds = length ps \<and>
    (\<forall>i<length ps. sfds ! i \<in> set fds \<and> Path (sfds ! i) = Inr (ps ! i)) \<and>
    (\<forall>fds'. mset fds' = mset fds \<longrightarrow> checkAndSortFileDescriptors fds' ps = Inr sfds)) \<and>
   (mset fdsA = mset fdsB \<and>
    checkAndSortFileDescriptors fdsA ps = Inr sA \<and>
    checkAndSortFileDescriptors fdsB ps = Inr sB \<and>
    getImage envA exA sA hA synA unA = Inr imgA \<and>
    getImage envB exB sB hB synB unB = Inr imgB \<longrightarrow>
    map ifPath imgA = map ifPath imgB)"
proof -
  let ?paths = "FileInfoPaths tfis"
  let ?h = "newParserAccessorHandler b"
  let ?o1 = "Compile env1 (compilerConfigOf env1 ex1 np1) ?paths"
  let ?o2 = "Compile env2 (compilerConfigOf env2 ex2 np2) ?paths"
  let ?b1 = "getBuildResult env1 ?h ?paths ex1 np1"
  let ?b2 = "getBuildResult env2 ?h ?paths ex2 np2"
  have verified: "length (compiledFiles ?o1) = length ?paths \<and>
                  map Path (compiledFiles ?o1) = map Inr ?paths"
    if run1: "buildImage env1 b ex1 np1 = (Some img1, anns1, err1)"
      and tfis: "GetTargetFileInfos b = Inr tfis"
  proof -
    from run1 tfis have c1: "brErr ?b1 = None" "brFileAnnotations ?b1 = []"
      by (auto elim!: buildImage_Some)
    note v1 = getBuildResult_clean[OF c1]
    have len: "length (compiledFiles ?o1) = length ?paths" using v1 by blast
    have chk: "checkCompiledFilePaths (compiledFiles ?o1) ?paths = None" using v1 by blast
    show ?thesis using len checkCompiledFilePaths_None[OF len chk] by blast
  qed
  have runs: "map ifPath img1 = map ifPath img2"
    if run1: "buildImage env1 b ex1 np1 = (Some img1, anns1, err1)"
      and run2: "buildImage env2 b ex2 np2 = (Some img2, anns2, err2)"
      and tfis: "GetTargetFileInfos b = Inr tfis"
      and same: "mset (compiledFiles ?o1) = mset (compiledFiles ?o2)"
  proof -
    from run1 tfis obtain s1 where
      c1: "brErr ?b1 = None" "brFileAnnotations ?b1 = []"
      and k1: "checkAndSortFileDescriptors (brFileDescriptors ?b1) ?paths = Inr s1"
      and g1: "getImage env1 ex1 s1 ?h (brSyntaxUnspecifiedFilenames ?b1)
                 (brFilenameToUnusedDependencyFilenames ?b1) = Inr img1"
      by (auto elim!: buildImage_Some)
    from run2 tfis obtain s2 where
      c2: "brErr ?b2 = None" "brFileAnnotations ?b2 = []"
      and k2: "checkAndSortFileDescriptors (brFileDescriptors ?b2) ?paths = Inr s2"
      and g2: "getImage env2 ex2 s2 ?h (brSyntaxUnspecifiedFilenames ?b2)
                 (brFilenameToUnusedDependencyFilenames ?b2) = Inr img2"
      by (auto elim!: buildImage_Some)
    have f1: "brFileDescriptors ?b1 = compiledFiles ?o1"
      using getBuildResult_clean[OF c1] by blast
    have f2: "brFileDescriptors ?b2 = compiledFiles ?o2"
      using getBuildResult_clean[OF c2] by blast
    show ?thesis
      by (rule sort_then_traverse_permutation[OF same k1[unfolded f1] k2[unfolded f2] g1 g2])
  qed
  have rejected: "\<exists>e. buildImage env1 b ex1 np1 = (None, [], Some e)"
    if "ShouldBeSelfContained b \<and> GetTargetFileInfos b = Inr tfis \<and> tfis \<noteq> [] \<and>
        compileErr ?o1 = None \<and> errorsWithPos ?o1 = [] \<and>
        (length (compiledFiles ?o1) \<noteq> length ?paths \<or>
         map Path (compiledFiles ?o1) \<noteq> map Inr ?paths)"
  proof -
    from that have sc: "ShouldBeSelfContained b" and t: "GetTargetFileInfos b = Inr tfis"
      and n: "tfis \<noteq> []" and c: "compileErr ?o1 = None" and e: "errorsWithPos ?o1 = []"
      and bad: "length (compiledFiles ?o1) \<noteq> length ?paths \<or>
                map Path (compiledFiles ?o1) \<noteq> map Inr ?paths" by blast+
    show ?thesis by (rule buildImage_unverified[OF sc t n c e bad])
  qed
  have sorts: "length fds = length ps \<and> distinct (map Path fds) \<and> length sfds = length ps \<and>
    (\<forall>i<length ps. sfds ! i \<in> set fds \<and> Path (sfds ! i) = Inr (ps ! i)) \<and>
    (\<forall>fds'. mset fds' = mset fds \<longrightarrow> checkAndSortFileDescriptors fds' ps = Inr sfds)"
    if k: "checkAndSortFileDescriptors fds ps = Inr sfds"
  proof -
    have perm: "\<forall>fds'. mset fds' = mset fds \<longrightarrow> checkAndSortFileDescriptors fds' ps = Inr sfds"
      using checkAndSortFileDescriptors_mset[OF _ k] by metis
    show ?thesis using checkAndSortFileDescriptors_sorted[OF k] perm by blast
  qed
  show ?thesis
  proof (intro conjI impI)
    assume "buildImage env1 b ex1 np1 = (Some img1, anns1, err1) \<and>
      buildImage env2 b ex2 np2 = (Some img2, anns2, err2) \<and>
      GetTargetFileInfos b = Inr tfis \<and> mset (compiledFiles ?o1) = mset (compiledFiles ?o2)"
    then have g1: "buildImage env1 b ex1 np1 = (Some img1, anns1, err1)"
      and g2: "buildImage env2 b ex2 np2 = (Some img2, anns2, err2)"
      and g3: "GetTargetFileInfos b = Inr tfis"
      and g4: "mset (compiledFiles ?o1) = mset (compiledFiles ?o2)" by blast+
    show "map ifPath img1 = map ifPath img2" by (rule runs[OF g1 g2 g3 g4])
  next
    assume a: "buildImage env1 b ex1 np1 = (Some img1, anns1, err1) \<and>
      GetTargetFileInfos b = Inr tfis"
    show "length (compiledFiles ?o1) = length ?paths" using verified a by blast
    show "map Path (compiledFiles ?o1) = map Inr ?paths" using verified a by blast
  next
    assume "ShouldBeSelfContained b \<and> GetTargetFileInfos b = Inr tfis \<and> tfis \<noteq> [] \<and>
        compileErr ?o1 = None \<and> errorsWithPos ?o1 = [] \<and>
        (length (compiledFiles ?o1) \<noteq> length ?paths \<or>
         map Path (compiledFiles ?o1) \<noteq> map Inr ?paths)"
    then show "\<exists>e. buildImage env1 b ex1 np1 = (None, [], Some e)" by (rule rejected)
  next
    assume k: "checkAndSortFileDescriptors fds ps = Inr sfds"
    show "length fds = length ps" using sorts[OF k] by blast
    show "distinct (map Path fds)" using sorts[OF k] by blast
    show "length sfds = length ps" using sorts[OF k] by blast
    show "\<forall>i<length ps. sfds ! i \<in> set fds \<and> Path (sfds ! i) = Inr (ps ! i)"
      using sorts[OF k] by blast
    show "\<forall>fds'. mset fds' = mset fds \<longrightarrow> checkAndSortFileDescriptors fds' ps = Inr sfds"
      using sorts[OF k] by blast
  next
    assume h: "mset fdsA = mset fdsB \<and>
      checkAndSortFileDescriptors fdsA ps = Inr sA \<and>
      checkAndSortFileDescriptors fdsB ps = Inr sB \<and>
      getImage envA exA sA hA synA unA = Inr imgA \<and>
      getImage envB exB sB hB synB unB = Inr imgB"
    then have h1: "mset fdsA = mset fdsB"
      and h2: "checkAndSortFileDescriptors fdsA ps = Inr sA"
      and h3: "checkAndSortFileDescriptors fdsB ps = Inr sB"
      and h4: "getImage envA exA sA hA synA unA = Inr imgA"
      and h5: "getImage envB exB sB hB synB unB = Inr imgB" by blast+
    show "map ifPath imgA = map ifPath imgB"
      by (rule sort_then_traverse_permutation[OF h1 h2 h3 h4 h5])
  qed
qed

theorem image_order_deterministic_witness:
  "buildImage (exImageEnv 8 (exCleanOutcome [exFDa, exFDc]))
     (exImageBucket [''a.proto'', ''c.proto'']) False False
   = (Some [exImageFile ''b.proto'' [] True, exImageFile ''a.proto'' [''b.proto''] False,
            exImageFile ''c.proto'' [''b.proto''] False], [], None) \<and>
   buildImage (exImageEnv 1 (exCleanOutcome [exFDa, exFDc]))
     (exImageBucket [''a.proto'', ''c.proto'']) True True
   = (Some [exImageFile ''b.proto'' [] True, exImageFile ''a.proto'' [''b.proto''] False,
            exImageFile ''c.proto'' [''b.proto''] False], [], None) \<and>
   map ifPath [exImageFile ''b.proto'' [] True, exImageFile ''a.proto'' [''b.proto''] False,
               exImageFile ''c.proto'' [''b.proto''] False]
   = [''b.proto'', ''a.proto'', ''c.proto''] \<and>
   checkAndSortFileDescriptors [exFDc, exFDa] [''a.proto'', ''c.proto''] = Inr [exFDa, exFDc] \<and>
   checkAndSortFileDescriptors [exFDa, exFDc] [''a.proto'', ''c.proto''] = Inr [exFDa, exFDc] \<and>
   map Path [exFDa, exFDc] = map Inr [''a.proto'', ''c.proto''] \<and>
   buildImage (exImageEnv 8 (exCleanOutcome [exFDc, exFDa]))
     (exImageBucket [''a.proto'', ''c.proto'']) False False
   = (None, [], Some (ExpectedFileDescriptorName ''c.proto'' ''a.proto''))"
proof -
  let ?img = "[exImageFile ''b.proto'' [] True, exImageFile ''a.proto'' [''b.proto''] False,
               exImageFile ''c.proto'' [''b.proto''] False]"
  let ?b = "exImageBucket [''a.proto'', ''c.proto'']"
  let ?ps = "[''a.proto'', ''c.proto'']"
  let ?tfis = "map (\<lambda>p. exFileInfo True p FileTypeProto True) [''a.proto'', ''c.proto'']"
  note T = image_order_deterministic
  have r1: "buildImage (exImageEnv 8 (exCleanOutcome [exFDa, exFDc])) ?b False False
            = (Some ?img, [], None)"
    by (rule exImage_run)
  have r2: "buildImage (exImageEnv 1 (exCleanOutcome [exFDa, exFDc])) ?b True True
            = (Some ?img, [], None)"
    by (rule exImage_run)
  have t: "GetTargetFileInfos ?b = Inr ?tfis" by (simp add: exImageBucket_def)
  have s: "mset (compiledFiles (Compile (exImageEnv 8 (exCleanOutcome [exFDa, exFDc]))
                   (compilerConfigOf (exImageEnv 8 (exCleanOutcome [exFDa, exFDc])) False False)
                   (FileInfoPaths ?tfis)))
         = mset (compiledFiles (Compile (exImageEnv 1 (exCleanOutcome [exFDa, exFDc]))
                   (compilerConfigOf (exImageEnv 1 (exCleanOutcome [exFDa, exFDc])) True True)
                   (FileInfoPaths ?tfis)))"
    by (simp add: exImageEnv_def)
  have e: "map ifPath ?img = map ifPath ?img"
    using T[THEN conjunct1, rule_format, OF conjI[OF r1 conjI[OF r2 conjI[OF t s]]]] .
  have p: "map ifPath ?img = [''b.proto'', ''a.proto'', ''c.proto'']"
    using e by (simp add: ifPath_def exImageFile_def)
  have k: "checkAndSortFileDescriptors [exFDc, exFDa] ?ps = Inr [exFDa, exFDc]"
    by (simp add: checkAndSortFileDescriptors_def nameToFileDescriptorStep_def
        sortedFileDescriptorStep_def exFDa_def exFDb_def exFDc_def)
  have m: "mset [exFDa, exFDc] = mset [exFDc, exFDa]" by (simp add: add.commute)
  note S = T[THEN conjunct2, THEN conjunct2, THEN conjunct2, THEN conjunct1, rule_format, OF k]
  have k2: "checkAndSortFileDescriptors [exFDa, exFDc] ?ps = Inr [exFDa, exFDc]"
    using S[THEN conjunct2, THEN conjunct2, THEN conjunct2, THEN conjunct2, rule_format, OF m] .
  have o: "map Path [exFDa, exFDc] = map Inr ?ps"
    by (simp add: exFDa_def exFDc_def)
  have x: "buildImage (exImageEnv 8 (exCleanOutcome [exFDc, exFDa])) ?b False False
           = (None, [], Some (ExpectedFileDescriptorName ''c.proto'' ''a.proto''))"
    by (simp add: exImage_defs)
  show ?thesis using r1 r2 p k k2 o x by (intro conjI)
qed

lemma topoFrom_append:
  "topoFrom S (fs @ [f]) \<longleftrightarrow>
     (topoFrom S fs \<and> ifPath f \<notin> S \<union> ifPath ` set fs \<and>
      set (fdpDependency (ifFileDescriptorProto f)) \<subseteq> S \<union> ifPath ` set fs)"
  by (induction fs arbitrary: S) auto

lemma topoFrom_order:
  "topoFrom S fs \<Longrightarrow>
   (\<forall>i<length fs. \<forall>d\<in>set (fdpDependency (ifFileDescriptorProto (fs ! i))).
      d \<in> S \<or> (\<exists>j<i. ifPath (fs ! j) = d))"
proof (induction fs arbitrary: S)
  case Nil
  then show ?case by simp
next
  case (Cons f fs)
  from Cons.prems have f: "set (fdpDependency (ifFileDescriptorProto f)) \<subseteq> S"
    and rest: "topoFrom (insert (ifPath f) S) fs" by simp_all
  note IH = Cons.IH[OF rest]
  show ?case
  proof (intro allI impI ballI)
    fix i d
    assume i: "i < length (f # fs)"
      and d: "d \<in> set (fdpDependency (ifFileDescriptorProto ((f # fs) ! i)))"
    show "d \<in> S \<or> (\<exists>j<i. ifPath ((f # fs) ! j) = d)"
    proof (cases i)
      case 0
      then show ?thesis using d f by auto
    next
      case (Suc k)
      then have k: "k < length fs" "d \<in> set (fdpDependency (ifFileDescriptorProto (fs ! k)))"
        using i d by simp_all
      with IH have "d \<in> insert (ifPath f) S \<or> (\<exists>j<k. ifPath (fs ! j) = d)" by blast
      then consider "d = ifPath f" | "d \<in> S" | j where "j < k" "ifPath (fs ! j) = d" by blast
      then show ?thesis
      proof cases
        case 1
        then have "0 < i \<and> ifPath ((f # fs) ! 0) = d" using Suc by simp
        then show ?thesis by blast
      next
        case 2
        then show ?thesis by simp
      next
        case 3
        then have "Suc j < i \<and> ifPath ((f # fs) ! Suc j) = d" using Suc by simp
        then show ?thesis by blast
      qed
    qed
  qed
qed

lemma importsLoop_dfsInvariant:
  assumes "\<And>d A st st'. d \<in> set deps \<Longrightarrow> getImageFilesRec a d st = Inr st' \<Longrightarrow>
      dfsInvariant a A st \<Longrightarrow>
      dfsInvariant a A st' \<and> ifPath ` set (snd st) \<subseteq> ifPath ` set (snd st')"
    and "importsLoop a u deps i idx st = Inr (idx', st')"
    and "dfsInvariant a A st"
  shows "dfsInvariant a A st' \<and> ifPath ` set (snd st) \<subseteq> ifPath ` set (snd st')"
  using assms
proof (induction deps arbitrary: i idx st)
  case Nil
  then show ?case by simp
next
  case (Cons d deps)
  from Cons.prems(2) obtain j t where r: "getImageFilesRec a d st = Inr t"
    and l: "importsLoop a u deps (Suc i) j t = Inr (idx', st')"
    by (rule importsLoop_Cons_Inr)
  have t: "dfsInvariant a A t \<and> ifPath ` set (snd st) \<subseteq> ifPath ` set (snd t)"
    using Cons.prems(1)[OF _ r Cons.prems(3)] by simp
  have P: "\<And>d A st st'. d \<in> set deps \<Longrightarrow> getImageFilesRec a d st = Inr st' \<Longrightarrow>
      dfsInvariant a A st \<Longrightarrow>
      dfsInvariant a A st' \<and> ifPath ` set (snd st) \<subseteq> ifPath ` set (snd st')"
    using Cons.prems(1) by (meson list.set_intros(2))
  have "dfsInvariant a A st' \<and> ifPath ` set (snd t) \<subseteq> ifPath ` set (snd st')"
    using Cons.IH[OF P l t[THEN conjunct1]] .
  then show ?case using t by blast
qed

lemma getImageFilesRec_dfsInvariant:
  "getImageFilesRec a fd st = Inr st' \<Longrightarrow> dfsInvariant a A st \<Longrightarrow>
   dfsInvariant a A st' \<and> ifPath ` set (snd st) \<subseteq> ifPath ` set (snd st')"
proof (induction fd arbitrary: A st st')
  case NilFileDescriptor
  then show ?case by simp
next
  case (FileDescriptor path imps sci)
  note inv = FileDescriptor.prems(2)
  from FileDescriptor.prems(1) show ?case
  proof (cases rule: getImageFilesRec_Inr)
    case skipped
    then show ?thesis using inv by simp
  next
    case (emitted idx seen files f)
    have inv1: "dfsInvariant a (insert path A) (insert path (fst st), snd st)"
      using inv emitted(1) by (auto simp: dfsInvariant_def)
    have post: "dfsInvariant a (insert path A) (seen, files) \<and>
                ifPath ` set (snd (insert path (fst st), snd st)) \<subseteq> ifPath ` set (snd (seen, files))"
    proof (rule importsLoop_dfsInvariant[OF _ emitted(2) inv1])
      fix d B t t'
      assume "d \<in> set imps" "getImageFilesRec a d t = Inr t'" "dfsInvariant a B t"
      then show "dfsInvariant a B t' \<and> ifPath ` set (snd t) \<subseteq> ifPath ` set (snd t')"
        by (rule FileDescriptor.IH)
    qed
    have notA: "path \<notin> A" using inv emitted(1) by (auto simp: dfsInvariant_def)
    have "dfsInvariant a A (seen, files @ [f])"
      using post emitted(4,6) notA by (auto simp: dfsInvariant_def)
    then show ?thesis using post emitted(3) by auto
  qed
qed

lemma importsLoop_topoFrom:
  assumes "\<And>d A st st'. d \<in> set deps \<Longrightarrow> getImageFilesRec a d st = Inr st' \<Longrightarrow>
      acyclicFD d \<Longrightarrow> dfsInvariant a A st \<Longrightarrow> fdPaths d \<inter> A = {} \<Longrightarrow>
      topoFrom {} (snd st) \<Longrightarrow>
      topoFrom {} (snd st') \<and> importPath d \<in> ifPath ` set (snd st')"
    and "importsLoop a u deps i idx st = Inr (idx', st')"
    and "\<forall>d\<in>set deps. acyclicFD d \<and> fdPaths d \<inter> A = {}"
    and "dfsInvariant a A st" and "topoFrom {} (snd st)"
  shows "topoFrom {} (snd st') \<and> importPath ` set deps \<subseteq> ifPath ` set (snd st')"
  using assms
proof (induction deps arbitrary: i idx st)
  case Nil
  then show ?case by simp
next
  case (Cons d deps)
  from Cons.prems(2) obtain j t where r: "getImageFilesRec a d st = Inr t"
    and l: "importsLoop a u deps (Suc i) j t = Inr (idx', st')"
    by (rule importsLoop_Cons_Inr)
  have d: "acyclicFD d" "fdPaths d \<inter> A = {}" using Cons.prems(3) by simp_all
  have t: "topoFrom {} (snd t) \<and> importPath d \<in> ifPath ` set (snd t)"
    using Cons.prems(1)[OF _ r d(1) Cons.prems(4) d(2) Cons.prems(5)] by simp
  have tinv: "dfsInvariant a A t"
    using getImageFilesRec_dfsInvariant[OF r Cons.prems(4)] by blast
  have P: "\<And>d A st st'. d \<in> set deps \<Longrightarrow> getImageFilesRec a d st = Inr st' \<Longrightarrow>
      acyclicFD d \<Longrightarrow> dfsInvariant a A st \<Longrightarrow> fdPaths d \<inter> A = {} \<Longrightarrow>
      topoFrom {} (snd st) \<Longrightarrow>
      topoFrom {} (snd st') \<and> importPath d \<in> ifPath ` set (snd st')"
    using Cons.prems(1) by (meson list.set_intros(2))
  have rest: "\<forall>d\<in>set deps. acyclicFD d \<and> fdPaths d \<inter> A = {}" using Cons.prems(3) by simp
  have post: "topoFrom {} (snd st') \<and> importPath ` set deps \<subseteq> ifPath ` set (snd st')"
    using Cons.IH[OF P l rest tinv t[THEN conjunct1]] .
  have mono: "ifPath ` set (snd t) \<subseteq> ifPath ` set (snd st')"
  proof -
    have "dfsInvariant a A st' \<and> ifPath ` set (snd t) \<subseteq> ifPath ` set (snd st')"
    proof (rule importsLoop_dfsInvariant[OF _ l tinv])
      fix d B s s'
      assume "d \<in> set deps" "getImageFilesRec a d s = Inr s'" "dfsInvariant a B s"
      then show "dfsInvariant a B s' \<and> ifPath ` set (snd s) \<subseteq> ifPath ` set (snd s')"
        using getImageFilesRec_dfsInvariant by blast
    qed
    then show ?thesis by blast
  qed
  show ?case using post t mono by auto
qed

lemma getImageFilesRec_topoFrom:
  "getImageFilesRec a fd st = Inr st' \<Longrightarrow> acyclicFD fd \<Longrightarrow> dfsInvariant a A st \<Longrightarrow>
   fdPaths fd \<inter> A = {} \<Longrightarrow> topoFrom {} (snd st) \<Longrightarrow>
   topoFrom {} (snd st') \<and> importPath fd \<in> ifPath ` set (snd st')"
proof (induction fd arbitrary: A st st')
  case NilFileDescriptor
  then show ?case by simp
next
  case (FileDescriptor path imps sci)
  note acyc = FileDescriptor.prems(2) and inv = FileDescriptor.prems(3)
  note disj = FileDescriptor.prems(4) and topo = FileDescriptor.prems(5)
  from FileDescriptor.prems(1) show ?case
  proof (cases rule: getImageFilesRec_Inr)
    case skipped
    have "path \<notin> A" using disj by auto
    then have "path \<in> ifPath ` set (snd st)" using skipped(1) inv by (auto simp: dfsInvariant_def)
    then show ?thesis using skipped(2) topo by simp
  next
    case (emitted idx seen files f)
    have inv1: "dfsInvariant a (insert path A) (insert path (fst st), snd st)"
      using inv emitted(1) by (auto simp: dfsInvariant_def)
    have deps: "\<forall>d\<in>set imps. acyclicFD d \<and> fdPaths d \<inter> insert path A = {}"
      using acyc disj by auto
    have topo1: "topoFrom {} (snd (insert path (fst st), snd st))" using topo by simp
    have post: "topoFrom {} (snd (seen, files)) \<and>
                importPath ` set imps \<subseteq> ifPath ` set (snd (seen, files))"
    proof (rule importsLoop_topoFrom[OF _ emitted(2) deps inv1 topo1])
      fix d B t t'
      assume "d \<in> set imps" "getImageFilesRec a d t = Inr t'" "acyclicFD d"
        "dfsInvariant a B t" "fdPaths d \<inter> B = {}" "topoFrom {} (snd t)"
      then show "topoFrom {} (snd t') \<and> importPath d \<in> ifPath ` set (snd t')"
        by (rule FileDescriptor.IH)
    qed
    have inv2: "dfsInvariant a (insert path A) (seen, files)"
    proof -
      have "dfsInvariant a (insert path A) (seen, files) \<and>
            ifPath ` set (snd (insert path (fst st), snd st)) \<subseteq> ifPath ` set (snd (seen, files))"
      proof (rule importsLoop_dfsInvariant[OF _ emitted(2) inv1])
        fix d B s s'
        assume "d \<in> set imps" "getImageFilesRec a d s = Inr s'" "dfsInvariant a B s"
        then show "dfsInvariant a B s' \<and> ifPath ` set (snd s) \<subseteq> ifPath ` set (snd s')"
          using getImageFilesRec_dfsInvariant by blast
      qed
      then show ?thesis by blast
    qed
    have fresh: "path \<notin> ifPath ` set files" using inv2 by (auto simp: dfsInvariant_def)
    have "topoFrom {} (files @ [f])"
      unfolding topoFrom_append using post fresh emitted(4,5) by auto
    then show ?thesis using emitted(3,4) by simp
  qed
qed

lemma MapError_Inr_map:
  "MapError f xs = Inr ys \<Longrightarrow> map f xs = map Inr ys"
proof (induction xs arbitrary: ys)
  case Nil
  then show ?case by simp
next
  case (Cons x xs)
  then show ?case by (auto split: sum.splits)
qed

lemma getImage_invariants:
  assumes "getImage env ex fds handler syn unused = Inr img"
  obtains names where "MapError Path fds = Inr names" "distinct (map ifPath img)"
    "\<forall>f\<in>set img. ifIsImport f = (ifPath f \<notin> set names)"
    "(\<forall>fd\<in>set fds. acyclicFD fd) \<longrightarrow> topoFrom {} img"
proof -
  from assms obtain names seen where names: "MapError Path fds = Inr names"
    and loop: "forEachE (getImageFilesRec
        \<lparr> raEnv = env, raExcludeSourceCodeInfo = ex, raHandler = handler,
          raSyntaxUnspecifiedFilenames = syn,
          raFilenameToUnusedDependencyFilenames = unused,
          raNonImportFilenames = set names \<rparr>) fds ({}, []) = Inr (seen, img)"
    by (rule getImage_Inr)
  let ?a = "\<lparr> raEnv = env, raExcludeSourceCodeInfo = ex, raHandler = handler,
          raSyntaxUnspecifiedFilenames = syn,
          raFilenameToUnusedDependencyFilenames = unused,
          raNonImportFilenames = set names \<rparr>"
  have init: "dfsInvariant ?a {} ({}, [])" by (simp add: dfsInvariant_def)
  have inv: "dfsInvariant ?a {} (seen, img)"
  proof (rule forEachE_invariant[where I = "dfsInvariant ?a {}", OF loop init])
    fix x s s'
    assume "x \<in> set fds" "dfsInvariant ?a {} s" "getImageFilesRec ?a x s = Inr s'"
    then show "dfsInvariant ?a {} s'" using getImageFilesRec_dfsInvariant by blast
  qed
  have d: "distinct (map ifPath img)" using inv by (simp add: dfsInvariant_def)
  have fl: "\<forall>f\<in>set img. ifIsImport f = (ifPath f \<notin> set names)"
    using inv by (simp add: dfsInvariant_def)
  have topo: "(\<forall>fd\<in>set fds. acyclicFD fd) \<longrightarrow> topoFrom {} img"
  proof
    assume acyc: "\<forall>fd\<in>set fds. acyclicFD fd"
    have init2: "dfsInvariant ?a {} ({}, []) \<and> topoFrom {} (snd ({}, []))"
      using init by simp
    have "dfsInvariant ?a {} (seen, img) \<and> topoFrom {} (snd (seen, img))"
    proof (rule forEachE_invariant[where I = "\<lambda>s. dfsInvariant ?a {} s \<and> topoFrom {} (snd s)",
          OF loop init2])
      fix x s s'
      assume x: "x \<in> set fds" and s: "dfsInvariant ?a {} s \<and> topoFrom {} (snd s)"
        and r: "getImageFilesRec ?a x s = Inr s'"
      have i: "dfsInvariant ?a {} s" and t: "topoFrom {} (snd s)" using s by simp_all
      have ax: "acyclicFD x" using acyc x by simp
      have e: "fdPaths x \<inter> {} = {}" by simp
      have "dfsInvariant ?a {} s'" using getImageFilesRec_dfsInvariant[OF r i] by blast
      moreover have "topoFrom {} (snd s')"
        using getImageFilesRec_topoFrom[OF r ax i e t] by blast
      ultimately show "dfsInvariant ?a {} s' \<and> topoFrom {} (snd s')" by blast
    qed
    then show "topoFrom {} img" by simp
  qed
  show ?thesis using that[OF names d fl topo] .
qed

text \<open>
  Claim C2. In every Image that \<open>buildImage\<close> produces, (1) each file path occurs once;
  (2) a file is flagged as an import exactly when its path is not one of the requested
  target paths; and (3) when the descriptors the compiler returned have no import cycle,
  every path a file imports is the path of a file at a strictly smaller position of the
  sequence.
\<close>

theorem image_files_unique_ordered_flagged:
  assumes run: "buildImage env b ex np = (Some img, anns, err)"
    and tfis: "GetTargetFileInfos b = Inr tfis"
  shows "distinct (map ifPath img) \<and>
    (\<forall>f\<in>set img. ifIsImport f \<longleftrightarrow> ifPath f \<notin> set (FileInfoPaths tfis)) \<and>
    ((\<forall>fd\<in>set (compiledFiles (Compile env (compilerConfigOf env ex np) (FileInfoPaths tfis))).
        acyclicFD fd) \<longrightarrow>
     (\<forall>i<length img. \<forall>d\<in>set (fdpDependency (ifFileDescriptorProto (img ! i))).
        \<exists>j<i. ifPath (img ! j) = d))"
proof -
  let ?paths = "FileInfoPaths tfis"
  let ?h = "newParserAccessorHandler b"
  let ?o = "Compile env (compilerConfigOf env ex np) ?paths"
  let ?b = "getBuildResult env ?h ?paths ex np"
  from run tfis obtain s where
    c: "brErr ?b = None" "brFileAnnotations ?b = []"
    and k: "checkAndSortFileDescriptors (brFileDescriptors ?b) ?paths = Inr s"
    and g: "getImage env ex s ?h (brSyntaxUnspecifiedFilenames ?b)
               (brFilenameToUnusedDependencyFilenames ?b) = Inr img"
    by (auto elim!: buildImage_Some)
  have f: "brFileDescriptors ?b = compiledFiles ?o"
    using getBuildResult_clean[OF c] by blast
  have sp: "map Path s = map Inr ?paths" and sub: "set s \<subseteq> set (compiledFiles ?o)"
    using checkAndSortFileDescriptors_paths[OF k] f by simp_all
  from g obtain names where names: "MapError Path s = Inr names"
    and d: "distinct (map ifPath img)"
    and fl: "\<forall>f\<in>set img. ifIsImport f = (ifPath f \<notin> set names)"
    and topo: "(\<forall>fd\<in>set s. acyclicFD fd) \<longrightarrow> topoFrom {} img"
    by (rule getImage_invariants)
  have "map Inr names = map (Inr :: string \<Rightarrow> error + string) ?paths"
    using MapError_Inr_map[OF names] sp by simp
  then have np: "names = ?paths" by (simp add: inj_map_eq_map)
  have flags: "\<forall>f\<in>set img. ifIsImport f \<longleftrightarrow> ifPath f \<notin> set ?paths"
    using fl np by simp
  have order: "(\<forall>fd\<in>set (compiledFiles ?o). acyclicFD fd) \<longrightarrow>
     (\<forall>i<length img. \<forall>d\<in>set (fdpDependency (ifFileDescriptorProto (img ! i))).
        \<exists>j<i. ifPath (img ! j) = d)"
  proof
    assume "\<forall>fd\<in>set (compiledFiles ?o). acyclicFD fd"
    then have "\<forall>fd\<in>set s. acyclicFD fd" using sub by blast
    then have "topoFrom {} img" using topo by blast
    from topoFrom_order[OF this]
    show "\<forall>i<length img. \<forall>d\<in>set (fdpDependency (ifFileDescriptorProto (img ! i))).
        \<exists>j<i. ifPath (img ! j) = d" by simp
  qed
  show ?thesis using d flags order by (intro conjI)
qed

theorem image_files_unique_ordered_flagged_witness:
  "buildImage (exImageEnv 4 (exCleanOutcome [exFDa, exFDc]))
     (exImageBucket [''a.proto'', ''c.proto'']) False False
   = (Some [exImageFile ''b.proto'' [] True, exImageFile ''a.proto'' [''b.proto''] False,
            exImageFile ''c.proto'' [''b.proto''] False], [], None) \<and>
   acyclicFD exFDa \<and> acyclicFD exFDc \<and>
   distinct (map ifPath [exImageFile ''b.proto'' [] True,
                         exImageFile ''a.proto'' [''b.proto''] False,
                         exImageFile ''c.proto'' [''b.proto''] False]) \<and>
   ifIsImport (exImageFile ''b.proto'' [] True) \<and>
   \<not> ifIsImport (exImageFile ''a.proto'' [''b.proto''] False) \<and>
   (\<exists>j<2. ifPath ([exImageFile ''b.proto'' [] True,
                    exImageFile ''a.proto'' [''b.proto''] False,
                    exImageFile ''c.proto'' [''b.proto''] False] ! j) = ''b.proto'')"
proof -
  let ?img = "[exImageFile ''b.proto'' [] True, exImageFile ''a.proto'' [''b.proto''] False,
               exImageFile ''c.proto'' [''b.proto''] False]"
  let ?env = "exImageEnv 4 (exCleanOutcome [exFDa, exFDc])"
  let ?b = "exImageBucket [''a.proto'', ''c.proto'']"
  let ?tfis = "map (\<lambda>p. exFileInfo True p FileTypeProto True) [''a.proto'', ''c.proto'']"
  have r: "buildImage ?env ?b False False = (Some ?img, [], None)"
    by (rule exImage_run)
  have t: "GetTargetFileInfos ?b = Inr ?tfis" by (simp add: exImageBucket_def)
  have a: "acyclicFD exFDa" "acyclicFD exFDc" by (simp_all add: exFDa_def exFDb_def exFDc_def)
  have ac: "\<forall>fd\<in>set (compiledFiles (Compile ?env (compilerConfigOf ?env False False)
                            (FileInfoPaths ?tfis))). acyclicFD fd"
    using a by (simp add: exImageEnv_def exCleanOutcome_def)
  note T = image_files_unique_ordered_flagged[OF r t]
  have d: "distinct (map ifPath ?img)" using T by (rule conjunct1)
  have i: "ifIsImport (exImageFile ''b.proto'' [] True)" by (simp add: exImageFile_def)
  have n: "\<not> ifIsImport (exImageFile ''a.proto'' [''b.proto''] False)"
    by (simp add: exImageFile_def)
  have l: "2 < length ?img" by simp
  have m: "''b.proto'' \<in> set (fdpDependency (ifFileDescriptorProto (?img ! 2)))"
    by (simp add: exImageFile_def)
  have o: "\<exists>j<2. ifPath (?img ! j) = ''b.proto''"
    using T[THEN conjunct2, THEN conjunct2, THEN mp, OF ac, rule_format, OF l m] .
  show ?thesis using r a d i n o by (intro conjI)
qed

lemma getFileAnnotation_valid:
  "fileNameValid env d \<Longrightarrow>
   getFileAnnotation env h d = Inr (diagnosticAnnotation env h d)"
  by (auto simp: getFileAnnotation_def diagnosticAnnotation_def fileNameValid_def Let_def
      split: sum.splits)

lemma getFileAnnotation_invalid:
  "\<not> fileNameValid env d \<Longrightarrow> \<exists>e. getFileAnnotation env h d = Inl e"
  by (auto simp: getFileAnnotation_def fileNameValid_def Let_def split: sum.splits)

lemma MapError_map:
  "\<forall>x\<in>set xs. f x = Inr (g x) \<Longrightarrow> MapError f xs = Inr (map g xs)"
  by (induction xs) simp_all

lemma MapError_Inl:
  "x \<in> set xs \<Longrightarrow> f x = Inl e \<Longrightarrow> \<exists>e'. MapError f xs = Inl e'"
proof (induction xs)
  case Nil
  then show ?case by simp
next
  case (Cons y ys)
  then show ?case by (cases "f y"; cases "MapError f ys") auto
qed

lemma getFileAnnotations_valid:
  "\<forall>d\<in>set ds. fileNameValid env d \<Longrightarrow>
   getFileAnnotations env h ds = Inr (map (diagnosticAnnotation env h) ds)"
  unfolding getFileAnnotations_def
  by (rule MapError_map) (simp add: getFileAnnotation_valid)

lemma getFileAnnotations_invalid:
  assumes "\<not> (\<forall>d\<in>set ds. fileNameValid env d)"
  shows "\<exists>e. getFileAnnotations env h ds = Inl e"
proof -
  from assms obtain d where d: "d \<in> set ds" "\<not> fileNameValid env d" by blast
  from getFileAnnotation_invalid[OF d(2)] obtain e
    where "getFileAnnotation env h d = Inl e" by blast
  then have "\<exists>e'. MapError (getFileAnnotation env h) ds = Inl e'"
    using d(1) by (rule MapError_Inl[rotated])
  then show ?thesis by (simp add: getFileAnnotations_def)
qed

text \<open>\<open>buildImage\<close> on a self-contained bucket with target files, by the build result.\<close>

lemma buildImage_brErr:
  assumes "ShouldBeSelfContained b" "GetTargetFileInfos b = Inr tfis" "tfis \<noteq> []"
    and "brErr (getBuildResult env (newParserAccessorHandler b) (FileInfoPaths tfis) ex np)
         = Some e"
  shows "buildImage env b ex np = (None, [], Some e)"
  using assms by (simp add: buildImage_def Let_def)

lemma buildImage_annotations:
  assumes "ShouldBeSelfContained b" "GetTargetFileInfos b = Inr tfis" "tfis \<noteq> []"
    and "getBuildResult env (newParserAccessorHandler b) (FileInfoPaths tfis) ex np
         = newBuildResult [] {} Map.empty anns None"
    and "anns \<noteq> []"
  shows "buildImage env b ex np = (None, DeduplicateAndSortFileAnnotations env anns, None)"
  using assms by (simp add: buildImage_def newBuildResult_def Let_def)

lemma getBuildResult_InvalidSource:
  assumes "compileErr (Compile env (compilerConfigOf env ex np) paths) = Some ErrInvalidSource"
  shows "getBuildResult env h paths ex np =
     (if errorsWithPos (Compile env (compilerConfigOf env ex np) paths) = [] then
        newBuildResult [] {} Map.empty [] (Some InvalidSourceButNoErrors)
      else
        case getFileAnnotations env h
               (errorsWithPos (Compile env (compilerConfigOf env ex np) paths)) of
          Inl err \<Rightarrow> newBuildResult [] {} Map.empty [] (Some err)
        | Inr fileAnnotations \<Rightarrow> newBuildResult [] {} Map.empty fileAnnotations None)"
  using assms by (simp add: getBuildResult_def compilerConfigOf_def Let_def)

lemma getBuildResult_ErrorWithPos:
  assumes "compileErr (Compile env (compilerConfigOf env ex np) paths)
           = Some (CompileErrorWithPos d)"
  shows "getBuildResult env h paths ex np =
     (case getFileAnnotations env h [d] of
        Inl err \<Rightarrow> newBuildResult [] {} Map.empty [] (Some err)
      | Inr fileAnnotations \<Rightarrow> newBuildResult [] {} Map.empty fileAnnotations None)"
  using assms by (simp add: getBuildResult_def compilerConfigOf_def Let_def)

lemma getBuildResult_OtherError:
  assumes "compileErr (Compile env (compilerConfigOf env ex np) paths)
           = Some (CompileOtherError err)"
  shows "getBuildResult env h paths ex np = newBuildResult [] {} Map.empty [] (Some err)"
  using assms by (simp add: getBuildResult_def compilerConfigOf_def Let_def)

lemma getBuildResult_no_error:
  assumes "compileErr (Compile env (compilerConfigOf env ex np) paths) = None"
  shows "brFileAnnotations (getBuildResult env h paths ex np) = [] \<and>
         (errorsWithPos (Compile env (compilerConfigOf env ex np) paths) \<noteq> [] \<longrightarrow>
          getBuildResult env h paths ex np
            = newBuildResult [] {} Map.empty [] (Some NoErrorButErrorsReported))"
  using assms
  by (simp add: getBuildResult_def compilerConfigOf_def newBuildResult_def Let_def
      split: option.splits)

lemma buildImage_annotations_only:
  assumes "buildImage env b ex np = (None, anns, None)" and "anns \<noteq> []"
    and "GetTargetFileInfos b = Inr tfis"
  shows "brErr (getBuildResult env (newParserAccessorHandler b) (FileInfoPaths tfis) ex np) = None \<and>
         brFileAnnotations (getBuildResult env (newParserAccessorHandler b) (FileInfoPaths tfis) ex np)
           \<noteq> []"
  using assms
  by (auto simp: buildImage_def Let_def split: if_splits sum.splits option.splits)

lemma buildImage_trichotomy:
  assumes dedup: "\<And>xs. set (DeduplicateAndSortFileAnnotations env xs) = set xs"
  shows "(\<exists>img. buildImage env b ex np = (Some img, [], None)) \<or>
         (\<exists>anns. anns \<noteq> [] \<and> buildImage env b ex np = (None, anns, None)) \<or>
         (\<exists>e. buildImage env b ex np = (None, [], Some e))"
proof -
  have n: "\<And>xs. xs \<noteq> [] \<Longrightarrow> DeduplicateAndSortFileAnnotations env xs \<noteq> []"
    using dedup by (metis set_empty)
  show ?thesis
    using n by (auto simp: buildImage_def Let_def split: sum.splits option.splits)
qed

text \<open>
  Claim C3, amended. Compilation diagnostics are returned as data when the compiler says
  that the source is invalid. Let \<open>DeduplicateAndSortFileAnnotations\<close> keep the set of the
  annotations it is given.
  (1) \<open>buildImage\<close> returns exactly one of: an Image with no annotation and no error; a
  non-empty list of annotations with no Image and no error; an error with no Image and no
  annotation. So no annotation and no error means an Image.
  The rest is for a bucket that is self-contained and has target files, so that the
  compiler is run.
  (2) When the compiler returns the invalid-source error after reporting at least one
  error, and the file names of the reported errors are valid, \<open>buildImage\<close> returns no
  Image, no error and the annotations of the reported errors, which are not empty: for
  each error its path, its line and column as start and end, and its message.
  (3) When the compiler returns a positioned error whose file name is valid,
  \<open>buildImage\<close> returns no Image, no error and the annotation of that error.
  (4) These are the only runs that return annotations.
  (5) The other runs in which the compiler has reported errors return a top-level error:
  when the compiler returns no error, when it returns an error that is neither the
  invalid-source error nor a positioned error, and when the file name of a reported error
  is not valid. So does the invalid-source error with no reported error.
\<close>

theorem compile_diagnostics_are_annotations:
  assumes dedup: "\<And>xs. set (DeduplicateAndSortFileAnnotations env xs) = set xs"
  shows "((\<exists>img. buildImage env b ex np = (Some img, [], None)) \<or>
          (\<exists>anns. anns \<noteq> [] \<and> buildImage env b ex np = (None, anns, None)) \<or>
          (\<exists>e. buildImage env b ex np = (None, [], Some e))) \<and>
   (ShouldBeSelfContained b \<and> GetTargetFileInfos b = Inr tfis \<and> tfis \<noteq> [] \<longrightarrow>
    (compileErr (Compile env (compilerConfigOf env ex np) (FileInfoPaths tfis))
       = Some ErrInvalidSource \<and>
     errorsWithPos (Compile env (compilerConfigOf env ex np) (FileInfoPaths tfis)) \<noteq> [] \<and>
     (\<forall>d\<in>set (errorsWithPos (Compile env (compilerConfigOf env ex np) (FileInfoPaths tfis))).
        fileNameValid env d) \<longrightarrow>
     buildImage env b ex np
       = (None,
          DeduplicateAndSortFileAnnotations env
            (map (diagnosticAnnotation env (newParserAccessorHandler b))
               (errorsWithPos (Compile env (compilerConfigOf env ex np) (FileInfoPaths tfis)))),
          None) \<and>
     DeduplicateAndSortFileAnnotations env
       (map (diagnosticAnnotation env (newParserAccessorHandler b))
          (errorsWithPos (Compile env (compilerConfigOf env ex np) (FileInfoPaths tfis)))) \<noteq> []) \<and>
    (compileErr (Compile env (compilerConfigOf env ex np) (FileInfoPaths tfis))
       = Some (CompileErrorWithPos d) \<and> fileNameValid env d \<longrightarrow>
     buildImage env b ex np
       = (None,
          DeduplicateAndSortFileAnnotations env
            [diagnosticAnnotation env (newParserAccessorHandler b) d],
          None) \<and>
     DeduplicateAndSortFileAnnotations env
       [diagnosticAnnotation env (newParserAccessorHandler b) d] \<noteq> []) \<and>
    ((\<exists>anns. anns \<noteq> [] \<and> buildImage env b ex np = (None, anns, None)) \<longrightarrow>
     (compileErr (Compile env (compilerConfigOf env ex np) (FileInfoPaths tfis))
        = Some ErrInvalidSource \<and>
      errorsWithPos (Compile env (compilerConfigOf env ex np) (FileInfoPaths tfis)) \<noteq> [] \<and>
      (\<forall>d\<in>set (errorsWithPos (Compile env (compilerConfigOf env ex np) (FileInfoPaths tfis))).
         fileNameValid env d)) \<or>
     (\<exists>d. compileErr (Compile env (compilerConfigOf env ex np) (FileInfoPaths tfis))
             = Some (CompileErrorWithPos d) \<and> fileNameValid env d)) \<and>
    (compileErr (Compile env (compilerConfigOf env ex np) (FileInfoPaths tfis)) = None \<and>
     errorsWithPos (Compile env (compilerConfigOf env ex np) (FileInfoPaths tfis)) \<noteq> [] \<longrightarrow>
     buildImage env b ex np = (None, [], Some NoErrorButErrorsReported)) \<and>
    (compileErr (Compile env (compilerConfigOf env ex np) (FileInfoPaths tfis))
       = Some (CompileOtherError err) \<longrightarrow>
     buildImage env b ex np = (None, [], Some err)) \<and>
    (compileErr (Compile env (compilerConfigOf env ex np) (FileInfoPaths tfis))
       = Some ErrInvalidSource \<and>
     errorsWithPos (Compile env (compilerConfigOf env ex np) (FileInfoPaths tfis)) \<noteq> [] \<and>
     \<not> (\<forall>d\<in>set (errorsWithPos (Compile env (compilerConfigOf env ex np) (FileInfoPaths tfis))).
          fileNameValid env d) \<longrightarrow>
     (\<exists>e. buildImage env b ex np = (None, [], Some e))) \<and>
    (compileErr (Compile env (compilerConfigOf env ex np) (FileInfoPaths tfis))
       = Some (CompileErrorWithPos d) \<and> \<not> fileNameValid env d \<longrightarrow>
     (\<exists>e. buildImage env b ex np = (None, [], Some e))) \<and>
    (compileErr (Compile env (compilerConfigOf env ex np) (FileInfoPaths tfis))
       = Some ErrInvalidSource \<and>
     errorsWithPos (Compile env (compilerConfigOf env ex np) (FileInfoPaths tfis)) = [] \<longrightarrow>
     buildImage env b ex np = (None, [], Some InvalidSourceButNoErrors)))"
    (is "?tri \<and> (?P \<longrightarrow> ?R)")
proof -
  let ?paths = "FileInfoPaths tfis"
  let ?h = "newParserAccessorHandler b"
  let ?o = "Compile env (compilerConfigOf env ex np) ?paths"
  let ?br = "getBuildResult env ?h ?paths ex np"
  let ?D = "DeduplicateAndSortFileAnnotations env"
  have n: "\<And>xs. xs \<noteq> [] \<Longrightarrow> ?D xs \<noteq> []"
    using dedup by (metis set_empty)
  have one: "(\<exists>img. buildImage env b ex np = (Some img, [], None)) \<or>
          (\<exists>anns. anns \<noteq> [] \<and> buildImage env b ex np = (None, anns, None)) \<or>
          (\<exists>e. buildImage env b ex np = (None, [], Some e))"
    by (rule buildImage_trichotomy[OF dedup])
  have rest: ?R if P: ?P
  proof -
    from P have sc: "ShouldBeSelfContained b" and tfis: "GetTargetFileInfos b = Inr tfis"
      and ne: "tfis \<noteq> []" by blast+
    have invalidSource: "buildImage env b ex np
         = (None, ?D (map (diagnosticAnnotation env ?h) (errorsWithPos ?o)), None) \<and>
         ?D (map (diagnosticAnnotation env ?h) (errorsWithPos ?o)) \<noteq> []"
      if c: "compileErr ?o = Some ErrInvalidSource" and r: "errorsWithPos ?o \<noteq> []"
        and v: "\<forall>d\<in>set (errorsWithPos ?o). fileNameValid env d"
    proof -
      have m: "map (diagnosticAnnotation env ?h) (errorsWithPos ?o) \<noteq> []" using r by simp
      have "?br = newBuildResult [] {} Map.empty
                    (map (diagnosticAnnotation env ?h) (errorsWithPos ?o)) None"
        using getBuildResult_InvalidSource[OF c] r getFileAnnotations_valid[OF v] by simp
      from buildImage_annotations[OF sc tfis ne this m] n[OF m] show ?thesis by blast
    qed
    have positioned: "buildImage env b ex np
         = (None, ?D [diagnosticAnnotation env ?h d], None) \<and>
         ?D [diagnosticAnnotation env ?h d] \<noteq> []"
      if c: "compileErr ?o = Some (CompileErrorWithPos d)" and v: "fileNameValid env d" for d
    proof -
      have v': "\<forall>x\<in>set [d]. fileNameValid env x" using v by simp
      have m: "[diagnosticAnnotation env ?h d] \<noteq> []" by simp
      have "?br = newBuildResult [] {} Map.empty [diagnosticAnnotation env ?h d] None"
        using getBuildResult_ErrorWithPos[OF c] getFileAnnotations_valid[OF v'] by simp
      from buildImage_annotations[OF sc tfis ne this m] n[OF m] show ?thesis by blast
    qed
    have invalidName: "\<exists>e. buildImage env b ex np = (None, [], Some e)"
      if c: "compileErr ?o = Some ErrInvalidSource" and r: "errorsWithPos ?o \<noteq> []"
        and v: "\<not> (\<forall>d\<in>set (errorsWithPos ?o). fileNameValid env d)"
    proof -
      from getFileAnnotations_invalid[OF v] obtain e
        where "getFileAnnotations env ?h (errorsWithPos ?o) = Inl e" by blast
      then have "brErr ?br = Some e"
        using getBuildResult_InvalidSource[OF c] r by (simp add: newBuildResult_def)
      from buildImage_brErr[OF sc tfis ne this] show ?thesis by blast
    qed
    have invalidPositioned: "\<exists>e. buildImage env b ex np = (None, [], Some e)"
      if c: "compileErr ?o = Some (CompileErrorWithPos d)" and v: "\<not> fileNameValid env d" for d
    proof -
      have v': "\<not> (\<forall>x\<in>set [d]. fileNameValid env x)" using v by simp
      from getFileAnnotations_invalid[OF v'] obtain e
        where "getFileAnnotations env ?h [d] = Inl e" by blast
      then have "brErr ?br = Some e"
        using getBuildResult_ErrorWithPos[OF c] by (simp add: newBuildResult_def)
      from buildImage_brErr[OF sc tfis ne this] show ?thesis by blast
    qed
    have noError: "buildImage env b ex np = (None, [], Some NoErrorButErrorsReported)"
      if c: "compileErr ?o = None" and r: "errorsWithPos ?o \<noteq> []"
    proof -
      have "brErr ?br = Some NoErrorButErrorsReported"
        using getBuildResult_no_error[OF c] r by (simp add: newBuildResult_def)
      from buildImage_brErr[OF sc tfis ne this] show ?thesis .
    qed
    have otherError: "buildImage env b ex np = (None, [], Some err)"
      if c: "compileErr ?o = Some (CompileOtherError err)" for err
    proof -
      have "brErr ?br = Some err"
        using getBuildResult_OtherError[OF c] by (simp add: newBuildResult_def)
      from buildImage_brErr[OF sc tfis ne this] show ?thesis .
    qed
    have noReport: "buildImage env b ex np = (None, [], Some InvalidSourceButNoErrors)"
      if c: "compileErr ?o = Some ErrInvalidSource" and r: "errorsWithPos ?o = []"
    proof -
      have "brErr ?br = Some InvalidSourceButNoErrors"
        using getBuildResult_InvalidSource[OF c] r by (simp add: newBuildResult_def)
      from buildImage_brErr[OF sc tfis ne this] show ?thesis .
    qed
    have only: "(compileErr ?o = Some ErrInvalidSource \<and> errorsWithPos ?o \<noteq> [] \<and>
        (\<forall>d\<in>set (errorsWithPos ?o). fileNameValid env d)) \<or>
       (\<exists>d. compileErr ?o = Some (CompileErrorWithPos d) \<and> fileNameValid env d)"
      if a: "\<exists>anns. anns \<noteq> [] \<and> buildImage env b ex np = (None, anns, None)"
    proof -
      from a obtain anns where an: "anns \<noteq> []" "buildImage env b ex np = (None, anns, None)"
        by blast
      from buildImage_annotations_only[OF an(2) an(1) tfis]
      have be: "brErr ?br = None" and ba: "brFileAnnotations ?br \<noteq> []" by blast+
      show ?thesis
      proof (cases "compileErr ?o")
        case None
        then show ?thesis using getBuildResult_no_error[OF None] ba by blast
      next
        case (Some ce)
        show ?thesis
        proof (cases ce)
          case ErrInvalidSource
          then have c: "compileErr ?o = Some ErrInvalidSource" using Some by simp
          have r: "errorsWithPos ?o \<noteq> []"
            using noReport[OF c] an by auto
          have v: "\<forall>d\<in>set (errorsWithPos ?o). fileNameValid env d"
            using invalidName[OF c r] an by auto
          show ?thesis using c r v by blast
        next
          case (CompileErrorWithPos d)
          then have c: "compileErr ?o = Some (CompileErrorWithPos d)" using Some by simp
          have "fileNameValid env d" using invalidPositioned[OF c] an by auto
          then show ?thesis using c by blast
        next
          case (CompileOtherError e)
          then have c: "compileErr ?o = Some (CompileOtherError e)" using Some by simp
          show ?thesis using otherError[OF c] an by simp
        qed
      qed
    qed
    show ?thesis
    proof (intro conjI impI)
      assume h: "compileErr ?o = Some ErrInvalidSource \<and> errorsWithPos ?o \<noteq> [] \<and>
        (\<forall>d\<in>set (errorsWithPos ?o). fileNameValid env d)"
      then have c: "compileErr ?o = Some ErrInvalidSource" and r: "errorsWithPos ?o \<noteq> []"
        and v: "\<forall>d\<in>set (errorsWithPos ?o). fileNameValid env d" by blast+
      show "buildImage env b ex np
         = (None, ?D (map (diagnosticAnnotation env ?h) (errorsWithPos ?o)), None)"
        using invalidSource[OF c r v] by blast
      show "?D (map (diagnosticAnnotation env ?h) (errorsWithPos ?o)) \<noteq> []"
        using invalidSource[OF c r v] by blast
    next
      assume h: "compileErr ?o = Some (CompileErrorWithPos d) \<and> fileNameValid env d"
      then have c: "compileErr ?o = Some (CompileErrorWithPos d)" and v: "fileNameValid env d"
        by blast+
      show "buildImage env b ex np = (None, ?D [diagnosticAnnotation env ?h d], None)"
        using positioned[OF c v] by blast
      show "?D [diagnosticAnnotation env ?h d] \<noteq> []" using positioned[OF c v] by blast
    next
      assume "\<exists>anns. anns \<noteq> [] \<and> buildImage env b ex np = (None, anns, None)"
      then show "(compileErr ?o = Some ErrInvalidSource \<and> errorsWithPos ?o \<noteq> [] \<and>
        (\<forall>d\<in>set (errorsWithPos ?o). fileNameValid env d)) \<or>
       (\<exists>d. compileErr ?o = Some (CompileErrorWithPos d) \<and> fileNameValid env d)"
        by (rule only)
    next
      assume "compileErr ?o = None \<and> errorsWithPos ?o \<noteq> []"
      then have c: "compileErr ?o = None" and r: "errorsWithPos ?o \<noteq> []" by blast+
      show "buildImage env b ex np = (None, [], Some NoErrorButErrorsReported)"
        by (rule noError[OF c r])
    next
      assume "compileErr ?o = Some (CompileOtherError err)"
      then show "buildImage env b ex np = (None, [], Some err)" by (rule otherError)
    next
      assume "compileErr ?o = Some ErrInvalidSource \<and> errorsWithPos ?o \<noteq> [] \<and>
       \<not> (\<forall>d\<in>set (errorsWithPos ?o). fileNameValid env d)"
      then have c: "compileErr ?o = Some ErrInvalidSource" and r: "errorsWithPos ?o \<noteq> []"
        and v: "\<not> (\<forall>d\<in>set (errorsWithPos ?o). fileNameValid env d)" by blast+
      show "\<exists>e. buildImage env b ex np = (None, [], Some e)" by (rule invalidName[OF c r v])
    next
      assume "compileErr ?o = Some (CompileErrorWithPos d) \<and> \<not> fileNameValid env d"
      then have c: "compileErr ?o = Some (CompileErrorWithPos d)" and v: "\<not> fileNameValid env d"
        by blast+
      show "\<exists>e. buildImage env b ex np = (None, [], Some e)"
        by (rule invalidPositioned[OF c v])
    next
      assume "compileErr ?o = Some ErrInvalidSource \<and> errorsWithPos ?o = []"
      then have c: "compileErr ?o = Some ErrInvalidSource" and r: "errorsWithPos ?o = []"
        by blast+
      show "buildImage env b ex np = (None, [], Some InvalidSourceButNoErrors)"
        by (rule noReport[OF c r])
    qed
  qed
  show ?thesis
  proof (rule conjI[OF one], rule impI)
    assume ?P
    then show ?R by (rule rest)
  qed
qed

theorem compile_diagnostics_are_annotations_witness:
  "buildImage (exImageEnv 4 exFailedOutcome) (exImageBucket [''a.proto'']) False False
   = (None,
      [\<lparr> faFileInfo = Some (''a.proto'', ''a.proto''), faStartLine = 3, faStartColumn = 7,
         faEndLine = 3, faEndColumn = 7, faType = ''COMPILE'', faMessage = ''syntax error'' \<rparr>],
      None) \<and>
   compileErr exFailedOutcome = Some ErrInvalidSource \<and>
   errorsWithPos exFailedOutcome = [exSyntaxError] \<and>
   fileNameValid (exImageEnv 4 exFailedOutcome) exSyntaxError \<and>
   buildImage (exImageEnv 4 exInconsistentOutcome) (exImageBucket [''a.proto'']) False False
   = (None, [], Some NoErrorButErrorsReported) \<and>
   buildImage (exStrictEnv exFailedOutcome) (exImageBucket [''a.proto'']) False False
   = (None, [], Some (ErrorMsg ''invalid path''))"
proof -
  let ?env = "exImageEnv 4 exFailedOutcome"
  let ?env2 = "exImageEnv 4 exInconsistentOutcome"
  let ?b = "exImageBucket [''a.proto'']"
  let ?tfis = "map (\<lambda>p. exFileInfo True p FileTypeProto True) [''a.proto'']"
  have dd: "\<And>xs. set (DeduplicateAndSortFileAnnotations ?env xs) = set xs"
    by (simp add: exImageEnv_def)
  have dd2: "\<And>xs. set (DeduplicateAndSortFileAnnotations ?env2 xs) = set xs"
    by (simp add: exImageEnv_def)
  have sc: "ShouldBeSelfContained ?b" by (simp add: exImageBucket_def)
  have t: "GetTargetFileInfos ?b = Inr ?tfis" by (simp add: exImageBucket_def)
  have ne: "?tfis \<noteq> []" by simp
  have o: "Compile ?env (compilerConfigOf ?env False False) (FileInfoPaths ?tfis)
           = exFailedOutcome"
    by (simp add: exImageEnv_def)
  have o2: "Compile ?env2 (compilerConfigOf ?env2 False False) (FileInfoPaths ?tfis)
           = exInconsistentOutcome"
    by (simp add: exImageEnv_def)
  have c: "compileErr exFailedOutcome = Some ErrInvalidSource"
    by (simp add: exFailedOutcome_def)
  have r: "errorsWithPos exFailedOutcome = [exSyntaxError]"
    by (simp add: exFailedOutcome_def)
  have v: "fileNameValid ?env exSyntaxError"
    by (simp add: fileNameValid_def exImageEnv_def exSyntaxError_def)
  have h: "compileErr (Compile ?env (compilerConfigOf ?env False False) (FileInfoPaths ?tfis))
             = Some ErrInvalidSource \<and>
           errorsWithPos (Compile ?env (compilerConfigOf ?env False False) (FileInfoPaths ?tfis))
             \<noteq> [] \<and>
           (\<forall>d\<in>set (errorsWithPos
                       (Compile ?env (compilerConfigOf ?env False False) (FileInfoPaths ?tfis))).
              fileNameValid ?env d)"
    unfolding o using c r v by simp
  have P: "ShouldBeSelfContained ?b \<and> GetTargetFileInfos ?b = Inr ?tfis \<and> ?tfis \<noteq> []"
    using sc t ne by (intro conjI)
  note T = compile_diagnostics_are_annotations[OF dd, where ex = False and np = False,
      THEN conjunct2, THEN mp, OF P, THEN conjunct1, THEN mp, OF h, THEN conjunct1]
  have a: "buildImage ?env ?b False False
   = (None,
      [\<lparr> faFileInfo = Some (''a.proto'', ''a.proto''), faStartLine = 3, faStartColumn = 7,
         faEndLine = 3, faEndColumn = 7, faType = ''COMPILE'', faMessage = ''syntax error'' \<rparr>],
      None)"
    using T unfolding o r
    by (simp add: diagnosticAnnotation_def exImageEnv_def exSyntaxError_def exImageBucket_def
        exHandler_def)
  have h2: "compileErr (Compile ?env2 (compilerConfigOf ?env2 False False) (FileInfoPaths ?tfis))
              = None \<and>
            errorsWithPos (Compile ?env2 (compilerConfigOf ?env2 False False) (FileInfoPaths ?tfis))
              \<noteq> []"
    unfolding o2 by (simp add: exInconsistentOutcome_def)
  have e: "buildImage ?env2 ?b False False = (None, [], Some NoErrorButErrorsReported)"
    using compile_diagnostics_are_annotations[OF dd2, where ex = False and np = False,
      THEN conjunct2, THEN mp, OF P, THEN conjunct2, THEN conjunct2, THEN conjunct2,
      THEN conjunct1, THEN mp, OF h2] .
  have s: "buildImage (exStrictEnv exFailedOutcome) ?b False False
           = (None, [], Some (ErrorMsg ''invalid path''))"
    by (simp add: buildImage_def exStrictEnv_def exImageEnv_def exFailedOutcome_def
        exSyntaxError_def exImageBucket_def FileInfoPaths_def exFileInfo_def exObject_def
        getBuildResult_def newBuildResult_def getFileAnnotations_def getFileAnnotation_def
        exHandler_def Let_def)
  show ?thesis using a c r v e s by (intro conjI)
qed

text \<open>
  Claim C3 as worded promises annotations and no top-level error whenever the compiler
  has produced diagnostics. Here the compiler has reported the syntax error of \<open>a.proto\<close>
  in both runs. In the first it returns an error that is neither the invalid-source error
  nor a positioned error, and \<open>buildImage\<close> returns that error; in the second it returns no
  error, and \<open>buildImage\<close> returns the error of the guard for that case. Neither run returns
  an annotation.
\<close>

theorem reported_diagnostics_with_top_level_error:
  "errorsWithPos exCancelledOutcome = [exSyntaxError] \<and>
   buildImage (exImageEnv 4 exCancelledOutcome) (exImageBucket [''a.proto'']) False False
   = (None, [], Some (ErrorMsg ''context canceled'')) \<and>
   errorsWithPos exInconsistentOutcome = [exSyntaxError] \<and>
   buildImage (exImageEnv 4 exInconsistentOutcome) (exImageBucket [''a.proto'']) False False
   = (None, [], Some NoErrorButErrorsReported)"
  by (simp add: buildImage_def exImageEnv_def exCancelledOutcome_def exInconsistentOutcome_def
      exSyntaxError_def exImageBucket_def FileInfoPaths_def exFileInfo_def exObject_def
      getBuildResult_def newBuildResult_def exHandler_def Let_def)

end
